theory Spec2Isabelle
  imports Main "HOL-Library.Sublist"
begin

section \<open>Strings\<close>

text \<open>
  A JavaScript string is a sequence of UTF-16 code units; a code unit is modelled as a
  natural number. \<open>str\<close> turns a literal into its code units.
\<close>

type_synonym jsstring = "nat list"

definition str :: "string \<Rightarrow> jsstring" where
  "str s = map of_char s"

text \<open>\<open>s.includes(pat)\<close>, \<open>s.startsWith(pat)\<close> is \<open>prefix pat s\<close>,
  \<open>s.endsWith(pat)\<close> is \<open>suffix pat s\<close>.\<close>

fun includesStr :: "jsstring \<Rightarrow> jsstring \<Rightarrow> bool" where
  "includesStr [] pat = (pat = [])"
| "includesStr (c # cs) pat = (prefix pat (c # cs) \<or> includesStr cs pat)"

text \<open>
  \<open>s.toLowerCase()\<close>. The program only compares the result with \<open>".css"\<close> and
  \<open>".js"\<close>; no code unit outside \<open>A\<close>..\<open>Z\<close> lowercases to one of the code units of
  these two strings, so the mapping is written out for \<open>A\<close>..\<open>Z\<close> and is the identity
  elsewhere.
\<close>

definition toLowerCase :: "jsstring \<Rightarrow> jsstring" where
  "toLowerCase s = map (\<lambda>c. if 65 \<le> c \<and> c \<le> 90 then c + 32 else c) s"

section \<open>The path functions of the standard library (POSIX flavour)\<close>

text \<open>
  \<open>parse\<close>, \<open>extname\<close>, \<open>dirname\<close> and \<open>join\<close> are imported by the program from
  \<open>std/path\<close>. They are written here by what they compute on a path: the last
  component after the trailing separators are dropped, the text before it, and the
  split of the component at its last dot.
\<close>

definition isPosixPathSeparator :: "nat \<Rightarrow> bool" where
  "isPosixPathSeparator c = (c = 47)"

definition CHAR_DOT :: nat where
  "CHAR_DOT = 46"

text \<open>Trailing separators are dropped, the first code unit is always kept.\<close>

definition stripTrailingSeparators :: "jsstring \<Rightarrow> jsstring" where
  "stripTrailingSeparators segment =
     (if length segment \<le> 1 then segment
      else hd segment # rev (dropWhile isPosixPathSeparator (rev (tl segment))))"

text \<open>The text with its trailing separators dropped, and its last component.\<close>

definition trimSeparators :: "jsstring \<Rightarrow> jsstring" where
  "trimSeparators s = rev (dropWhile isPosixPathSeparator (rev s))"

definition lastPart :: "jsstring \<Rightarrow> jsstring" where
  "lastPart s = rev (takeWhile (\<lambda>c. \<not> isPosixPathSeparator c) (rev s))"

definition beforeLastPart :: "jsstring \<Rightarrow> jsstring" where
  "beforeLastPart s = take (length s - length (lastPart s)) s"

text \<open>
  The split of a component into name and extension. There is no extension when the
  component has no dot, when its last dot is its first code unit, or when the component
  is \<open>..\<close>; \<open>parse\<close> misses the last case for an absolute path of one component
  (\<open>keepDotDot\<close>), \<open>extname\<close> never does.
\<close>

definition splitExt :: "bool \<Rightarrow> jsstring \<Rightarrow> jsstring \<times> jsstring" where
  "splitExt keepDotDot b =
     (let afterDot = takeWhile (\<lambda>c. c \<noteq> CHAR_DOT) (rev b);
          startDot = length b - length afterDot - 1
      in if CHAR_DOT \<notin> set b \<or> startDot = 0 \<or> (b = str ''..'' \<and> \<not> keepDotDot)
         then (b, [])
         else (take startDot b, drop startDot b))"

record ParsedPath =
  root :: jsstring
  dir :: jsstring
  base :: jsstring
  ext :: jsstring
  name :: jsstring

definition parse :: "jsstring \<Rightarrow> ParsedPath" where
  "parse path =
     (if path = [] then \<lparr>root = [], dir = [], base = [], ext = [], name = []\<rparr>
      else
        let isAbsolute = isPosixPathSeparator (hd path);
            trimmed = trimSeparators (if isAbsolute then tl path else path);
            b = lastPart trimmed;
            front = beforeLastPart trimmed;
            ne = splitExt (isAbsolute \<and> front = []) b
        in \<lparr>root = (if isAbsolute then str ''/'' else []),
            dir = (if front \<noteq> []
                   then stripTrailingSeparators
                          ((if isAbsolute then str ''/'' else []) @ butlast front)
                   else if isAbsolute then str ''/'' else []),
            base = (if b = [] then str ''/'' else b),
            ext = snd ne,
            name = fst ne\<rparr>)"

definition extname :: "jsstring \<Rightarrow> jsstring" where
  "extname path = snd (splitExt False (lastPart (trimSeparators path)))"

definition dirname :: "jsstring \<Rightarrow> jsstring" where
  "dirname path =
     (if path = [] then str ''.''
      else
        let trimmed = trimSeparators (tl path);
            front = beforeLastPart trimmed
        in if front = []
           then (if isPosixPathSeparator (hd path) then str ''/'' else str ''.'')
           else stripTrailingSeparators (hd path # butlast front))"

text \<open>
  \<open>normalize\<close>: the path is cut at its separators; empty segments and \<open>.\<close> are dropped,
  \<open>..\<close> removes the segment before it, or stays when there is none to remove and the
  path is relative. The stack of segments is kept with its top first.
\<close>

fun splitSep :: "jsstring \<Rightarrow> jsstring list" where
  "splitSep [] = [[]]"
| "splitSep (c # cs) =
     (if isPosixPathSeparator c then [] # splitSep cs
      else (case splitSep cs of [] \<Rightarrow> [[c]] | s # ss \<Rightarrow> (c # s) # ss))"

definition pushSegment :: "bool \<Rightarrow> jsstring list \<Rightarrow> jsstring \<Rightarrow> jsstring list" where
  "pushSegment allowAboveRoot stack seg =
     (if seg = [] \<or> seg = str ''.'' then stack
      else if seg = str ''..'' then
        (case stack of
           [] \<Rightarrow> (if allowAboveRoot then [seg] else [])
         | seg0 # below \<Rightarrow>
             (if seg0 = str ''..'' then (if allowAboveRoot then seg # stack else stack)
              else below))
      else seg # stack)"

fun joinSegments :: "jsstring list \<Rightarrow> jsstring" where
  "joinSegments [] = []"
| "joinSegments [s] = s"
| "joinSegments (s # t # ss) = s @ str ''/'' @ joinSegments (t # ss)"

definition normalizeString :: "jsstring \<Rightarrow> bool \<Rightarrow> jsstring" where
  "normalizeString path allowAboveRoot =
     joinSegments (rev (foldl (pushSegment allowAboveRoot) [] (splitSep path)))"

definition normalize :: "jsstring \<Rightarrow> jsstring" where
  "normalize path =
     (if path = [] then str ''.''
      else
        let isAbsolute = isPosixPathSeparator (hd path);
            trailingSeparator = isPosixPathSeparator (last path);
            p1 = normalizeString path (\<not> isAbsolute);
            p2 = (if p1 = [] \<and> \<not> isAbsolute then str ''.'' else p1);
            p3 = (if p2 \<noteq> [] \<and> trailingSeparator then p2 @ str ''/'' else p2)
        in if isAbsolute then str ''/'' @ p3 else p3)"

text \<open>\<open>join(a, b)\<close>: the non-empty arguments, a separator between them, normalized.\<close>

definition join :: "jsstring \<Rightarrow> jsstring \<Rightarrow> jsstring" where
  "join a b =
     (if a = [] \<and> b = [] then str ''.''
      else if a = [] then normalize b
      else if b = [] then normalize a
      else normalize (a @ str ''/'' @ b))"

section \<open>Configuration\<close>

record RtlConfig =
  enabled :: bool
  generateSeparateFiles :: bool
  rtlSuffix :: jsstring

definition RTL_CONFIG :: RtlConfig where
  "RTL_CONFIG = \<lparr>enabled = True, generateSeparateFiles = True, rtlSuffix = str ''.rtl''\<rparr>"

definition CSS_EXT :: jsstring where
  "CSS_EXT = str ''.css''"

definition JS_EXT :: jsstring where
  "JS_EXT = str ''.js''"

section \<open>Destination paths\<close>

definition getDestPath :: "jsstring \<Rightarrow> bool \<Rightarrow> jsstring" where
  "getDestPath filePath isRtl =
     (let p = parse filePath;
          rtlSuffixText = (if isRtl then rtlSuffix RTL_CONFIG else [])
      in join (dir p) (name p @ rtlSuffixText @ str ''.min'' @ ext p))"

section \<open>Errors, file information, console output\<close>

text \<open>
  A thrown value, with the text \<open>String(error)\<close> gives for it and whether
  \<open>error.data?.type\<close> is \<open>'UnexpectedImportRule'\<close>.
\<close>

record error =
  rendering :: jsstring
  unexpectedImportRule :: bool

text \<open>
  What \<open>Deno.stat\<close> returns: \<open>mtime\<close> is a date, in milliseconds since the epoch, or
  null.
\<close>

record FileInfo =
  mtime :: "int option"

text \<open>\<open>mtime || new Date(0)\<close>, read as a number by the comparison.\<close>

definition timeOf :: "FileInfo \<Rightarrow> int" where
  "timeOf stats = (case mtime stats of None \<Rightarrow> 0 | Some t \<Rightarrow> t)"

text \<open>
  The lines written to the console, one constructor for each call of the program; the
  timestamps and sizes inside the informational lines are left out.
\<close>

datatype log =
    ErrorDefinitionsRead jsstring
  | ErrorCssMinification jsstring
  | ErrorImportHint
  | ErrorJsMinification
  | ErrorFileStats jsstring
  | ErrorRtlGeneration jsstring
  | ErrorRtlFailed jsstring
  | ErrorProcessing jsstring
  | WarnNotPreciselyRemoved jsstring
  | WarnNoStartMarker jsstring
  | InfoRtlGenerated jsstring jsstring
  | InfoRtlMap jsstring
  | InfoLtrGenerated jsstring jsstring
  | InfoLtrMap jsstring
  | InfoJsMap jsstring
  | InfoJsGenerated jsstring jsstring

section \<open>Freshness\<close>

text \<open>
  \<open>isSourceNewer\<close> only reads file information: \<open>stat\<close> is what \<open>Deno.stat\<close> answers
  for each path, an error (\<open>Inl\<close>) when it throws. The result is the boolean and the
  console lines.
\<close>

definition isSourceNewer ::
  "(jsstring \<Rightarrow> error + FileInfo) \<Rightarrow> jsstring \<Rightarrow> bool \<times> log list" where
  "isSourceNewer stat sourcePath =
     (case stat sourcePath of
        Inl err \<Rightarrow> (True, [ErrorFileStats sourcePath])
      | Inr sourceStats \<Rightarrow>
          let extension = toLowerCase (extname sourcePath);
              mainMinPath = getDestPath sourcePath False
          in (case stat mainMinPath of
                Inl _ \<Rightarrow> (True, [])
              | Inr mainMinStats \<Rightarrow>
                  let mainMinTime = timeOf mainMinStats
                  in if extension = CSS_EXT \<and> enabled RTL_CONFIG
                        \<and> generateSeparateFiles RTL_CONFIG
                     then
                       (let rtlMinPath = getDestPath sourcePath True
                        in case stat rtlMinPath of
                             Inr rtlMinStats \<Rightarrow>
                               let rtlMinTime = timeOf rtlMinStats;
                                   sourceTime = timeOf sourceStats
                               in (sourceTime > mainMinTime \<or> sourceTime > rtlMinTime, [])
                           | Inl _ \<Rightarrow> (True, []))
                     else
                       (let sourceTime = timeOf sourceStats
                        in (sourceTime > mainMinTime, []))))"

text \<open>
  The freshness rule in the words of the specification: stale when the stat of the
  source fails, when a destination that is relevant is missing, or when the source is
  strictly newer than a relevant destination. The right-to-left destination is relevant
  for a style sheet.
\<close>

definition missing :: "(jsstring \<Rightarrow> error + FileInfo) \<Rightarrow> jsstring \<Rightarrow> bool" where
  "missing stat path = (case stat path of Inl _ \<Rightarrow> True | Inr _ \<Rightarrow> False)"

definition timeAt :: "(jsstring \<Rightarrow> error + FileInfo) \<Rightarrow> jsstring \<Rightarrow> int" where
  "timeAt stat path = (case stat path of Inl _ \<Rightarrow> 0 | Inr stats \<Rightarrow> timeOf stats)"

definition rtlRelevant :: "jsstring \<Rightarrow> bool" where
  "rtlRelevant sourcePath = (toLowerCase (extname sourcePath) = CSS_EXT)"

definition isStale :: "(jsstring \<Rightarrow> error + FileInfo) \<Rightarrow> jsstring \<Rightarrow> bool" where
  "isStale stat sourcePath =
     (missing stat sourcePath
      \<or> missing stat (getDestPath sourcePath False)
      \<or> (rtlRelevant sourcePath \<and> missing stat (getDestPath sourcePath True))
      \<or> timeAt stat sourcePath > timeAt stat (getDestPath sourcePath False)
      \<or> (rtlRelevant sourcePath
          \<and> timeAt stat sourcePath > timeAt stat (getDestPath sourcePath True)))"

section \<open>Text operations of the style sheet stages\<close>

text \<open>
  The code units matched by \<open>\s\<close> and removed by \<open>trim\<close> (white space and line
  terminators), and the line terminators after which \<open>^\<close> matches under the \<open>m\<close> flag.
\<close>

definition isWhiteSpace :: "nat \<Rightarrow> bool" where
  "isWhiteSpace c =
     (c \<in> {9, 10, 11, 12, 13, 32, 160, 5760, 8232, 8233, 8239, 8287, 12288, 65279}
      \<or> (8192 \<le> c \<and> c \<le> 8202))"

definition isLineTerminator :: "nat \<Rightarrow> bool" where
  "isLineTerminator c = (c \<in> {10, 13, 8232, 8233})"

definition trim :: "jsstring \<Rightarrow> jsstring" where
  "trim s = rev (dropWhile isWhiteSpace (rev (dropWhile isWhiteSpace s)))"

text \<open>\<open>s.split('\n')[0]\<close>\<close>

definition firstLine :: "jsstring \<Rightarrow> jsstring" where
  "firstLine s = takeWhile (\<lambda>c. c \<noteq> 10) s"

text \<open>
  \<open>s.indexOf(pat, from)\<close>: the first index at or after \<open>from\<close> where \<open>pat\<close> starts,
  \<open>None\<close> for \<open>-1\<close>.
\<close>

fun indexOfAux :: "jsstring \<Rightarrow> jsstring \<Rightarrow> nat \<Rightarrow> nat option" where
  "indexOfAux pat [] k = (if pat = [] then Some k else None)"
| "indexOfAux pat (c # cs) k =
     (if prefix pat (c # cs) then Some k else indexOfAux pat cs (Suc k))"

definition indexOf :: "jsstring \<Rightarrow> jsstring \<Rightarrow> nat \<Rightarrow> nat option" where
  "indexOf s pat from = indexOfAux pat (drop from s) (min from (length s))"

text \<open>
  \<open>s.replace(re, rep)\<close> for a global regular expression that never matches the empty
  string: \<open>m\<close> gives the length of the match of \<open>re\<close> at the start of a text. The text
  is read from the left; after a match the reading goes on behind it.
\<close>

function replaceAllBy ::
  "(jsstring \<Rightarrow> nat option) \<Rightarrow> jsstring \<Rightarrow> jsstring \<Rightarrow> jsstring" where
  "replaceAllBy m rep [] = []"
| "replaceAllBy m rep (c # cs) =
     (case m (c # cs) of
        Some n \<Rightarrow> rep @ replaceAllBy m rep (drop (n - 1) cs)
      | None \<Rightarrow> c # replaceAllBy m rep cs)"
  by pat_completeness auto
termination
  by (relation "measure (\<lambda>(m, rep, s). length s)") auto

definition matchLiteral :: "jsstring \<Rightarrow> jsstring \<Rightarrow> nat option" where
  "matchLiteral pat s = (if prefix pat s then Some (length pat) else None)"

text \<open>The text behind a literal, when the text starts with it.\<close>

definition afterLiteral :: "jsstring \<Rightarrow> jsstring \<Rightarrow> jsstring option" where
  "afterLiteral pat s = (if prefix pat s then Some (drop (length pat) s) else None)"

text \<open>
  \<open>/@import\s+(['"])(?:(?:\.\.\/)+)?assets\/css\/definitions\.css\1\s*;/\<close> at the
  start of a text. Each greedy part is followed by a code unit it cannot match itself,
  so the match is found without going back.
\<close>

fun dropParentSteps :: "jsstring \<Rightarrow> jsstring" where
  "dropParentSteps (a # b # c # rest) =
     (if a = 46 \<and> b = 46 \<and> c = 47 then dropParentSteps rest else a # b # c # rest)"
| "dropParentSteps s = s"

definition matchImport :: "jsstring \<Rightarrow> nat option" where
  "matchImport s =
     (case afterLiteral (str ''@import'') s of
        None \<Rightarrow> None
      | Some r1 \<Rightarrow>
          (case dropWhile isWhiteSpace r1 of
             [] \<Rightarrow> None
           | q # r2 \<Rightarrow>
               if length r1 = Suc (length r2) \<or> (q \<noteq> 39 \<and> q \<noteq> 34) then None
               else
                 (case afterLiteral (str ''assets/css/definitions.css'') (dropParentSteps r2) of
                    None \<Rightarrow> None
                  | Some r3 \<Rightarrow>
                      (case r3 of
                         [] \<Rightarrow> None
                       | q' # r4 \<Rightarrow>
                           if q' \<noteq> q then None
                           else
                             (case dropWhile isWhiteSpace r4 of
                                [] \<Rightarrow> None
                              | c # r5 \<Rightarrow>
                                  if c = 59 then Some (length s - length r5)
                                  else None)))))"

text \<open>
  \<open>/^\s*([@.]|\*|html|body|:root)/m\<close>: the match at a line start, and the first match
  in a text (\<open>cleanedInput.match(...)\<close>, the matched text \<open>m[0]\<close> or \<open>None\<close> for null).
\<close>

definition matchRuleStart :: "jsstring \<Rightarrow> jsstring option" where
  "matchRuleStart s =
     (let r = dropWhile isWhiteSpace s;
          n = length s - length r
      in if prefix (str ''@'') r \<or> prefix (str ''.'') r \<or> prefix (str ''*'') r
         then Some (take (n + 1) s)
         else if prefix (str ''html'') r \<or> prefix (str ''body'') r then Some (take (n + 4) s)
         else if prefix (str '':root'') r then Some (take (n + 5) s)
         else None)"

fun firstRuleFrom :: "bool \<Rightarrow> jsstring \<Rightarrow> jsstring option" where
  "firstRuleFrom lineStart [] = None"
| "firstRuleFrom lineStart (c # cs) =
     (case (if lineStart then matchRuleStart (c # cs) else None) of
        Some m \<Rightarrow> Some m
      | None \<Rightarrow> firstRuleFrom (isLineTerminator c) cs)"

definition firstRuleMatch :: "jsstring \<Rightarrow> jsstring option" where
  "firstRuleMatch s = firstRuleFrom True s"

text \<open>\<open>/text-align:\s*left/\<close> and \<open>/text-align:\s*right/\<close> at the start of a text.\<close>

definition matchTextAlign :: "jsstring \<Rightarrow> jsstring \<Rightarrow> nat option" where
  "matchTextAlign side s =
     (case afterLiteral (str ''text-align:'') s of
        None \<Rightarrow> None
      | Some r \<Rightarrow>
          (let r' = dropWhile isWhiteSpace r
           in if prefix side r' then Some (length s - length r' + length side) else None))"

section \<open>The environment and the state of the program\<close>

text \<open>
  What the program does not contain itself is a parameter: the working directory, the
  two minifiers (an error when they throw, else the code and the source map), and
  whether a directory creation or a write throws. \<open>transform\<close> stands for the
  computation of the targets and the call of the style sheet minifier, with the file
  name and the text given to it. A write is numbered by the count of writes before it;
  \<open>clock\<close> is the modification time the file system gives to the file written.
\<close>

record env =
  cwd :: jsstring
  transform :: "jsstring \<Rightarrow> jsstring \<Rightarrow> error + (jsstring \<times> jsstring option)"
  minifyJs :: "jsstring \<Rightarrow> jsstring \<Rightarrow> error + (jsstring option \<times> jsstring option)"
  ensureDirFails :: "jsstring \<Rightarrow> error option"
  writeFails :: "nat \<Rightarrow> jsstring \<Rightarrow> error option"
  clock :: "nat \<Rightarrow> int option"

text \<open>
  A path of the file system has an error (what \<open>stat\<close> and a read throw for it) or a
  file: its information and what reading its text gives.
\<close>

record fileEntry =
  info :: FileInfo
  contents :: "error + jsstring"

type_synonym fileSystem = "jsstring \<Rightarrow> error + fileEntry"

definition stat :: "fileSystem \<Rightarrow> jsstring \<Rightarrow> error + FileInfo" where
  "stat files path = (case files path of Inl e \<Rightarrow> Inl e | Inr f \<Rightarrow> Inr (info f))"

definition readTextFile :: "fileSystem \<Rightarrow> jsstring \<Rightarrow> error + jsstring" where
  "readTextFile files path = (case files path of Inl e \<Rightarrow> Inl e | Inr f \<Rightarrow> contents f)"

text \<open>
  A \<open>Set<string>\<close> keeps its members once each, in the order they were added.
\<close>

definition setHas :: "jsstring list \<Rightarrow> jsstring \<Rightarrow> bool" where
  "setHas s x = (x \<in> set s)"

definition setAdd :: "jsstring list \<Rightarrow> jsstring \<Rightarrow> jsstring list" where
  "setAdd s x = (if x \<in> set s then s else s @ [x])"

definition setDelete :: "jsstring list \<Rightarrow> jsstring \<Rightarrow> jsstring list" where
  "setDelete s x = filter (\<lambda>y. y \<noteq> x) s"

text \<open>
  The global state (\<open>processingFiles\<close>, \<open>watchedDirectories\<close>), the file system, the
  count of writes, the timers that are set and the console. A timer set by the watcher
  is the key of the set and the path it will delete from it.
\<close>

record world =
  processingFiles :: "jsstring list"
  watchedDirectories :: "jsstring \<rightharpoonup> jsstring list"
  files :: fileSystem
  writes :: nat
  timers :: "(jsstring \<times> jsstring) list"
  console :: "log list"

definition say :: "log list \<Rightarrow> world \<Rightarrow> world" where
  "say ls w = w\<lparr>console := console w @ ls\<rparr>"

text \<open>
  \<open>Deno.writeTextFile\<close>: the write throws and leaves the file as it was, or the path
  holds the text with the modification time of the clock.
\<close>

definition writeTextFile ::
  "env \<Rightarrow> world \<Rightarrow> jsstring \<Rightarrow> jsstring \<Rightarrow> error option \<times> world" where
  "writeTextFile e w path text =
     (case writeFails e (writes w) path of
        Some err \<Rightarrow> (Some err, w\<lparr>writes := Suc (writes w)\<rparr>)
      | None \<Rightarrow>
          (None,
           w\<lparr>files := (files w)
                (path := Inr \<lparr>info = \<lparr>mtime = clock e (writes w)\<rparr>, contents = Inr text\<rparr>),
             writes := Suc (writes w)\<rparr>))"

section \<open>The style sheet stage\<close>

record TransformResult =
  code :: jsstring
  sourceMap :: "jsstring option"

text \<open>The removal of the definitions put in front, lines 104 to 125.\<close>

definition removeDefinitions ::
  "jsstring \<Rightarrow> jsstring \<Rightarrow> jsstring \<Rightarrow> jsstring \<Rightarrow> jsstring \<times> log list" where
  "removeDefinitions filePath definitionsContent cleanedInput finalCode =
     (if definitionsContent \<noteq> [] \<and> prefix (trim definitionsContent) finalCode then
        (let definitionsMinifiedApproximation = firstLine definitionsContent
         in case indexOf finalCode definitionsMinifiedApproximation 0 of
              None \<Rightarrow> (finalCode, [])
            | Some defEndIndex \<Rightarrow>
                (case firstRuleMatch cleanedInput of
                   Some originalFirstRuleStart \<Rightarrow>
                     (case indexOf finalCode originalFirstRuleStart defEndIndex of
                        Some actualStartInMinified \<Rightarrow>
                          (drop actualStartInMinified finalCode, [])
                      | None \<Rightarrow> (finalCode, [WarnNotPreciselyRemoved filePath]))
                 | None \<Rightarrow> (finalCode, [WarnNoStartMarker filePath])))
      else (finalCode, []))"

definition loadDefinitions :: "env \<Rightarrow> fileSystem \<Rightarrow> jsstring \<times> log list" where
  "loadDefinitions e fsys =
     (let definitionsPath = join (cwd e) (str ''assets/css/definitions.css'')
      in case readTextFile fsys definitionsPath of
           Inr text \<Rightarrow> (if suffix [10] text then text else text @ [10], [])
         | Inl readError \<Rightarrow> ([], [ErrorDefinitionsRead definitionsPath]))"

definition stripImports :: "jsstring \<Rightarrow> jsstring" where
  "stripImports input = replaceAllBy matchImport [] input"

definition minifyCss ::
  "env \<Rightarrow> fileSystem \<Rightarrow> jsstring \<Rightarrow> jsstring \<Rightarrow> bool
     \<Rightarrow> (error + TransformResult) \<times> log list" where
  "minifyCss e fsys input filePath isRtl =
     (let (definitionsContent, logs) = loadDefinitions e fsys;
          cleanedInput = stripImports input;
          fullInput = definitionsContent @ cleanedInput
      in case transform e filePath fullInput of
           Inl err \<Rightarrow>
             (Inl err,
              logs @ [ErrorCssMinification filePath]
                @ (if unexpectedImportRule err then [ErrorImportHint] else []))
         | Inr (minified, smap) \<Rightarrow>
             (let (finalCode, warnings) =
                    removeDefinitions filePath definitionsContent cleanedInput minified
              in (Inr \<lparr>code = finalCode, sourceMap = smap\<rparr>, logs @ warnings)))"

section \<open>The right-to-left stage\<close>

definition rtlSubstitute :: "jsstring \<Rightarrow> jsstring" where
  "rtlSubstitute input =
     (let s1 = replaceAllBy (matchLiteral (str ''margin-left:'')) (str ''margin-inline-start:'') input;
          s2 = replaceAllBy (matchLiteral (str ''margin-right:'')) (str ''margin-inline-end:'') s1;
          s3 = replaceAllBy (matchLiteral (str ''padding-left:'')) (str ''padding-inline-start:'') s2;
          s4 = replaceAllBy (matchLiteral (str ''padding-right:'')) (str ''padding-inline-end:'') s3;
          s5 = replaceAllBy (matchLiteral (str ''border-left:'')) (str ''border-inline-start:'') s4;
          s6 = replaceAllBy (matchLiteral (str ''border-right:'')) (str ''border-inline-end:'') s5;
          s7 = replaceAllBy (matchLiteral (str ''left:'')) (str ''inset-inline-start:'') s6;
          s8 = replaceAllBy (matchLiteral (str ''right:'')) (str ''inset-inline-end:'') s7;
          s9 = replaceAllBy (matchTextAlign (str ''left'')) (str ''text-align: start'') s8
      in replaceAllBy (matchTextAlign (str ''right'')) (str ''text-align: end'') s9)"

definition rtlRules :: jsstring where
  "rtlRules =
     [10] @ str ''/* RTL-specific styles */'' @ [10]
     @ str ''[dir='' @ [34] @ str ''rtl'' @ [34] @ str ''] {'' @ [10]
     @ str ''    direction: rtl;'' @ [10]
     @ str ''}'' @ [10] @ [10]
     @ str ''[dir='' @ [34] @ str ''rtl'' @ [34] @ str ''] .transform-x {'' @ [10]
     @ str ''    transform: scaleX(-1);'' @ [10]
     @ str ''}'' @ [10] @ [10]"

definition generateRtlCss ::
  "env \<Rightarrow> fileSystem \<Rightarrow> jsstring \<Rightarrow> jsstring \<Rightarrow> (error + TransformResult) \<times> log list" where
  "generateRtlCss e fsys input filePath =
     (let rtlInput = rtlRules @ rtlSubstitute input
      in case minifyCss e fsys rtlInput filePath True of
           (Inl err, logs) \<Rightarrow> (Inl err, logs @ [ErrorRtlGeneration filePath])
         | (Inr res, logs) \<Rightarrow> (Inr res, logs))"

section \<open>The script stage\<close>

definition minifyJavaScript ::
  "env \<Rightarrow> jsstring \<Rightarrow> jsstring \<Rightarrow> (error + TransformResult) \<times> log list" where
  "minifyJavaScript e input filePath =
     (case minifyJs e input (name (parse filePath)) of
        Inl err \<Rightarrow> (Inl err, [ErrorJsMinification])
      | Inr (minified, smap) \<Rightarrow>
          (Inr \<lparr>code = (case minified of
                          None \<Rightarrow> input
                        | Some c \<Rightarrow> if c = [] then input else c),
                sourceMap = smap\<rparr>, []))"

section \<open>The file processor\<close>

text \<open>What a call of \<open>processFile\<close> resolves to: a boolean, or \<open>undefined\<close>.\<close>

datatype returned = Bool bool | Undefined

text \<open>\<open>if (result.map)\<close>: the map is there and is not the empty string.\<close>

definition hasMap :: "jsstring option \<Rightarrow> bool" where
  "hasMap smap = (case smap of None \<Rightarrow> False | Some m \<Rightarrow> m \<noteq> [])"

definition writeMap ::
  "env \<Rightarrow> world \<Rightarrow> jsstring \<Rightarrow> jsstring option \<Rightarrow> error option \<times> world" where
  "writeMap e w path smap =
     (case smap of
        None \<Rightarrow> (None, w)
      | Some m \<Rightarrow> if m = [] then (None, w) else writeTextFile e w path m)"

definition cssMapComment :: "jsstring \<Rightarrow> jsstring" where
  "cssMapComment mapFilePath =
     [10] @ str ''/*# sourceMappingURL='' @ base (parse mapFilePath) @ str '' */''"

definition jsMapComment :: "jsstring \<Rightarrow> jsstring" where
  "jsMapComment mapFilePath = [10] @ str ''//# sourceMappingURL='' @ base (parse mapFilePath)"

text \<open>
  Lines 331 to 355: the right-to-left variant inside its own \<open>try\<close>; whatever is thrown
  there is caught and logged.
\<close>

definition rtlStage :: "env \<Rightarrow> world \<Rightarrow> jsstring \<Rightarrow> jsstring \<Rightarrow> world" where
  "rtlStage e w input filePath =
     (case generateRtlCss e (files w) input filePath of
        (Inl rtlError, logs) \<Rightarrow> say (logs @ [ErrorRtlFailed filePath]) w
      | (Inr rtlResult, logs) \<Rightarrow>
          (let rtlOutputPath = getDestPath filePath True;
               rtlMapFilePath = rtlOutputPath @ str ''.map'';
               rtlSourceMapComment = cssMapComment rtlMapFilePath
           in case writeTextFile e (say logs w) rtlOutputPath
                     (code rtlResult @ rtlSourceMapComment) of
                (Some rtlError, w1) \<Rightarrow> say [ErrorRtlFailed filePath] w1
              | (None, w1) \<Rightarrow>
                  (case writeMap e w1 rtlMapFilePath (sourceMap rtlResult) of
                     (Some rtlError, w2) \<Rightarrow> say [ErrorRtlFailed filePath] w2
                   | (None, w2) \<Rightarrow>
                       say (InfoRtlGenerated filePath rtlOutputPath
                            # (if hasMap (sourceMap rtlResult)
                               then [InfoRtlMap rtlMapFilePath] else [])) w2)))"

text \<open>Lines 316 to 368: the style sheet branch.\<close>

definition processCss ::
  "env \<Rightarrow> world \<Rightarrow> jsstring \<Rightarrow> jsstring \<Rightarrow> (error + returned) \<times> world" where
  "processCss e w input filePath =
     (case minifyCss e (files w) input filePath False of
        (Inl err, logs) \<Rightarrow> (Inl err, say logs w)
      | (Inr ltrResult, logs) \<Rightarrow>
          (let ltrOutputPath = getDestPath filePath False;
               ltrMapFilePath = ltrOutputPath @ str ''.map'';
               ltrSourceMapComment = cssMapComment ltrMapFilePath
           in case writeTextFile e (say logs w) ltrOutputPath
                     (code ltrResult @ ltrSourceMapComment) of
                (Some err, w1) \<Rightarrow> (Inl err, w1)
              | (None, w1) \<Rightarrow>
                  (case writeMap e w1 ltrMapFilePath (sourceMap ltrResult) of
                     (Some err, w2) \<Rightarrow> (Inl err, w2)
                   | (None, w2) \<Rightarrow>
                       (let w3 = (if enabled RTL_CONFIG \<and> generateSeparateFiles RTL_CONFIG
                                  then rtlStage e w2 input filePath else w2)
                        in (Inr (Bool True),
                            say (InfoLtrGenerated filePath ltrOutputPath
                                 # (if hasMap (sourceMap ltrResult)
                                    then [InfoLtrMap ltrMapFilePath] else [])) w3)))))"

text \<open>Lines 369 to 388: the script branch.\<close>

definition processJs ::
  "env \<Rightarrow> world \<Rightarrow> jsstring \<Rightarrow> jsstring \<Rightarrow> jsstring \<Rightarrow> (error + returned) \<times> world" where
  "processJs e w input filePath outputPath =
     (case minifyJavaScript e input filePath of
        (Inl err, logs) \<Rightarrow> (Inl err, say logs w)
      | (Inr result, logs) \<Rightarrow>
          (let mapFilePath = outputPath @ str ''.map'';
               sourceMapComment = jsMapComment mapFilePath
           in case writeTextFile e (say logs w) outputPath (code result @ sourceMapComment) of
                (Some err, w1) \<Rightarrow> (Inl err, w1)
              | (None, w1) \<Rightarrow>
                  if hasMap (sourceMap result) then
                    (case writeMap e w1 mapFilePath (sourceMap result) of
                       (Some err, w2) \<Rightarrow> (Inl err, w2)
                     | (None, w2) \<Rightarrow>
                         (Inr (Bool True),
                          say [InfoJsMap mapFilePath, InfoJsGenerated filePath outputPath] w2))
                  else (Inr (Bool True), w1)))"

text \<open>Lines 298 to 391: the body of the \<open>try\<close>; \<open>Inl\<close> is what it throws.\<close>

definition tryBody :: "env \<Rightarrow> world \<Rightarrow> jsstring \<Rightarrow> (error + returned) \<times> world" where
  "tryBody e w filePath =
     (let extension = toLowerCase (extname filePath)
      in if extension \<noteq> CSS_EXT \<and> extension \<noteq> JS_EXT then (Inr Undefined, w)
         else
           (case readTextFile (files w) filePath of
              Inl err \<Rightarrow> (Inl err, w)
            | Inr input \<Rightarrow>
                (let outputPath = getDestPath filePath False
                 in case ensureDirFails e (dirname outputPath) of
                      Some err \<Rightarrow> (Inl err, w)
                    | None \<Rightarrow>
                        if extension = CSS_EXT then processCss e w input filePath
                        else processJs e w input filePath outputPath)))"

definition processFile :: "env \<Rightarrow> world \<Rightarrow> jsstring \<Rightarrow> bool \<Rightarrow> returned \<times> world" where
  "processFile e w filePath force =
     (if setHas (processingFiles w) filePath then (Bool False, w)
      else if includesStr (name (parse filePath)) (str ''.min'') then (Bool False, w)
      else
        (let (sourceIsNewer, logs) =
               (if \<not> force then isSourceNewer (stat (files w)) filePath else (True, []));
             w0 = say logs w
         in if \<not> sourceIsNewer then (Bool False, w0)
            else
              (let w1 = w0\<lparr>processingFiles := setAdd (processingFiles w0) filePath\<rparr>;
                   (outcome, w2) = tryBody e w1 filePath;
                   (result, w3) =
                     (case outcome of
                        Inr r \<Rightarrow> (r, w2)
                      | Inl err \<Rightarrow>
                          (Bool False,
                           if \<not> includesStr (rendering err) (str ''CSS minification'')
                              \<and> \<not> includesStr (rendering err) (str ''javascript minification'')
                           then say [ErrorProcessing filePath] w2 else w2))
               in (result, w3\<lparr>processingFiles := setDelete (processingFiles w3) filePath\<rparr>))))"

section \<open>The directory watcher\<close>

text \<open>
  \<open>startWatcher\<close> of \<open>main\<close>, for one directory: the key is registered with an empty
  set when it is not in the map yet, and only then a watcher is started.
\<close>

definition dirKeyOf :: "jsstring \<Rightarrow> jsstring \<Rightarrow> jsstring" where
  "dirKeyOf directory extension = directory @ str '':'' @ extension"

definition registerWatcher :: "world \<Rightarrow> jsstring \<Rightarrow> jsstring \<Rightarrow> bool \<times> world" where
  "registerWatcher w directory extension =
     (let dirKey = dirKeyOf directory extension
      in case watchedDirectories w dirKey of
           None \<Rightarrow> (True, w\<lparr>watchedDirectories := (watchedDirectories w)(dirKey \<mapsto> [])\<rparr>)
         | Some _ \<Rightarrow> (False, w))"

text \<open>
  Lines 467 to 496: what the watcher does with one path of a \<open>modify\<close> or \<open>create\<close>
  event. The first component is what the call of \<open>processFile\<close> returned, \<open>None\<close> when
  it was not called.
\<close>

definition handlePath ::
  "env \<Rightarrow> world \<Rightarrow> jsstring \<Rightarrow> jsstring \<Rightarrow> jsstring \<Rightarrow> returned option \<times> world" where
  "handlePath e w directory fileExtension path =
     (if suffix fileExtension path then
        (if includesStr (name (parse path)) (str ''.min'') then (None, w)
         else
           (let dirKey = dirKeyOf directory fileExtension;
                watchedFiles = watchedDirectories w dirKey
            in case watchedFiles of
                 Some members \<Rightarrow>
                   if setHas members path then (None, w)
                   else
                     (let w1 = w\<lparr>watchedDirectories :=
                                    (watchedDirectories w)(dirKey \<mapsto> setAdd members path),
                                  timers := timers w @ [(dirKey, path)]\<rparr>;
                          (r, w2) = processFile e w1 path True
                      in (Some r, w2))
               | None \<Rightarrow>
                   (let (r, w2) = processFile e w path True in (Some r, w2))))
      else (None, w))"

text \<open>
  Lines 464 to 498: one event of the watcher. Only the kinds \<open>modify\<close> and \<open>create\<close>
  are looked at; the paths of the event are handled one after the other.
\<close>

datatype eventKind = AnyKind | Access | Create | Modify | Remove | Other

fun handlePaths ::
  "env \<Rightarrow> world \<Rightarrow> jsstring \<Rightarrow> jsstring \<Rightarrow> jsstring list
     \<Rightarrow> returned option list \<times> world" where
  "handlePaths e w directory fileExtension [] = ([], w)"
| "handlePaths e w directory fileExtension (path # paths) =
     (let (r, w1) = handlePath e w directory fileExtension path;
          (rs, w2) = handlePaths e w1 directory fileExtension paths
      in (r # rs, w2))"

definition handleEvent ::
  "env \<Rightarrow> world \<Rightarrow> jsstring \<Rightarrow> jsstring \<Rightarrow> eventKind \<Rightarrow> jsstring list
     \<Rightarrow> returned option list \<times> world" where
  "handleEvent e w directory fileExtension kind paths =
     (if kind = Modify \<or> kind = Create
      then handlePaths e w directory fileExtension paths
      else ([], w))"

text \<open>A timer fires: the path leaves the set the timer was set for.\<close>

definition timerFires :: "world \<Rightarrow> jsstring \<times> jsstring \<Rightarrow> world" where
  "timerFires w t =
     (case t of (dirKey, path) \<Rightarrow>
        w\<lparr>watchedDirectories :=
             (case watchedDirectories w dirKey of
                None \<Rightarrow> watchedDirectories w
              | Some members \<Rightarrow> (watchedDirectories w)(dirKey \<mapsto> setDelete members path)),
          timers := remove1 t (timers w)\<rparr>)"

section \<open>A concrete environment\<close>

text \<open>
  An environment in which nothing throws: the minifiers give their input back without
  a source map, and the clock gives the write numbered \<open>n\<close> the time \<open>n + 100\<close>. The
  world before anything happened has no file.
\<close>

definition notFound :: error where
  "notFound = \<lparr>rendering = str ''NotFound'', unexpectedImportRule = False\<rparr>"

definition plainEnv :: env where
  "plainEnv =
     \<lparr>cwd = str ''/srv'',
      transform = (\<lambda>file text. Inr (text, None)),
      minifyJs = (\<lambda>text nm. Inr (Some text, None)),
      ensureDirFails = (\<lambda>d. None),
      writeFails = (\<lambda>n path. None),
      clock = (\<lambda>n. Some (int n + 100))\<rparr>"

definition emptyWorld :: world where
  "emptyWorld =
     \<lparr>processingFiles = [], watchedDirectories = Map.empty,
      files = (\<lambda>path. Inl notFound), writes = 0, timers = [], console = []\<rparr>"

text \<open>
  An environment in which the style sheet minifier throws for the right-to-left input
  (the text that holds the \<open>[dir=\<close> rules), and a world with one style sheet.
\<close>

definition syntaxError :: error where
  "syntaxError = \<lparr>rendering = str ''SyntaxError'', unexpectedImportRule = False\<rparr>"

definition rtlFailingEnv :: env where
  "rtlFailingEnv =
     plainEnv\<lparr>transform :=
       (\<lambda>file text. if includesStr text (str ''[dir='') then Inl syntaxError
                    else Inr (text, None))\<rparr>"

definition styleWorld :: world where
  "styleWorld =
     emptyWorld\<lparr>files :=
       (\<lambda>path. if path = str ''a.css''
              then Inr \<lparr>info = \<lparr>mtime = Some 5\<rparr>, contents = Inr (str ''.a{left:0}'')\<rparr>
              else Inl notFound)\<rparr>"

text \<open>
  An environment whose style sheet minifier only deletes spaces and line feeds, and a
  world whose only file is the definitions file with a given text.
\<close>

definition squeezingEnv :: env where
  "squeezingEnv =
     plainEnv\<lparr>transform := (\<lambda>file text. Inr (filter (\<lambda>c. c \<noteq> 32 \<and> c \<noteq> 10) text, None))\<rparr>"

definition definitionsWorld :: "jsstring \<Rightarrow> world" where
  "definitionsWorld text =
     emptyWorld\<lparr>files :=
       (\<lambda>path. if path = str ''/srv/assets/css/definitions.css''
              then Inr \<lparr>info = \<lparr>mtime = Some 1\<rparr>, contents = Inr text\<rparr>
              else Inl notFound)\<rparr>"

section \<open>The import statements the style sheet stage strips\<close>



section \<open>Physical properties in a text\<close>

text \<open>
  The six properties that the right-to-left stage replaces with their prefix, and when
  an occurrence of \<open>left:\<close> or \<open>right:\<close> stands alone: the text in front of it does not
  end with one of the three prefixes.
\<close>

definition prefixedProperties :: "(jsstring \<times> jsstring) list" where
  "prefixedProperties =
     [(str ''margin-left:'', str ''margin-inline-start:''),
      (str ''margin-right:'', str ''margin-inline-end:''),
      (str ''padding-left:'', str ''padding-inline-start:''),
      (str ''padding-right:'', str ''padding-inline-end:''),
      (str ''border-left:'', str ''border-inline-start:''),
      (str ''border-right:'', str ''border-inline-end:'')]"

definition standalone :: "jsstring \<Rightarrow> bool" where
  "standalone front =
     (\<not> suffix (str ''margin-'') front \<and> \<not> suffix (str ''padding-'') front
      \<and> \<not> suffix (str ''border-'') front)"

text \<open>
  Where a literal could match across the start of a block of text: the positions \<open>j\<close>
  of the literal from which on it agrees with the start of the block; and whether the
  literal could match from a position inside the block.
\<close>

definition straddlePoints :: "jsstring \<Rightarrow> jsstring \<Rightarrow> nat list" where
  "straddlePoints P B =
     filter (\<lambda>j. prefix (drop j P) B \<or> prefix B (drop j P)) [1..<length P]"

definition startsInside :: "jsstring \<Rightarrow> jsstring \<Rightarrow> bool" where
  "startsInside P B =
     list_ex (\<lambda>i. prefix P (drop i B) \<or> prefix (drop i B) P) [0..<length B]"

section \<open>The shape of a destination path\<close>

text \<open>
  The file name of a destination, and the text \<open>join\<close> puts in front of it: the
  normalized directory of the source with a separator behind it, or nothing.
\<close>

definition destDirPrefix :: "jsstring \<Rightarrow> jsstring" where
  "destDirPrefix d =
     (if d = [] then []
      else
        (let stack = foldl (pushSegment (\<not> isPosixPathSeparator (hd d))) [] (splitSep d)
         in (if isPosixPathSeparator (hd d) then str ''/'' else [])
            @ (if stack = [] then [] else joinSegments (rev stack) @ str ''/'')))"

definition destFileName :: "jsstring \<Rightarrow> bool \<Rightarrow> jsstring" where
  "destFileName filePath isRtl =
     name (parse filePath) @ (if isRtl then str ''.rtl'' else []) @ str ''.min''
       @ ext (parse filePath)"

section \<open>The console lines of a call\<close>

text \<open>
  The console only grows; the lines written between a state and a later one are what
  the later console holds behind the earlier one.
\<close>

definition said :: "world \<Rightarrow> world \<Rightarrow> log list" where
  "said w w1 = drop (length (console w)) (console w1)"

section \<open>What the stages leave untouched\<close>

lemmas path_defs =
  parse_def extname_def dirname_def str_def isPosixPathSeparator_def trimSeparators_def
  lastPart_def beforeLastPart_def splitExt_def CHAR_DOT_def stripTrailingSeparators_def

lemma say_fields [simp]:
  "processingFiles (say ls w) = processingFiles w"
  "watchedDirectories (say ls w) = watchedDirectories w"
  "timers (say ls w) = timers w"
  "files (say ls w) = files w"
  "writes (say ls w) = writes w"
  by (simp_all add: say_def)

lemma writeTextFile_fields [simp]:
  "processingFiles (snd (writeTextFile e w path text)) = processingFiles w"
  "watchedDirectories (snd (writeTextFile e w path text)) = watchedDirectories w"
  "timers (snd (writeTextFile e w path text)) = timers w"
  by (simp_all add: writeTextFile_def split: option.splits)

lemma writeMap_fields [simp]:
  "processingFiles (snd (writeMap e w path smap)) = processingFiles w"
  "watchedDirectories (snd (writeMap e w path smap)) = watchedDirectories w"
  "timers (snd (writeMap e w path smap)) = timers w"
  by (simp_all add: writeMap_def split: option.splits)

lemma snd_eqD: "f = (a, b) \<Longrightarrow> b = snd f"
  by simp

lemma rtlStage_fields [simp]:
  "processingFiles (rtlStage e w input filePath) = processingFiles w"
  "watchedDirectories (rtlStage e w input filePath) = watchedDirectories w"
  "timers (rtlStage e w input filePath) = timers w"
  by (auto simp: rtlStage_def Let_def split: prod.splits sum.splits option.splits
        dest!: snd_eqD)

lemma processCss_fields [simp]:
  "processingFiles (snd (processCss e w input filePath)) = processingFiles w"
  "watchedDirectories (snd (processCss e w input filePath)) = watchedDirectories w"
  "timers (snd (processCss e w input filePath)) = timers w"
  by (auto simp: processCss_def Let_def split: prod.splits sum.splits option.splits
        dest!: snd_eqD)

lemma processJs_fields [simp]:
  "processingFiles (snd (processJs e w input filePath out)) = processingFiles w"
  "watchedDirectories (snd (processJs e w input filePath out)) = watchedDirectories w"
  "timers (snd (processJs e w input filePath out)) = timers w"
  by (auto simp: processJs_def Let_def split: prod.splits sum.splits option.splits
        dest!: snd_eqD)

lemma tryBody_fields [simp]:
  "processingFiles (snd (tryBody e w filePath)) = processingFiles w"
  "watchedDirectories (snd (tryBody e w filePath)) = watchedDirectories w"
  "timers (snd (tryBody e w filePath)) = timers w"
  by (auto simp: tryBody_def Let_def split: prod.splits sum.splits option.splits)

lemma setDelete_setAdd: "x \<notin> set s \<Longrightarrow> setDelete (setAdd s x) x = s"
  by (auto simp: setDelete_def setAdd_def filter_id_conv)

lemma processFile_processingFiles:
  "processingFiles (snd (processFile e w p force)) = processingFiles w"
  by (auto simp: processFile_def Let_def setHas_def setDelete_setAdd
        split: prod.splits sum.splits dest!: snd_eqD)

lemma processFile_watched [simp]:
  "watchedDirectories (snd (processFile e w p force)) = watchedDirectories w"
  "timers (snd (processFile e w p force)) = timers w"
  by (auto simp: processFile_def Let_def split: prod.splits sum.splits dest!: snd_eqD)

section \<open>Lemmas on destination paths\<close>

lemma splitSep_not_Nil [simp]: "splitSep s \<noteq> []"
  by (induction s) (auto split: list.splits)

lemma splitSep_plain: "47 \<notin> set f \<Longrightarrow> splitSep f = [f]"
  by (induction f) (auto simp: isPosixPathSeparator_def)

lemma splitSep_append: "splitSep (d @ 47 # f) = splitSep d @ splitSep f"
  by (induction d) (auto simp: isPosixPathSeparator_def split: list.splits)

lemma joinSegments_snoc:
  "joinSegments (xs @ [f]) = (if xs = [] then f else joinSegments xs @ str ''/'' @ f)"
  by (induction xs rule: joinSegments.induct) auto

lemma lastPart_noSep: "47 \<notin> set (lastPart s)"
  by (auto simp: lastPart_def isPosixPathSeparator_def dest: set_takeWhileD)

lemma splitExt_noSep:
  "47 \<notin> set b \<Longrightarrow> 47 \<notin> set (fst (splitExt k b)) \<and> 47 \<notin> set (snd (splitExt k b))"
  by (auto simp: splitExt_def Let_def dest: in_set_takeD in_set_dropD)

lemma parse_noSep: "47 \<notin> set (name (parse p))" "47 \<notin> set (ext (parse p))"
  by (simp_all add: parse_def Let_def splitExt_noSep lastPart_noSep)

lemma destFileName_noSep: "47 \<notin> set (destFileName p r)"
  by (simp add: destFileName_def parse_noSep str_def)

lemma destFileName_min: "\<exists>a b. destFileName p r = a @ str ''.min'' @ b"
  unfolding destFileName_def by (metis append.assoc)

lemma destFileName_plain:
  "destFileName p r \<noteq> []" "destFileName p r \<noteq> str ''.''" "destFileName p r \<noteq> str ''..''"
proof -
  have "4 \<le> length (destFileName p r)"
    by (simp add: destFileName_def str_def)
  then show "destFileName p r \<noteq> []" "destFileName p r \<noteq> str ''.''"
    "destFileName p r \<noteq> str ''..''"
    by (auto simp: str_def)
qed

lemma pushSegment_plain:
  "f \<noteq> [] \<Longrightarrow> f \<noteq> str ''.'' \<Longrightarrow> f \<noteq> str ''..'' \<Longrightarrow> pushSegment a stack f = f # stack"
  by (simp add: pushSegment_def)

lemma plain_ends:
  assumes "47 \<notin> set (f::jsstring)" "f \<noteq> []"
  shows "hd f \<noteq> 47" "last f \<noteq> 47"
  using assms by (metis hd_in_set, metis last_in_set)

lemma normalize_plain:
  assumes "47 \<notin> set f" "f \<noteq> []" "f \<noteq> str ''.''" "f \<noteq> str ''..''"
  shows "normalize f = f"
proof -
  note h = plain_ends [OF assms(1,2)]
  have n: "normalizeString f True = f"
    using assms by (simp add: normalizeString_def splitSep_plain pushSegment_plain)
  show ?thesis
    using assms(2) h n by (simp add: normalize_def isPosixPathSeparator_def Let_def)
qed

lemma join_plain:
  assumes "47 \<notin> set f" "f \<noteq> []" "f \<noteq> str ''.''" "f \<noteq> str ''..''"
  shows "join d f = destDirPrefix d @ f"
proof (cases "d = []")
  case True
  with assms show ?thesis
    by (simp add: join_def destDirPrefix_def normalize_plain)
next
  case False
  note h = plain_ends [OF assms(1,2)]
  have s: "splitSep (d @ str ''/'' @ f) = splitSep d @ [f]"
    using assms by (simp add: str_def splitSep_append splitSep_plain)
  have n: "normalizeString (d @ str ''/'' @ f) a
             = joinSegments (rev (foldl (pushSegment a) [] (splitSep d)) @ [f])" for a
    using assms by (simp add: normalizeString_def s pushSegment_plain)
  have ne: "joinSegments (xs @ [f]) \<noteq> []" for xs
    using assms(2) by (simp add: joinSegments_snoc)
  show ?thesis
    using False assms(2) h
    by (simp add: join_def destDirPrefix_def normalize_def n ne isPosixPathSeparator_def
          Let_def joinSegments_snoc)
qed

lemma getDestPath_eq: "getDestPath p r = destDirPrefix (dir (parse p)) @ destFileName p r"
proof -
  have "getDestPath p r = join (dir (parse p)) (destFileName p r)"
    by (simp add: getDestPath_def destFileName_def RTL_CONFIG_def Let_def)
  then show ?thesis
    by (simp add: join_plain destFileName_noSep destFileName_plain)
qed


lemma destFileName_distinct:
  "destFileName p True \<noteq> destFileName p False"
  "destFileName p True \<noteq> destFileName p False @ str ''.map''"
  "destFileName p True @ str ''.map'' \<noteq> destFileName p False"
  "destFileName p True @ str ''.map'' \<noteq> destFileName p False @ str ''.map''"
  by (simp_all add: destFileName_def str_def)

lemma getDestPath_distinct:
  "getDestPath p True \<noteq> getDestPath p False"
  "getDestPath p True \<noteq> getDestPath p False @ str ''.map''"
  "getDestPath p True @ str ''.map'' \<noteq> getDestPath p False"
  "getDestPath p True @ str ''.map'' \<noteq> getDestPath p False @ str ''.map''"
  using destFileName_distinct [of p] by (simp_all add: getDestPath_eq)

lemma trimSeparators_Cons:
  "c \<noteq> 47 \<Longrightarrow> trimSeparators (c # t) = c # trimSeparators t"
  by (simp add: trimSeparators_def isPosixPathSeparator_def dropWhile_append3)

lemma lastPart_length: "length (lastPart s) \<le> length s"
  by (simp add: lastPart_def) (metis length_rev length_takeWhile_le)

lemma lastPart_Cons:
  "lastPart (c # t) = (if 47 \<in> set t then lastPart t else if c = 47 then t else c # t)"
proof (cases "47 \<in> set t")
  case True
  then have "47 \<in> set (rev t) \<and> \<not> (\<lambda>c. \<not> isPosixPathSeparator c) 47"
    by (simp add: isPosixPathSeparator_def)
  then show ?thesis
    using True by (simp add: lastPart_def takeWhile_append1)
next
  case False
  then have "\<And>x. x \<in> set (rev t) \<Longrightarrow> \<not> isPosixPathSeparator x"
    by (auto simp: isPosixPathSeparator_def)
  then have "takeWhile (\<lambda>c. \<not> isPosixPathSeparator c) (rev t @ [c])
               = rev t @ takeWhile (\<lambda>c. \<not> isPosixPathSeparator c) [c]"
    by (rule takeWhile_append2)
  then show ?thesis
    using False by (simp add: lastPart_def isPosixPathSeparator_def)
qed

lemma beforeLastPart_Cons:
  "c \<noteq> 47 \<Longrightarrow>
   beforeLastPart (c # t) = (if 47 \<in> set t then c # beforeLastPart t else [])"
  using lastPart_length [of t]
  by (simp add: beforeLastPart_def lastPart_Cons Suc_diff_le)

lemma beforeLastPart_Nil_iff: "beforeLastPart t = [] \<longleftrightarrow> 47 \<notin> set t"
proof (induction t)
  case Nil
  show ?case by (simp add: beforeLastPart_def)
next
  case (Cons c t)
  show ?case
  proof (cases "c = 47")
    case True
    have "length (lastPart (c # t)) \<le> length t"
      using lastPart_length [of t] by (simp add: lastPart_Cons True)
    then show ?thesis
      using True by (simp add: beforeLastPart_def Suc_diff_le)
  next
    case False
    then show ?thesis
      using Cons by (simp add: beforeLastPart_Cons)
  qed
qed

lemma trimSeparators_set: "set (trimSeparators t) \<subseteq> set t"
  by (auto simp: trimSeparators_def dest: set_dropWhileD)

lemma stripTrailingSeparators_Nil_iff [simp]: "stripTrailingSeparators s = [] \<longleftrightarrow> s = []"
  by (auto simp: stripTrailingSeparators_def)

lemma dirname_parse:
  "dirname p = (if dir (parse p) = [] then str ''.'' else dir (parse p))"
proof (cases p)
  case Nil
  then show ?thesis by (simp add: dirname_def parse_def)
next
  case (Cons c t)
  show ?thesis
  proof (cases "c = 47")
    case True
    with Cons show ?thesis
      by (simp add: dirname_def parse_def Let_def isPosixPathSeparator_def str_def)
  next
    case False
    from False Cons show ?thesis
      by (simp add: dirname_def parse_def Let_def isPosixPathSeparator_def
            trimSeparators_Cons beforeLastPart_Cons beforeLastPart_Nil_iff)
  qed
qed

lemma splitSep_noSep: "s \<in> set (splitSep p) \<Longrightarrow> 47 \<notin> set s"
proof (induction p arbitrary: s)
  case Nil
  then show ?case by simp
next
  case (Cons c p)
  then show ?case
    by (cases "splitSep p") (auto simp: isPosixPathSeparator_def split: if_splits)
qed

lemma pushSegment_good:
  "\<forall>s\<in>set stack. s \<noteq> [] \<and> 47 \<notin> set s \<Longrightarrow> 47 \<notin> set seg \<Longrightarrow>
   \<forall>s\<in>set (pushSegment a stack seg). s \<noteq> [] \<and> 47 \<notin> set s"
  by (auto simp: pushSegment_def split: list.splits if_splits)

lemma foldl_pushSegment_good:
  "\<forall>s\<in>set stack. s \<noteq> [] \<and> 47 \<notin> set s \<Longrightarrow> \<forall>x\<in>set xs. 47 \<notin> set x \<Longrightarrow>
   \<forall>s\<in>set (foldl (pushSegment a) stack xs). s \<noteq> [] \<and> 47 \<notin> set s"
proof (induction xs arbitrary: stack)
  case Nil
  then show ?case by simp
next
  case (Cons x xs)
  have g: "\<forall>s\<in>set (pushSegment a stack x). s \<noteq> [] \<and> 47 \<notin> set s"
    using Cons.prems by (intro pushSegment_good) auto
  have r: "\<forall>x\<in>set xs. 47 \<notin> set x"
    using Cons.prems(2) by simp
  from Cons.IH [OF g r] show ?case by simp
qed

lemma stack_good:
  "\<forall>s\<in>set (foldl (pushSegment a) [] (splitSep d)). s \<noteq> [] \<and> 47 \<notin> set s"
  by (rule foldl_pushSegment_good) (auto dest: splitSep_noSep)

lemma joinSegments_last:
  "xs \<noteq> [] \<Longrightarrow> \<forall>s\<in>set xs. s \<noteq> [] \<and> 47 \<notin> set s \<Longrightarrow>
   joinSegments xs \<noteq> [] \<and> last (joinSegments xs) \<noteq> 47"
proof (induction xs rule: joinSegments.induct)
  case 1
  then show ?case by simp
next
  case (2 s)
  then have "s \<noteq> []" "47 \<notin> set s" by simp_all
  then show ?case using plain_ends(2) [of s] by simp
next
  case (3 s t ss)
  from "3.prems" have "\<forall>s\<in>set (t # ss). s \<noteq> [] \<and> 47 \<notin> set s" by simp
  with "3.IH" have "joinSegments (t # ss) \<noteq> [] \<and> last (joinSegments (t # ss)) \<noteq> 47"
    by blast
  then show ?case by simp
qed

lemma trimSeparators_id: "s = [] \<or> last s \<noteq> 47 \<Longrightarrow> trimSeparators s = s"
  by (cases s rule: rev_cases) (auto simp: trimSeparators_def isPosixPathSeparator_def)

lemma lastPart_append: "47 \<notin> set f \<Longrightarrow> lastPart (ys @ 47 # f) = f"
proof -
  assume "47 \<notin> set f"
  then have "\<And>x. x \<in> set (rev f) \<Longrightarrow> \<not> isPosixPathSeparator x"
    by (auto simp: isPosixPathSeparator_def)
  then have "takeWhile (\<lambda>c. \<not> isPosixPathSeparator c) (rev f @ 47 # rev ys)
               = rev f @ takeWhile (\<lambda>c. \<not> isPosixPathSeparator c) (47 # rev ys)"
    by (rule takeWhile_append2)
  then show ?thesis
    by (simp add: lastPart_def isPosixPathSeparator_def)
qed

lemma stripTrailingSeparators_id:
  "last s \<noteq> 47 \<Longrightarrow> stripTrailingSeparators s = s"
proof (cases s)
  case Nil
  then show ?thesis by (simp add: stripTrailingSeparators_def)
next
  case (Cons c t)
  assume "last s \<noteq> 47"
  with Cons have "t = [] \<or> last t \<noteq> 47" by auto
  then have "trimSeparators t = t" by (rule trimSeparators_id)
  with Cons show ?thesis
    by (simp add: stripTrailingSeparators_def trimSeparators_def)
qed

lemma dirname_append:
  assumes "f \<noteq> []" "47 \<notin> set f"
  shows "dirname (ys @ 47 # f) = (if ys = [] then str ''/'' else stripTrailingSeparators ys)"
proof -
  have l: "last f \<noteq> 47" using assms plain_ends(2) [of f] by simp
  show ?thesis
  proof (cases ys)
    case Nil
    have "trimSeparators f = f" using l by (simp add: trimSeparators_id)
    moreover have "beforeLastPart f = []" using assms by (simp add: beforeLastPart_Nil_iff)
    ultimately show ?thesis
      using Nil by (simp add: dirname_def isPosixPathSeparator_def)
  next
    case (Cons y t)
    have "last (t @ 47 # f) \<noteq> 47" using l assms by simp
    then have tr: "trimSeparators (t @ 47 # f) = t @ 47 # f" by (simp add: trimSeparators_id)
    have bl: "beforeLastPart (t @ 47 # f) = t @ [47]"
      using assms by (simp add: beforeLastPart_def lastPart_append)
    show ?thesis
      using Cons by (simp add: dirname_def tr bl)
  qed
qed

lemma stripTrailingSeparators_shape:
  "last (stripTrailingSeparators s) \<noteq> 47 \<or> length (stripTrailingSeparators s) \<le> 1"
proof (cases "length s \<le> 1")
  case True
  then show ?thesis by (simp add: stripTrailingSeparators_def)
next
  case False
  show ?thesis
  proof (cases "dropWhile isPosixPathSeparator (rev (tl s)) = []")
    case True
    with False show ?thesis by (simp add: stripTrailingSeparators_def)
  next
    case n: False
    then have "\<not> isPosixPathSeparator (hd (dropWhile isPosixPathSeparator (rev (tl s))))"
      by (rule hd_dropWhile)
    with n False show ?thesis
      by (simp add: stripTrailingSeparators_def isPosixPathSeparator_def last_rev)
  qed
qed

lemma dir_shape:
  "dir (parse p) = [] \<or> dir (parse p) = [47] \<or> last (dir (parse p)) \<noteq> 47"
proof -
  have one: "d \<noteq> [] \<Longrightarrow> length d \<le> 1 \<Longrightarrow> d = [47] \<or> last d \<noteq> 47" for d :: jsstring
    by (cases d) auto
  have "s \<noteq> [] \<Longrightarrow> stripTrailingSeparators s = [47] \<or> last (stripTrailingSeparators s) \<noteq> 47"
    for s
    using stripTrailingSeparators_shape [of s] one [of "stripTrailingSeparators s"] by auto
  then show ?thesis
    by (auto simp: parse_def Let_def str_def)
qed

lemma normalize_dir:
  assumes "d \<noteq> []" "d = [47] \<or> last d \<noteq> 47"
  shows "normalize d =
     (if foldl (pushSegment (\<not> isPosixPathSeparator (hd d))) [] (splitSep d) = []
      then (if isPosixPathSeparator (hd d) then str ''/'' else str ''.'')
      else (if isPosixPathSeparator (hd d) then str ''/'' else [])
           @ joinSegments (rev (foldl (pushSegment (\<not> isPosixPathSeparator (hd d))) []
                                  (splitSep d))))"
proof (cases "d = [47]")
  case True
  then show ?thesis
    by (simp add: normalize_def normalizeString_def pushSegment_def isPosixPathSeparator_def
          str_def Let_def)
next
  case False
  with assms have l: "last d \<noteq> 47" by simp
  let ?stack = "foldl (pushSegment (\<not> isPosixPathSeparator (hd d))) [] (splitSep d)"
  have j: "?stack \<noteq> [] \<Longrightarrow> joinSegments (rev ?stack) \<noteq> []"
    using joinSegments_last [of "rev ?stack"] stack_good [of "\<not> isPosixPathSeparator (hd d)" d]
    by simp
  show ?thesis
  proof (cases "isPosixPathSeparator (hd d)")
    case True
    with assms(1) l j show ?thesis
      by (simp add: normalize_def normalizeString_def Let_def str_def
            isPosixPathSeparator_def [of "last d"])
  next
    case False
    with assms(1) l j show ?thesis
      by (simp add: normalize_def normalizeString_def Let_def str_def
            isPosixPathSeparator_def [of "last d"])
  qed
qed

lemma dirname_plain:
  assumes "f \<noteq> []" "47 \<notin> set f"
  shows "dirname f = str ''.''"
proof -
  have "47 \<notin> set (trimSeparators (tl f))"
    using assms trimSeparators_set [of "tl f"] by (cases f) auto
  then have "beforeLastPart (trimSeparators (tl f)) = []"
    by (simp add: beforeLastPart_Nil_iff)
  then show ?thesis
    using assms plain_ends(1) [of f] by (simp add: dirname_def isPosixPathSeparator_def)
qed

lemma dirname_getDestPath: "dirname (getDestPath p r) = normalize (dirname p)"
proof -
  let ?d = "dir (parse p)" and ?f = "destFileName p r"
  let ?stack = "foldl (pushSegment (\<not> isPosixPathSeparator (hd ?d))) [] (splitSep ?d)"
  have f: "?f \<noteq> []" "47 \<notin> set ?f"
    by (simp_all add: destFileName_plain destFileName_noSep)
  show ?thesis
  proof (cases "?d = []")
    case True
    have "normalize (str ''.'') = str ''.''"
      by (simp add: normalize_def normalizeString_def pushSegment_def isPosixPathSeparator_def
            str_def Let_def)
    moreover have "dirname p = str ''.''"
      using True by (simp add: dirname_parse)
    moreover have "dirname (getDestPath p r) = str ''.''"
      using True f by (simp add: getDestPath_eq destDirPrefix_def dirname_plain)
    ultimately show ?thesis by simp
  next
    case False
    have n: "normalize (dirname p) = normalize ?d"
      using False by (simp add: dirname_parse)
    have shape: "?d = [47] \<or> last ?d \<noteq> 47"
      using dir_shape [of p] False by simp
    show ?thesis
    proof (cases "?stack = []")
      case True
      show ?thesis
      proof (cases "isPosixPathSeparator (hd ?d)")
        case a: True
        have "dirname ([] @ 47 # ?f) = str ''/''"
          using f by (subst dirname_append) simp_all
        with False True a show ?thesis
          by (simp add: n normalize_dir [OF False shape] getDestPath_eq destDirPrefix_def
                str_def)
      next
        case a: False
        with False True f show ?thesis
          by (simp add: n normalize_dir [OF False shape] getDestPath_eq destDirPrefix_def
                dirname_plain)
      qed
    next
      case s: False
      define y where
        "y = (if isPosixPathSeparator (hd ?d) then str ''/'' else []) @ joinSegments (rev ?stack)"
      have j: "joinSegments (rev ?stack) \<noteq> []" "last (joinSegments (rev ?stack)) \<noteq> 47"
        using joinSegments_last [of "rev ?stack"] s
          stack_good [of "\<not> isPosixPathSeparator (hd ?d)" ?d]
        by simp_all
      then have y: "y \<noteq> []" "last y \<noteq> 47" by (simp_all add: y_def)
      have "dirname (y @ 47 # ?f) = stripTrailingSeparators y"
        using dirname_append [OF f, of y] y(1) by simp
      also have "\<dots> = y"
        using y(2) by (rule stripTrailingSeparators_id)
      finally have d: "dirname (y @ 47 # ?f) = y" .
      have g: "getDestPath p r = y @ 47 # ?f"
        using False s by (simp add: getDestPath_eq destDirPrefix_def str_def y_def)
      have "normalize ?d = y"
        using s by (simp add: normalize_dir [OF False shape] y_def)
      then show ?thesis
        by (simp add: n g d)
    qed
  qed
qed

lemma lastPart_plain: "47 \<notin> set f \<Longrightarrow> lastPart f = f"
proof -
  assume "47 \<notin> set f"
  then have "takeWhile (\<lambda>c. \<not> isPosixPathSeparator c) (rev f) = rev f"
    by (auto simp: takeWhile_eq_all_conv isPosixPathSeparator_def)
  then show ?thesis
    unfolding lastPart_def by (simp only: rev_rev_ident)
qed

lemma base_parse_append:
  assumes "f \<noteq> []" "47 \<notin> set f" "x = [] \<or> last x = 47"
  shows "base (parse (x @ f)) = f"
proof (cases x rule: rev_cases)
  case Nil
  have "trimSeparators f = f"
    using assms plain_ends(2) [of f] by (simp add: trimSeparators_id)
  then show ?thesis
    using Nil assms plain_ends(1) [of f]
    by (simp add: parse_def Let_def isPosixPathSeparator_def lastPart_plain)
next
  case (snoc ys c)
  with assms have c: "c = 47" by simp
  have l: "last f \<noteq> 47" using assms plain_ends(2) [of f] by simp
  have t: "trimSeparators (zs @ 47 # f) = zs @ 47 # f" for zs
    using l assms(1) by (simp add: trimSeparators_id)
  have t': "trimSeparators f = f"
    using l by (simp add: trimSeparators_id)
  show ?thesis
  proof (cases ys)
    case Nil
    with snoc c assms show ?thesis
      by (simp add: parse_def Let_def isPosixPathSeparator_def t' lastPart_plain)
  next
    case (Cons y t0)
    have "lastPart (y # t0 @ 47 # f) = f"
      using lastPart_append [of f "y # t0"] assms by simp
    with Cons snoc c assms t [of t0] t [of "y # t0"] show ?thesis
      by (simp add: parse_def Let_def lastPart_append)
  qed
qed

lemma destDirPrefix_shape: "destDirPrefix d = [] \<or> last (destDirPrefix d) = 47"
  by (simp add: destDirPrefix_def Let_def str_def)

lemma base_parse: 
  "base (parse p) = (if p \<noteq> [] \<and> name (parse p) @ ext (parse p) = [] then str ''/''
                    else name (parse p) @ ext (parse p))"
  by (simp add: parse_def Let_def splitExt_def)

text \<open>
  No destination and no source map is the source itself: the file name of a destination
  is longer than that of the source, and a source map has the extension \<open>.map\<close>.
\<close>

lemma destFileName_not_Nil: "destFileName p r \<noteq> []"
  by (simp add: destFileName_def str_def)

lemma getDestPath_not_source: "getDestPath p r \<noteq> p"
proof
  assume e: "getDestPath p r = p"
  have "base (parse (destDirPrefix (dir (parse p)) @ destFileName p r)) = destFileName p r"
    using destFileName_not_Nil destFileName_noSep destDirPrefix_shape
    by (rule base_parse_append)
  with e have "base (parse p) = destFileName p r"
    by (simp add: getDestPath_eq)
  then have "length (base (parse p)) = length (destFileName p r)"
    by simp
  then show False
    using base_parse [of p] by (simp add: destFileName_def str_def split: if_splits)
qed

lemma splitExt_map:
  "f \<noteq> [] \<Longrightarrow> splitExt False (f @ str ''.map'') = (f, str ''.map'')"
  by (simp add: splitExt_def str_def CHAR_DOT_def Let_def)

lemma extname_map: "extname (getDestPath p r @ str ''.map'') = str ''.map''"
proof -
  let ?x = "destDirPrefix (dir (parse p))" and ?f = "destFileName p r"
  let ?g = "?f @ str ''.map''"
  have n: "47 \<notin> set ?g" "?g \<noteq> []"
    using destFileName_noSep [of p r] by (simp_all add: str_def)
  have l: "last (?x @ ?g) \<noteq> 47"
    by (simp add: str_def)
  have t: "trimSeparators (?x @ ?g) = ?x @ ?g"
    using l by (simp add: trimSeparators_id)
  have "lastPart (?x @ ?g) = ?g"
  proof (cases ?x rule: rev_cases)
    case Nil
    with n show ?thesis by (simp add: lastPart_plain)
  next
    case (snoc ys c)
    with destDirPrefix_shape [of "dir (parse p)"] have "c = 47" by simp
    with snoc n(1) lastPart_append [of ?g ys] show ?thesis by simp
  qed
  with t show ?thesis
    using splitExt_map [OF destFileName_not_Nil, of p r]
    by (simp add: extname_def getDestPath_eq)
qed

lemma map_not_source:
  "toLowerCase (extname p) = CSS_EXT \<or> toLowerCase (extname p) = JS_EXT \<Longrightarrow>
   getDestPath p r @ str ''.map'' \<noteq> p"
proof
  assume a: "toLowerCase (extname p) = CSS_EXT \<or> toLowerCase (extname p) = JS_EXT"
    and e: "getDestPath p r @ str ''.map'' = p"
  from e extname_map [of p r] have "extname p = str ''.map''" by simp
  with a show False
    by (simp add: toLowerCase_def CSS_EXT_def JS_EXT_def str_def)
qed

lemma map_suffix [simp]: "str ''.map'' \<noteq> []" "x @ str ''.map'' \<noteq> x"
  by (simp_all add: str_def)

section \<open>Runs of the file processor\<close>

lemma writeTextFile_files:
  "q \<noteq> path \<Longrightarrow> files (snd (writeTextFile e w path text)) q = files w q"
  by (simp add: writeTextFile_def split: option.splits)

lemma writeMap_files:
  "q \<noteq> path \<Longrightarrow> files (snd (writeMap e w path smap)) q = files w q"
  by (simp add: writeMap_def writeTextFile_files split: option.splits)

lemma rtlStage_files:
  "q \<noteq> getDestPath p True \<Longrightarrow> q \<noteq> getDestPath p True @ str ''.map'' \<Longrightarrow>
   files (rtlStage e w input p) q = files w q"
  by (auto simp: rtlStage_def Let_def writeTextFile_files writeMap_files
        split: prod.splits sum.splits option.splits dest!: snd_eqD)

lemma isSourceNewer_is_isStale: "fst (isSourceNewer st p) = isStale st p"
  by (auto simp: isSourceNewer_def isStale_def missing_def timeAt_def rtlRelevant_def
        RTL_CONFIG_def Let_def split: sum.splits)

lemma say_Nil [simp]: "say [] w = w"
  by (simp add: say_def)

lemma processFile_run:
  assumes "\<not> setHas (processingFiles w) p"
    and "\<not> includesStr (name (parse p)) (str ''.min'')"
    and "(if \<not> force then isSourceNewer (stat (files w)) p else (True, [])) = (True, logs0)"
    and "tryBody e ((say logs0 w)\<lparr>processingFiles := setAdd (processingFiles w) p\<rparr>) p
           = (Inr r, w2)"
  shows "processFile e w p force = (r, w2\<lparr>processingFiles := setDelete (processingFiles w2) p\<rparr>)"
  using assms by (simp add: processFile_def Let_def)

lemmas run_defs =
  processFile_def tryBody_def processCss_def processJs_def rtlStage_def generateRtlCss_def
  minifyCss_def minifyJavaScript_def loadDefinitions_def removeDefinitions_def
  stripImports_def rtlSubstitute_def rtlRules_def writeTextFile_def writeMap_def hasMap_def
  readTextFile_def stat_def say_def setHas_def setAdd_def setDelete_def
  getDestPath_def join_def normalize_def normalizeString_def pushSegment_def
  RTL_CONFIG_def CSS_EXT_def JS_EXT_def toLowerCase_def cssMapComment_def jsMapComment_def
  matchImport_def matchLiteral_def matchTextAlign_def afterLiteral_def isWhiteSpace_def
  plainEnv_def emptyWorld_def notFound_def Let_def

lemma dest_a_css:
  "getDestPath (str ''a.css'') False = str ''a.min.css''"
  "getDestPath (str ''a.css'') True = str ''a.rtl.min.css''"
  by (simp_all add: run_defs path_defs)

lemma plain_run:
  "processFile plainEnv styleWorld (str ''a.css'') True =
     (Bool True,
      \<lparr>processingFiles = [], watchedDirectories = Map.empty,
       files = (files styleWorld)
         (str ''a.min.css'' :=
            Inr \<lparr>info = \<lparr>mtime = Some 100\<rparr>,
                  contents = Inr (str ''.a{left:0}'' @ cssMapComment (str ''a.min.css.map''))\<rparr>,
          str ''a.rtl.min.css'' :=
            Inr \<lparr>info = \<lparr>mtime = Some 101\<rparr>,
                  contents = Inr (rtlRules @ str ''.a{inset-inline-start:0}''
                                  @ cssMapComment (str ''a.rtl.min.css.map''))\<rparr>),
       writes = Suc (Suc 0), timers = [],
       console =
         [ErrorDefinitionsRead (str ''/srv/assets/css/definitions.css''),
          ErrorDefinitionsRead (str ''/srv/assets/css/definitions.css''),
          InfoRtlGenerated (str ''a.css'') (str ''a.rtl.min.css''),
          InfoLtrGenerated (str ''a.css'') (str ''a.min.css'')]\<rparr>)"
  by (simp add: run_defs path_defs styleWorld_def)

lemma rtlFailing_run:
  "processFile rtlFailingEnv styleWorld (str ''a.css'') True =
     (Bool True,
      \<lparr>processingFiles = [], watchedDirectories = Map.empty,
       files = (files styleWorld)
         (str ''a.min.css'' :=
            Inr \<lparr>info = \<lparr>mtime = Some 100\<rparr>,
                  contents = Inr (str ''.a{left:0}'' @ cssMapComment (str ''a.min.css.map''))\<rparr>),
       writes = Suc 0, timers = [],
       console =
         [ErrorDefinitionsRead (str ''/srv/assets/css/definitions.css''),
          ErrorDefinitionsRead (str ''/srv/assets/css/definitions.css''),
          ErrorCssMinification (str ''a.css''),
          ErrorRtlGeneration (str ''a.css''),
          ErrorRtlFailed (str ''a.css''),
          InfoLtrGenerated (str ''a.css'') (str ''a.min.css'')]\<rparr>)"
  by (simp add: run_defs path_defs styleWorld_def rtlFailingEnv_def syntaxError_def)

text \<open>
  What a stage that returned has written: the left-to-right destination at the first
  write of the stage, the right-to-left destination unless the failure of the
  right-to-left stage was logged, and nothing at any other path than the destinations
  and their source maps.
\<close>

lemma rtlStage_outcome:
  "\<exists>ls. console (rtlStage e w input p) = console w @ ls
     \<and> writes w \<le> writes (rtlStage e w input p)
     \<and> (ErrorRtlFailed p \<notin> set ls \<longrightarrow>
          writes w < writes (rtlStage e w input p)
          \<and> stat (files (rtlStage e w input p)) (getDestPath p True)
              = Inr \<lparr>mtime = clock e (writes w)\<rparr>)"
  by (auto simp: rtlStage_def Let_def writeTextFile_def writeMap_def say_def stat_def
        split: prod.splits sum.splits option.splits)

lemma processCss_outcome:
  assumes "processCss e w input p = (Inr r, w2)"
  shows "\<exists>ls. console w2 = console w @ ls
     \<and> writes w < writes w2
     \<and> stat (files w2) (getDestPath p False) = Inr \<lparr>mtime = clock e (writes w)\<rparr>
     \<and> (ErrorRtlFailed p \<notin> set ls \<longrightarrow>
          (\<exists>k. writes w < k \<and> k < writes w2
             \<and> stat (files w2) (getDestPath p True) = Inr \<lparr>mtime = clock e k\<rparr>))"
proof -
  obtain ltr logs where m: "minifyCss e (files w) input p False = (Inr ltr, logs)"
    using assms by (auto simp: processCss_def split: prod.splits sum.splits)
  let ?out = "getDestPath p False"
  let ?w0 = "say logs w"
  obtain wa where a: "writeTextFile e ?w0 ?out (code ltr @ cssMapComment (?out @ str ''.map''))
      = (None, wa)"
    using assms m by (auto simp: processCss_def Let_def split: prod.splits option.splits)
  obtain wb where b: "writeMap e wa (?out @ str ''.map'') (sourceMap ltr) = (None, wb)"
    using assms m a by (auto simp: processCss_def Let_def split: prod.splits option.splits)
  let ?wc = "rtlStage e wb input p"
  have w2: "w2 = say (InfoLtrGenerated p ?out
                     # (if hasMap (sourceMap ltr) then [InfoLtrMap (?out @ str ''.map'')] else []))
                  ?wc"
    using assms m a b by (simp add: processCss_def Let_def RTL_CONFIG_def)
  have fa: "console wa = console w @ logs" "writes wa = Suc (writes w)"
    "stat (files wa) ?out = Inr \<lparr>mtime = clock e (writes w)\<rparr>"
    using a by (auto simp: writeTextFile_def say_def stat_def split: option.splits)
  have fb: "console wb = console wa" "writes wa \<le> writes wb"
    "stat (files wb) ?out = stat (files wa) ?out"
    using b
    by (auto simp: writeMap_def writeTextFile_def stat_def split: option.splits if_splits)
  obtain ls where c: "console ?wc = console wb @ ls" "writes wb \<le> writes ?wc"
    "ErrorRtlFailed p \<notin> set ls \<longrightarrow>
          writes wb < writes ?wc
          \<and> stat (files ?wc) (getDestPath p True) = Inr \<lparr>mtime = clock e (writes wb)\<rparr>"
    using rtlStage_outcome [of e wb input p] by blast
  have fc: "stat (files ?wc) ?out = stat (files wb) ?out"
    using rtlStage_files [of ?out p e wb input] getDestPath_distinct [of p]
    by (simp add: stat_def)
  let ?ls = "logs @ ls @ InfoLtrGenerated p ?out
                     # (if hasMap (sourceMap ltr) then [InfoLtrMap (?out @ str ''.map'')] else [])"
  have 1: "console w2 = console w @ ?ls"
    using w2 fa fb c by (simp add: say_def)
  have 2: "writes w < writes w2"
    using w2 fa fb c by simp
  have 3: "stat (files w2) ?out = Inr \<lparr>mtime = clock e (writes w)\<rparr>"
    using w2 fa fb fc by simp
  have 4: "ErrorRtlFailed p \<notin> set ?ls \<longrightarrow>
          (\<exists>k. writes w < k \<and> k < writes w2
             \<and> stat (files w2) (getDestPath p True) = Inr \<lparr>mtime = clock e k\<rparr>)"
  proof
    assume "ErrorRtlFailed p \<notin> set ?ls"
    then have "ErrorRtlFailed p \<notin> set ls" by simp
    with c(3) have "writes wb < writes ?wc"
      "stat (files ?wc) (getDestPath p True) = Inr \<lparr>mtime = clock e (writes wb)\<rparr>"
      by simp_all
    with w2 fa fb show "\<exists>k. writes w < k \<and> k < writes w2
             \<and> stat (files w2) (getDestPath p True) = Inr \<lparr>mtime = clock e k\<rparr>"
      by (intro exI [of _ "writes wb"]) simp
  qed
  from 1 2 3 4 show ?thesis by blast
qed

lemma processCss_source:
  assumes "processCss e w input p = (Inr r, w2)"
    and "q \<noteq> getDestPath p False" "q \<noteq> getDestPath p False @ str ''.map''"
    and "q \<noteq> getDestPath p True" "q \<noteq> getDestPath p True @ str ''.map''"
  shows "files w2 q = files w q"
  using assms
  by (auto simp: processCss_def Let_def writeTextFile_files writeMap_files rtlStage_files
        split: prod.splits sum.splits option.splits if_splits dest!: snd_eqD)

lemma processJs_outcome:
  assumes "processJs e w input p out = (Inr r, w2)"
  shows "writes w < writes w2"
    and "stat (files w2) out = Inr \<lparr>mtime = clock e (writes w)\<rparr>"
    and "q \<noteq> out \<Longrightarrow> q \<noteq> out @ str ''.map'' \<Longrightarrow> files w2 q = files w q"
  using assms
  by (auto simp: processJs_def Let_def writeTextFile_def writeMap_def say_def stat_def
        split: prod.splits sum.splits option.splits if_splits)

lemma processFile_True_D:
  "processFile e w p force = (Bool True, w1) \<Longrightarrow>
   \<exists>logs0 w2. (force \<longrightarrow> logs0 = [])
      \<and> tryBody e ((say logs0 w)\<lparr>processingFiles := setAdd (processingFiles w) p\<rparr>) p
            = (Inr (Bool True), w2)
      \<and> w1 = w2\<lparr>processingFiles := setDelete (processingFiles w2) p\<rparr>"
proof (cases force)
  case True
  assume "processFile e w p force = (Bool True, w1)"
  with True show ?thesis
    by (intro exI [of _ "[]"])
      (auto simp: processFile_def Let_def split: if_splits prod.splits sum.splits)
next
  case False
  assume "processFile e w p force = (Bool True, w1)"
  with False show ?thesis
    by (auto simp: processFile_def Let_def split: if_splits prod.splits sum.splits)
qed

lemma tryBody_True_D:
  "tryBody e w p = (Inr (Bool True), w2) \<Longrightarrow>
   \<exists>input. readTextFile (files w) p = Inr input
     \<and> (toLowerCase (extname p) = CSS_EXT \<and> processCss e w input p = (Inr (Bool True), w2)
        \<or> toLowerCase (extname p) = JS_EXT \<and> toLowerCase (extname p) \<noteq> CSS_EXT
          \<and> processJs e w input p (getDestPath p False) = (Inr (Bool True), w2))"
  by (auto simp: tryBody_def Let_def split: if_splits sum.splits option.splits)

lemma processFile_success:
  assumes "processFile e w p force = (Bool True, w1)"
  shows "files w1 p = files w p"
    and "\<not> missing (stat (files w)) p"
    and "\<exists>n. writes w \<le> n \<and> n < writes w1
           \<and> stat (files w1) (getDestPath p False) = Inr \<lparr>mtime = clock e n\<rparr>"
    and "rtlRelevant p \<Longrightarrow> ErrorRtlFailed p \<notin> set (said w w1) \<Longrightarrow>
         \<exists>k. writes w \<le> k \<and> k < writes w1
           \<and> stat (files w1) (getDestPath p True) = Inr \<lparr>mtime = clock e k\<rparr>"
proof -
  obtain logs0 w2 where
    t: "tryBody e ((say logs0 w)\<lparr>processingFiles := setAdd (processingFiles w) p\<rparr>) p
          = (Inr (Bool True), w2)"
    and w1: "w1 = w2\<lparr>processingFiles := setDelete (processingFiles w2) p\<rparr>"
    using processFile_True_D [OF assms] by blast
  let ?wa = "(say logs0 w)\<lparr>processingFiles := setAdd (processingFiles w) p\<rparr>"
  have wa: "files ?wa = files w" "writes ?wa = writes w" "console ?wa = console w @ logs0"
    by (simp_all add: say_def)
  obtain input where r: "readTextFile (files w) p = Inr input"
    and c: "toLowerCase (extname p) = CSS_EXT
              \<and> processCss e ?wa input p = (Inr (Bool True), w2)
            \<or> toLowerCase (extname p) = JS_EXT \<and> toLowerCase (extname p) \<noteq> CSS_EXT
              \<and> processJs e ?wa input p (getDestPath p False) = (Inr (Bool True), w2)"
    using tryBody_True_D [OF t] wa(1) by auto
  from c have x: "toLowerCase (extname p) = CSS_EXT \<or> toLowerCase (extname p) = JS_EXT"
    by blast
  have d: "p \<noteq> getDestPath p False" "p \<noteq> getDestPath p False @ str ''.map''"
    "p \<noteq> getDestPath p True" "p \<noteq> getDestPath p True @ str ''.map''"
    using getDestPath_not_source [of p] map_not_source [OF x] by metis+
  show "files w1 p = files w p"
    using c d w1 wa(1) processCss_source [of e ?wa input p "Bool True" w2 p]
      processJs_outcome(3) [of e ?wa input p "getDestPath p False" "Bool True" w2 p]
    by auto
  show "\<not> missing (stat (files w)) p"
    using r by (auto simp: missing_def stat_def readTextFile_def split: sum.splits)
  show "\<exists>n. writes w \<le> n \<and> n < writes w1
           \<and> stat (files w1) (getDestPath p False) = Inr \<lparr>mtime = clock e n\<rparr>"
    using c w1 wa(2) processCss_outcome [of e ?wa input p "Bool True" w2]
      processJs_outcome(1,2) [of e ?wa input p "getDestPath p False" "Bool True" w2]
    by (intro exI [of _ "writes w"]) auto
  show "\<exists>k. writes w \<le> k \<and> k < writes w1
           \<and> stat (files w1) (getDestPath p True) = Inr \<lparr>mtime = clock e k\<rparr>"
    if "rtlRelevant p" "ErrorRtlFailed p \<notin> set (said w w1)"
  proof -
    from that(1) c have pc: "processCss e ?wa input p = (Inr (Bool True), w2)"
      by (auto simp: rtlRelevant_def)
    from processCss_outcome [OF pc] obtain ls where
      l: "console w2 = console ?wa @ ls" "writes ?wa < writes w2"
        "ErrorRtlFailed p \<notin> set ls \<longrightarrow>
          (\<exists>k. writes ?wa < k \<and> k < writes w2
             \<and> stat (files w2) (getDestPath p True) = Inr \<lparr>mtime = clock e k\<rparr>)"
      by blast
    from l(1) w1 wa(3) have "said w w1 = logs0 @ ls"
      by (simp add: said_def)
    with that(2) have "ErrorRtlFailed p \<notin> set ls" by simp
    with l(3) obtain k where "writes ?wa < k" "k < writes w2"
      "stat (files w2) (getDestPath p True) = Inr \<lparr>mtime = clock e k\<rparr>" by blast
    with w1 wa(2) show ?thesis
      by (intro exI [of _ k]) simp
  qed
qed

text \<open>
  When the right-to-left stage fails, the call returns true all the same, the
  right-to-left destination is missing, and the next call without force processes the
  file again.
\<close>

lemma rtl_failure_processed_again:
  "fst (processFile rtlFailingEnv styleWorld (str ''a.css'') True) = Bool True"
  "fst (processFile rtlFailingEnv
          (snd (processFile rtlFailingEnv styleWorld (str ''a.css'') True)) (str ''a.css'') False)
     = Bool True"
  unfolding rtlFailing_run snd_conv fst_conv
  by (simp_all add: run_defs path_defs styleWorld_def rtlFailingEnv_def syntaxError_def
        isSourceNewer_def timeOf_def)


section \<open>Lemmas on the style sheet stage\<close>









lemma indexOfAux_Some:
  "indexOfAux pat s k = Some i \<Longrightarrow> k \<le> i \<and> i - k \<le> length s \<and> prefix pat (drop (i - k) s)"
proof (induction s arbitrary: k)
  case Nil
  then show ?case by (simp split: if_splits)
next
  case (Cons c s)
  show ?case
  proof (cases "prefix pat (c # s)")
    case True
    with Cons.prems show ?thesis by simp
  next
    case False
    with Cons.prems have "indexOfAux pat s (Suc k) = Some i" by simp
    from Cons.IH [OF this] have "Suc k \<le> i" "i - Suc k \<le> length s"
      "prefix pat (drop (i - Suc k) s)" by simp_all
    moreover from this have "i - k = Suc (i - Suc k)" by simp
    ultimately show ?thesis by simp
  qed
qed

lemma indexOf_Some:
  "indexOf s pat from = Some i \<Longrightarrow> i \<le> length s \<and> prefix pat (drop i s)"
proof -
  assume a: "indexOf s pat from = Some i"
  show ?thesis
  proof (cases "from \<le> length s")
    case True
    with a have "indexOfAux pat (drop from s) from = Some i"
      by (simp add: indexOf_def min_def)
    from indexOfAux_Some [OF this]
    have g: "from \<le> i \<and> i - from \<le> length (drop from s)
               \<and> prefix pat (drop (i - from) (drop from s))" .
    then have f: "from \<le> i" "i - from \<le> length s - from"
      "prefix pat (drop (i - from + from) s)" by auto
    from f(1) have e: "i - from + from = i" by simp
    from f(3) have "prefix pat (drop i s)" unfolding e .
    moreover from f(1,2) True have "i \<le> length s" by simp
    ultimately show ?thesis by simp
  next
    case False
    with a have "indexOfAux pat [] (length s) = Some i"
      by (simp add: indexOf_def min_def)
    then show ?thesis by (simp split: if_splits)
  qed
qed

text \<open>
  Where the minifier rewrites the definitions, its output does not start with the
  definitions text as it was read: the removal is not tried, the minified definitions
  stay in the output and nothing is logged.
\<close>

lemma removeDefinitions_not_tried:
  "minifyCss squeezingEnv (files (definitionsWorld (str '':root { --a: 1 }'' @ [10])))
     (str ''.a{}'') (str ''a.css'') False
   = (Inr \<lparr>code = str '':root{--a:1}.a{}'', sourceMap = None\<rparr>, [])"
  by (simp add: minifyCss_def loadDefinitions_def readTextFile_def definitionsWorld_def
        squeezingEnv_def plainEnv_def emptyWorld_def join_def normalize_def normalizeString_def
        pushSegment_def isPosixPathSeparator_def str_def stripImports_def matchImport_def
        afterLiteral_def removeDefinitions_def trim_def isWhiteSpace_def Let_def)

section \<open>Lemmas on the global replacement\<close>

lemma prefix_append_cases:
  "prefix xs (ys @ zs) \<Longrightarrow> prefix xs ys \<or> prefix ys xs"
  by (auto simp: prefix_append)

text \<open>Scanning a text that is followed by more text: where the matcher decides inside
  the text, the scan of the whole is the scan of the parts.\<close>

lemma replaceAllBy_append:
  assumes "\<forall>k<length x. m (drop k x @ rest) = m (drop k x)
             \<and> (\<forall>n. m (drop k x) = Some n \<longrightarrow> 0 < n \<and> n \<le> length x - k)"
  shows "replaceAllBy m R (x @ rest) = replaceAllBy m R x @ replaceAllBy m R rest"
  using assms
proof (induction x rule: length_induct)
  case (1 x)
  show ?case
  proof (cases x)
    case Nil
    then show ?thesis by simp
  next
    case (Cons c cs)
    from "1.prems" Cons have h0: "m (c # cs @ rest) = m (c # cs)"
      and hn: "\<forall>n. m (c # cs) = Some n \<longrightarrow> 0 < n \<and> n \<le> Suc (length cs)"
      by (auto dest: spec [of _ 0])
    have sub: "\<forall>k<length (drop d cs). m (drop k (drop d cs) @ rest) = m (drop k (drop d cs))
             \<and> (\<forall>n. m (drop k (drop d cs)) = Some n \<longrightarrow> 0 < n \<and> n \<le> length (drop d cs) - k)"
      for d
    proof (intro allI impI)
      fix k assume "k < length (drop d cs)"
      then have "Suc (k + d) < length x" using Cons by simp
      with "1.prems" have "m (drop (Suc (k + d)) x @ rest) = m (drop (Suc (k + d)) x)
             \<and> (\<forall>n. m (drop (Suc (k + d)) x) = Some n \<longrightarrow> 0 < n \<and> n \<le> length x - Suc (k + d))"
        by blast
      then show "m (drop k (drop d cs) @ rest) = m (drop k (drop d cs))
             \<and> (\<forall>n. m (drop k (drop d cs)) = Some n \<longrightarrow> 0 < n \<and> n \<le> length (drop d cs) - k)"
        using Cons by (simp add: add.commute)
    qed
    have ih: "replaceAllBy m R (drop d cs @ rest)
                = replaceAllBy m R (drop d cs) @ replaceAllBy m R rest" for d
      using "1.IH" sub [of d] Cons by simp
    show ?thesis
    proof (cases "m (c # cs)")
      case None
      with h0 ih [of 0] Cons show ?thesis by simp
    next
      case (Some n)
      with hn have n: "0 < n" "n - 1 \<le> length cs" by auto
      then have "drop (n - 1) (cs @ rest) = drop (n - 1) cs @ rest" by simp
      with Some h0 ih [of "n - 1"] Cons show ?thesis by simp
    qed
  qed
qed


lemma replaceAllBy_block:
  "\<forall>i<length B. m (drop i B @ y) = None \<Longrightarrow>
   replaceAllBy m R (B @ y) = B @ replaceAllBy m R y"
proof (induction B)
  case Nil
  show ?case by simp
next
  case (Cons c B)
  from Cons.prems have "m (drop 0 (c # B) @ y) = None" by blast
  then have n: "m (c # B @ y) = None" by simp
  have "\<forall>i<length B. m (drop i B @ y) = None"
  proof (intro allI impI)
    fix i assume "i < length B"
    then have "Suc i < length (c # B)" by simp
    with Cons.prems have "m (drop (Suc i) (c # B) @ y) = None" by blast
    then show "m (drop i B @ y) = None" by simp
  qed
  with Cons.IH n show ?case by simp
qed

lemma straddlePoints_iff:
  "j \<in> set (straddlePoints P B) \<longleftrightarrow>
     0 < j \<and> j < length P \<and> (prefix (drop j P) B \<or> prefix B (drop j P))"
  by (auto simp: straddlePoints_def)

lemma startsInside_iff:
  "startsInside P B \<longleftrightarrow> (\<exists>i<length B. prefix P (drop i B) \<or> prefix (drop i B) P)"
  by (auto simp: startsInside_def list_ex_iff)

text \<open>A literal that is a prefix of a text followed by more text, and not of the text
  alone, runs over the end of the text.\<close>

lemma prefix_runs_over:
  assumes "prefix P (z @ rest)" "\<not> prefix P z"
  shows "length z < length P \<and> take (length z) P = z \<and> prefix (drop (length z) P) rest"
proof -
  from assms obtain us where u: "P = z @ us" "prefix us rest"
    by (auto simp: prefix_append)
  with assms(2) have "us \<noteq> []" by auto
  with u show ?thesis by simp
qed

lemma literal_decides_inside:
  assumes "\<forall>j\<in>set (straddlePoints P B). \<not> suffix (take j P) x" and "P \<noteq> []"
  shows "\<forall>k<length x. matchLiteral P (drop k x @ B @ y) = matchLiteral P (drop k x)
           \<and> (\<forall>n. matchLiteral P (drop k x) = Some n \<longrightarrow> 0 < n \<and> n \<le> length x - k)"
proof (intro allI impI conjI)
  fix k assume k: "k < length x"
  let ?z = "drop k x"
  have z: "?z \<noteq> []" using k by simp
  show "matchLiteral P (?z @ B @ y) = matchLiteral P ?z"
  proof (cases "prefix P (?z @ B @ y) \<and> \<not> prefix P ?z")
    case True
    then have r: "length ?z < length P" "take (length ?z) P = ?z"
      "prefix (drop (length ?z) P) (B @ y)"
      using prefix_runs_over [of P ?z "B @ y"] by simp_all
    from r(3) have "prefix (drop (length ?z) P) B \<or> prefix B (drop (length ?z) P)"
      by (rule prefix_append_cases)
    with r(1) z have "length ?z \<in> set (straddlePoints P B)"
      by (simp add: straddlePoints_iff)
    with assms(1) have "\<not> suffix (take (length ?z) P) x" by blast
    with r(2) have "\<not> suffix ?z x" by simp
    then show ?thesis by (simp add: suffix_drop)
  next
    case False
    then show ?thesis by (auto simp: matchLiteral_def)
  qed
next
  fix k n assume k: "k < length x" and m: "matchLiteral P (drop k x) = Some n"
  then have "prefix P (drop k x)" "n = length P"
    by (auto simp: matchLiteral_def split: if_splits)
  then show "n \<le> length x - k" using prefix_length_le [of P "drop k x"] by simp
next
  fix k n assume "matchLiteral P (drop k x) = Some n"
  then have "n = length P"
    by (auto simp: matchLiteral_def split: if_splits)
  with assms(2) show "0 < n" by simp
qed


lemma literal_pass:
  assumes "P \<noteq> []" "\<not> startsInside P B"
    and "\<forall>j\<in>set (straddlePoints P B). \<not> suffix (take j P) x"
  shows "replaceAllBy (matchLiteral P) R (x @ B @ y)
           = replaceAllBy (matchLiteral P) R x @ B @ replaceAllBy (matchLiteral P) R y"
proof -
  have "\<forall>i<length B. matchLiteral P (drop i B @ y) = None"
  proof (intro allI impI)
    fix i assume i: "i < length B"
    show "matchLiteral P (drop i B @ y) = None"
    proof (rule ccontr)
      assume "matchLiteral P (drop i B @ y) \<noteq> None"
      then have "prefix P (drop i B @ y)" by (simp add: matchLiteral_def split: if_splits)
      then have "prefix P (drop i B) \<or> prefix (drop i B) P" by (rule prefix_append_cases)
      with i assms(2) show False by (auto simp: startsInside_iff)
    qed
  qed
  then have "replaceAllBy (matchLiteral P) R (B @ y) = B @ replaceAllBy (matchLiteral P) R y"
    by (rule replaceAllBy_block)
  with replaceAllBy_append [OF literal_decides_inside [OF assms(3,1)], of R y]
  show ?thesis by simp
qed

lemma literal_hit:
  assumes "P \<noteq> []" "\<forall>j\<in>set (straddlePoints P P). \<not> suffix (take j P) x"
  shows "replaceAllBy (matchLiteral P) R (x @ P @ y)
           = replaceAllBy (matchLiteral P) R x @ R @ replaceAllBy (matchLiteral P) R y"
proof -
  obtain c cs where p: "P = c # cs" using assms(1) by (cases P) auto
  have "matchLiteral P (c # cs @ y) = Some (Suc (length cs))"
    by (simp add: matchLiteral_def p)
  then have "replaceAllBy (matchLiteral P) R (P @ y) = R @ replaceAllBy (matchLiteral P) R y"
    by (simp add: p)
  with replaceAllBy_append [OF literal_decides_inside [OF assms(2,1)], of R y]
  show ?thesis by simp
qed

text \<open>What a replacement puts into a text holds a colon, so a text without colon at
  the end of the result was at the end of the input.\<close>

lemma replaceAllBy_unchanged:
  "58 \<in> set R \<Longrightarrow> 58 \<notin> set (replaceAllBy m R x) \<Longrightarrow> replaceAllBy m R x = x"
  by (induction m R x rule: replaceAllBy.induct) (auto split: option.splits)

lemma suffix_behind_colon:
  assumes "suffix u (R @ t)" "58 \<notin> set u" "R \<noteq> []" "last R = 58"
  shows "suffix u t"
proof -
  from assms(1) have "suffix u t \<or> (\<exists>v. suffix v R \<and> u = v @ t)"
    by (auto simp: suffix_append)
  then show ?thesis
  proof
    assume "suffix u t"
    then show ?thesis .
  next
    assume "\<exists>v. suffix v R \<and> u = v @ t"
    then obtain v w where v: "R = w @ v" "u = v @ t" by (auto simp: suffix_def)
    show ?thesis
    proof (cases "v = []")
      case True
      with v(2) show ?thesis by simp
    next
      case False
      with v(1) assms(4) have "last v = 58" by simp
      with False have "58 \<in> set v" using last_in_set [of v] by auto
      with v(2) assms(2) show ?thesis by simp
    qed
  qed
qed

lemma replaceAllBy_suffix:
  "58 \<notin> set u \<Longrightarrow> R \<noteq> [] \<Longrightarrow> last R = 58 \<Longrightarrow> suffix u (replaceAllBy m R x) \<Longrightarrow> suffix u x"
proof (induction m R x rule: replaceAllBy.induct)
  case (1 m R)
  then show ?case by simp
next
  case (2 m R c cs)
  have r: "58 \<in> set R" using "2.prems"(2,3) last_in_set [of R] by auto
  show ?case
  proof (cases "m (c # cs)")
    case None
    with "2.prems"(4) have "u = c # replaceAllBy m R cs \<or> suffix u (replaceAllBy m R cs)"
      by (simp add: suffix_Cons)
    then show ?thesis
    proof
      assume e: "u = c # replaceAllBy m R cs"
      with "2.prems"(1) have "58 \<notin> set (replaceAllBy m R cs)" by simp
      with r have "replaceAllBy m R cs = cs" by (rule replaceAllBy_unchanged)
      with e show ?thesis by simp
    next
      assume a: "suffix u (replaceAllBy m R cs)"
      have "suffix u cs"
        by (rule "2.IH"(1) [OF None "2.prems"(1,2,3) a])
      then show ?thesis by (simp add: suffix_Cons)
    qed
  next
    case (Some n)
    with "2.prems"(4) have "suffix u (R @ replaceAllBy m R (drop (n - 1) cs))" by simp
    then have a: "suffix u (replaceAllBy m R (drop (n - 1) cs))"
      using "2.prems"(1,2,3) by (rule suffix_behind_colon)
    have "suffix u (drop (n - 1) cs)"
      by (rule "2.IH"(2) [OF Some "2.prems"(1,2,3) a])
    moreover have "suffix (drop (n - 1) cs) cs" by (rule suffix_drop)
    ultimately have "suffix u cs" by (rule suffix_order.trans)
    then show ?thesis by (simp add: suffix_Cons)
  qed
qed


lemma no_straddle:
  assumes "straddlePoints P B = []" "z \<noteq> []" "prefix P (z @ B @ y)"
  shows "prefix P z"
proof (rule ccontr)
  assume "\<not> prefix P z"
  with assms(3) have r: "length z < length P" "prefix (drop (length z) P) (B @ y)"
    using prefix_runs_over [of P z "B @ y"] by simp_all
  from r(2) have "prefix (drop (length z) P) B \<or> prefix B (drop (length z) P)"
    by (rule prefix_append_cases)
  with r(1) assms(2) have "length z \<in> set (straddlePoints P B)"
    by (simp add: straddlePoints_iff)
  with assms(1) show False by simp
qed

lemma matchTextAlign_bound:
  assumes "side \<noteq> []" "matchTextAlign side z = Some n"
  shows "0 < n \<and> n \<le> length z"
proof -
  let ?r = "dropWhile isWhiteSpace (drop (length (str ''text-align:'')) z)"
  from assms(2) have p: "prefix side ?r" and n: "n = length z - length ?r + length side"
    by (auto simp: matchTextAlign_def afterLiteral_def Let_def split: if_splits)
  have "length ?r \<le> length z"
    using length_dropWhile_le [of isWhiteSpace "drop (length (str ''text-align:'')) z"]
    by simp
  moreover from p have "length side \<le> length ?r" by (rule prefix_length_le)
  moreover have "0 < length side" using assms(1) by simp
  ultimately show ?thesis unfolding n by linarith
qed

lemma matchTextAlign_inside:
  assumes "side \<noteq> []" "B \<noteq> []" "\<not> isWhiteSpace (hd B)"
    and "straddlePoints (str ''text-align:'') B = []" "straddlePoints side B = []"
    and "\<not> prefix side B" "\<not> prefix B side" "z \<noteq> []"
  shows "matchTextAlign side (z @ B @ y) = matchTextAlign side z"
proof (cases "prefix (str ''text-align:'') (z @ B @ y)")
  case False
  then have "\<not> prefix (str ''text-align:'') z" by (auto simp: prefix_def)
  with False show ?thesis by (simp add: matchTextAlign_def afterLiteral_def)
next
  case True
  with assms(4,8) have t: "prefix (str ''text-align:'') z" by (rule no_straddle)
  let ?n = "length (str ''text-align:'')"
  let ?w = "drop ?n z"
  from t have l: "?n \<le> length z" by (rule prefix_length_le)
  then have d: "drop ?n (z @ B @ y) = ?w @ B @ y" by simp
  obtain b B' where b: "B = b # B'" "\<not> isWhiteSpace b"
    using assms(2,3) by (cases B) auto
  show ?thesis
  proof (cases "\<forall>c\<in>set ?w. isWhiteSpace c")
    case w: True
    then have "dropWhile isWhiteSpace (?w @ B @ y) = dropWhile isWhiteSpace (B @ y)"
      by (simp add: dropWhile_append2)
    with b have 1: "dropWhile isWhiteSpace (?w @ B @ y) = B @ y" by simp
    from w have 2: "dropWhile isWhiteSpace ?w = []" by simp
    have "\<not> prefix side (B @ y)"
      using assms(6,7) prefix_append_cases [of side B y] by blast
    with True t assms(1) show ?thesis
      by (simp add: matchTextAlign_def afterLiteral_def Let_def d 1 2 del: drop_append)
  next
    case w: False
    then have 1: "dropWhile isWhiteSpace (?w @ B @ y) = dropWhile isWhiteSpace ?w @ B @ y"
      by (auto simp: dropWhile_append1)
    let ?v = "dropWhile isWhiteSpace ?w"
    from w have v: "?v \<noteq> []" by simp
    have e: "prefix side (?v @ B @ y) \<longleftrightarrow> prefix side ?v"
    proof
      assume "prefix side (?v @ B @ y)"
      with assms(5) v show "prefix side ?v" by (rule no_straddle)
    next
      assume "prefix side ?v"
      then show "prefix side (?v @ B @ y)" by (auto simp: prefix_def)
    qed
    from True t show ?thesis
      by (simp add: matchTextAlign_def afterLiteral_def Let_def d 1 e del: drop_append)
  qed
qed

lemma textAlign_pass:
  assumes "side \<noteq> []" "B \<noteq> []" "\<not> isWhiteSpace (hd B)"
    and "straddlePoints (str ''text-align:'') B = []" "straddlePoints side B = []"
    and "\<not> prefix side B" "\<not> prefix B side" "\<not> startsInside (str ''text-align:'') B"
  shows "replaceAllBy (matchTextAlign side) R (x @ B @ y)
           = replaceAllBy (matchTextAlign side) R x @ B @ replaceAllBy (matchTextAlign side) R y"
proof -
  have "\<forall>i<length B. matchTextAlign side (drop i B @ y) = None"
  proof (intro allI impI)
    fix i assume i: "i < length B"
    show "matchTextAlign side (drop i B @ y) = None"
    proof (rule ccontr)
      assume "matchTextAlign side (drop i B @ y) \<noteq> None"
      then have "prefix (str ''text-align:'') (drop i B @ y)"
        by (auto simp: matchTextAlign_def afterLiteral_def split: if_splits)
      then have "prefix (str ''text-align:'') (drop i B) \<or> prefix (drop i B) (str ''text-align:'')"
        by (rule prefix_append_cases)
      with i assms(8) show False by (auto simp: startsInside_iff)
    qed
  qed
  then have blk: "replaceAllBy (matchTextAlign side) R (B @ y)
                    = B @ replaceAllBy (matchTextAlign side) R y"
    by (rule replaceAllBy_block)
  have "\<forall>k<length x. matchTextAlign side (drop k x @ B @ y) = matchTextAlign side (drop k x)
          \<and> (\<forall>n. matchTextAlign side (drop k x) = Some n \<longrightarrow> 0 < n \<and> n \<le> length x - k)"
  proof (intro allI impI conjI)
    fix k assume "k < length x"
    then have "drop k x \<noteq> []" by simp
    with assms(1-7) show "matchTextAlign side (drop k x @ B @ y) = matchTextAlign side (drop k x)"
      by (intro matchTextAlign_inside)
  next
    fix k n assume "matchTextAlign side (drop k x) = Some n"
    with assms(1) show "0 < n" using matchTextAlign_bound by blast
  next
    fix k n assume "k < length x" "matchTextAlign side (drop k x) = Some n"
    with assms(1) show "n \<le> length x - k"
      using matchTextAlign_bound [of side "drop k x" n] by simp
  qed
  from replaceAllBy_append [OF this, of R] blk show ?thesis by simp
qed

section \<open>The substitutions of the right-to-left stage, pattern by pattern\<close>

lemma literal_pass_free:
  assumes "P \<noteq> []" "\<not> startsInside P B" "straddlePoints P B = []"
  shows "replaceAllBy (matchLiteral P) R (x @ B @ y)
           = replaceAllBy (matchLiteral P) R x @ B @ replaceAllBy (matchLiteral P) R y"
  using assms by (intro literal_pass) simp_all

lemma literal_pass_behind:
  assumes "P \<noteq> []" "\<not> startsInside P B" "straddlePoints P B = [j]" "take j P = u"
    and "\<not> suffix u x"
  shows "replaceAllBy (matchLiteral P) R (x @ B @ y)
           = replaceAllBy (matchLiteral P) R x @ B @ replaceAllBy (matchLiteral P) R y"
  using assms by (intro literal_pass) simp_all

lemma literal_hit_free:
  assumes "P \<noteq> []" "straddlePoints P P = []"
  shows "replaceAllBy (matchLiteral P) R (x @ P @ y)
           = replaceAllBy (matchLiteral P) R x @ R @ replaceAllBy (matchLiteral P) R y"
  using assms by (intro literal_hit) simp_all

lemma replaceAllBy_keeps_end:
  assumes "\<not> suffix u x" "58 \<notin> set u" "R \<noteq> []" "last R = 58"
  shows "\<not> suffix u (replaceAllBy m R x)"
  using assms replaceAllBy_suffix [of u R m x] by blast

lemma patterns_not_empty:
  "str ''margin-left:'' \<noteq> []"
  "str ''margin-right:'' \<noteq> []"
  "str ''padding-left:'' \<noteq> []"
  "str ''padding-right:'' \<noteq> []"
  "str ''border-left:'' \<noteq> []"
  "str ''border-right:'' \<noteq> []"
  "str ''left:'' \<noteq> []"
  "str ''right:'' \<noteq> []"
  "str ''left'' \<noteq> []" "str ''right'' \<noteq> []"
  by (simp_all add: str_def)

lemma patterns_unbordered:
  "straddlePoints (str ''margin-left:'') (str ''margin-left:'') = []"
  "straddlePoints (str ''margin-right:'') (str ''margin-right:'') = []"
  "straddlePoints (str ''padding-left:'') (str ''padding-left:'') = []"
  "straddlePoints (str ''padding-right:'') (str ''padding-right:'') = []"
  "straddlePoints (str ''border-left:'') (str ''border-left:'') = []"
  "straddlePoints (str ''border-right:'') (str ''border-right:'') = []"
  "straddlePoints (str ''left:'') (str ''left:'') = []"
  "straddlePoints (str ''right:'') (str ''right:'') = []"
  by code_simp+

lemma replacements_end_with_colon:
  "str ''margin-inline-start:'' \<noteq> []" "last (str ''margin-inline-start:'') = 58"
  "str ''margin-inline-end:'' \<noteq> []" "last (str ''margin-inline-end:'') = 58"
  "str ''padding-inline-start:'' \<noteq> []" "last (str ''padding-inline-start:'') = 58"
  "str ''padding-inline-end:'' \<noteq> []" "last (str ''padding-inline-end:'') = 58"
  "str ''border-inline-start:'' \<noteq> []" "last (str ''border-inline-start:'') = 58"
  "str ''border-inline-end:'' \<noteq> []" "last (str ''border-inline-end:'') = 58"
  "str ''inset-inline-start:'' \<noteq> []" "last (str ''inset-inline-start:'') = 58"
  "str ''inset-inline-end:'' \<noteq> []" "last (str ''inset-inline-end:'') = 58"
  by (simp_all add: str_def)

lemma prefixes_without_colon:
  "58 \<notin> set (str ''margin-'')" "58 \<notin> set (str ''padding-'')" "58 \<notin> set (str ''border-'')"
  by (simp_all add: str_def)

lemma hit_margin_left:
  "replaceAllBy (matchLiteral (str ''margin-left:'')) R (x @ str ''margin-left:'' @ y)
     = replaceAllBy (matchLiteral (str ''margin-left:'')) R x @ R
       @ replaceAllBy (matchLiteral (str ''margin-left:'')) R y"
  by (rule literal_hit_free; rule patterns_not_empty patterns_unbordered)

lemma avoid_margin_inline_start:
  "\<not> startsInside (str ''margin-right:'') (str ''margin-inline-start:'')"
  "straddlePoints (str ''margin-right:'') (str ''margin-inline-start:'') = []"
  "\<not> startsInside (str ''padding-left:'') (str ''margin-inline-start:'')"
  "straddlePoints (str ''padding-left:'') (str ''margin-inline-start:'') = []"
  "\<not> startsInside (str ''padding-right:'') (str ''margin-inline-start:'')"
  "straddlePoints (str ''padding-right:'') (str ''margin-inline-start:'') = []"
  "\<not> startsInside (str ''border-left:'') (str ''margin-inline-start:'')"
  "straddlePoints (str ''border-left:'') (str ''margin-inline-start:'') = []"
  "\<not> startsInside (str ''border-right:'') (str ''margin-inline-start:'')"
  "straddlePoints (str ''border-right:'') (str ''margin-inline-start:'') = []"
  "\<not> startsInside (str ''left:'') (str ''margin-inline-start:'')"
  "straddlePoints (str ''left:'') (str ''margin-inline-start:'') = []"
  "\<not> startsInside (str ''right:'') (str ''margin-inline-start:'')"
  "straddlePoints (str ''right:'') (str ''margin-inline-start:'') = []"
  by code_simp+

lemma literals_pass_margin_inline_start:
  "replaceAllBy (matchLiteral (str ''margin-right:'')) R (x @ str ''margin-inline-start:'' @ y)
     = replaceAllBy (matchLiteral (str ''margin-right:'')) R x @ str ''margin-inline-start:''
       @ replaceAllBy (matchLiteral (str ''margin-right:'')) R y"
  "replaceAllBy (matchLiteral (str ''padding-left:'')) R (x @ str ''margin-inline-start:'' @ y)
     = replaceAllBy (matchLiteral (str ''padding-left:'')) R x @ str ''margin-inline-start:''
       @ replaceAllBy (matchLiteral (str ''padding-left:'')) R y"
  "replaceAllBy (matchLiteral (str ''padding-right:'')) R (x @ str ''margin-inline-start:'' @ y)
     = replaceAllBy (matchLiteral (str ''padding-right:'')) R x @ str ''margin-inline-start:''
       @ replaceAllBy (matchLiteral (str ''padding-right:'')) R y"
  "replaceAllBy (matchLiteral (str ''border-left:'')) R (x @ str ''margin-inline-start:'' @ y)
     = replaceAllBy (matchLiteral (str ''border-left:'')) R x @ str ''margin-inline-start:''
       @ replaceAllBy (matchLiteral (str ''border-left:'')) R y"
  "replaceAllBy (matchLiteral (str ''border-right:'')) R (x @ str ''margin-inline-start:'' @ y)
     = replaceAllBy (matchLiteral (str ''border-right:'')) R x @ str ''margin-inline-start:''
       @ replaceAllBy (matchLiteral (str ''border-right:'')) R y"
  "replaceAllBy (matchLiteral (str ''left:'')) R (x @ str ''margin-inline-start:'' @ y)
     = replaceAllBy (matchLiteral (str ''left:'')) R x @ str ''margin-inline-start:''
       @ replaceAllBy (matchLiteral (str ''left:'')) R y"
  "replaceAllBy (matchLiteral (str ''right:'')) R (x @ str ''margin-inline-start:'' @ y)
     = replaceAllBy (matchLiteral (str ''right:'')) R x @ str ''margin-inline-start:''
       @ replaceAllBy (matchLiteral (str ''right:'')) R y"
  by (rule literal_pass_free; rule patterns_not_empty avoid_margin_inline_start)+

lemma textAlign_avoid_margin_inline_start:
  "straddlePoints (str ''text-align:'') (str ''margin-inline-start:'') = []"
  "\<not> startsInside (str ''text-align:'') (str ''margin-inline-start:'')"
  "straddlePoints (str ''left'') (str ''margin-inline-start:'') = []"
  "\<not> prefix (str ''left'') (str ''margin-inline-start:'')"
  "\<not> prefix (str ''margin-inline-start:'') (str ''left'')"
  "straddlePoints (str ''right'') (str ''margin-inline-start:'') = []"
  "\<not> prefix (str ''right'') (str ''margin-inline-start:'')"
  "\<not> prefix (str ''margin-inline-start:'') (str ''right'')"
  by code_simp+

lemma textAlign_avoid_margin_inline_start_head:
  "str ''margin-inline-start:'' \<noteq> []" "\<not> isWhiteSpace (hd (str ''margin-inline-start:''))"
  by (simp_all add: str_def isWhiteSpace_def)

lemma textAlign_pass_margin_inline_start:
  "replaceAllBy (matchTextAlign (str ''left'')) R (x @ str ''margin-inline-start:'' @ y)
     = replaceAllBy (matchTextAlign (str ''left'')) R x @ str ''margin-inline-start:''
       @ replaceAllBy (matchTextAlign (str ''left'')) R y"
  "replaceAllBy (matchTextAlign (str ''right'')) R (x @ str ''margin-inline-start:'' @ y)
     = replaceAllBy (matchTextAlign (str ''right'')) R x @ str ''margin-inline-start:''
       @ replaceAllBy (matchTextAlign (str ''right'')) R y"
  by (rule textAlign_pass; rule patterns_not_empty textAlign_avoid_margin_inline_start textAlign_avoid_margin_inline_start_head)+

lemma rtlSubstitute_margin_left:
  "rtlSubstitute (x @ str ''margin-left:'' @ y)
     = rtlSubstitute x @ str ''margin-inline-start:'' @ rtlSubstitute y"
  by (simp only: rtlSubstitute_def Let_def hit_margin_left literals_pass_margin_inline_start textAlign_pass_margin_inline_start)

lemma avoid_margin_right:
  "\<not> startsInside (str ''margin-left:'') (str ''margin-right:'')"
  "straddlePoints (str ''margin-left:'') (str ''margin-right:'') = []"
  by code_simp+

lemma literals_pass_margin_right:
  "replaceAllBy (matchLiteral (str ''margin-left:'')) R (x @ str ''margin-right:'' @ y)
     = replaceAllBy (matchLiteral (str ''margin-left:'')) R x @ str ''margin-right:''
       @ replaceAllBy (matchLiteral (str ''margin-left:'')) R y"
  by (rule literal_pass_free; rule patterns_not_empty avoid_margin_right)+

lemma hit_margin_right:
  "replaceAllBy (matchLiteral (str ''margin-right:'')) R (x @ str ''margin-right:'' @ y)
     = replaceAllBy (matchLiteral (str ''margin-right:'')) R x @ R
       @ replaceAllBy (matchLiteral (str ''margin-right:'')) R y"
  by (rule literal_hit_free; rule patterns_not_empty patterns_unbordered)

lemma avoid_margin_inline_end:
  "\<not> startsInside (str ''padding-left:'') (str ''margin-inline-end:'')"
  "straddlePoints (str ''padding-left:'') (str ''margin-inline-end:'') = []"
  "\<not> startsInside (str ''padding-right:'') (str ''margin-inline-end:'')"
  "straddlePoints (str ''padding-right:'') (str ''margin-inline-end:'') = []"
  "\<not> startsInside (str ''border-left:'') (str ''margin-inline-end:'')"
  "straddlePoints (str ''border-left:'') (str ''margin-inline-end:'') = []"
  "\<not> startsInside (str ''border-right:'') (str ''margin-inline-end:'')"
  "straddlePoints (str ''border-right:'') (str ''margin-inline-end:'') = []"
  "\<not> startsInside (str ''left:'') (str ''margin-inline-end:'')"
  "straddlePoints (str ''left:'') (str ''margin-inline-end:'') = []"
  "\<not> startsInside (str ''right:'') (str ''margin-inline-end:'')"
  "straddlePoints (str ''right:'') (str ''margin-inline-end:'') = []"
  by code_simp+

lemma literals_pass_margin_inline_end:
  "replaceAllBy (matchLiteral (str ''padding-left:'')) R (x @ str ''margin-inline-end:'' @ y)
     = replaceAllBy (matchLiteral (str ''padding-left:'')) R x @ str ''margin-inline-end:''
       @ replaceAllBy (matchLiteral (str ''padding-left:'')) R y"
  "replaceAllBy (matchLiteral (str ''padding-right:'')) R (x @ str ''margin-inline-end:'' @ y)
     = replaceAllBy (matchLiteral (str ''padding-right:'')) R x @ str ''margin-inline-end:''
       @ replaceAllBy (matchLiteral (str ''padding-right:'')) R y"
  "replaceAllBy (matchLiteral (str ''border-left:'')) R (x @ str ''margin-inline-end:'' @ y)
     = replaceAllBy (matchLiteral (str ''border-left:'')) R x @ str ''margin-inline-end:''
       @ replaceAllBy (matchLiteral (str ''border-left:'')) R y"
  "replaceAllBy (matchLiteral (str ''border-right:'')) R (x @ str ''margin-inline-end:'' @ y)
     = replaceAllBy (matchLiteral (str ''border-right:'')) R x @ str ''margin-inline-end:''
       @ replaceAllBy (matchLiteral (str ''border-right:'')) R y"
  "replaceAllBy (matchLiteral (str ''left:'')) R (x @ str ''margin-inline-end:'' @ y)
     = replaceAllBy (matchLiteral (str ''left:'')) R x @ str ''margin-inline-end:''
       @ replaceAllBy (matchLiteral (str ''left:'')) R y"
  "replaceAllBy (matchLiteral (str ''right:'')) R (x @ str ''margin-inline-end:'' @ y)
     = replaceAllBy (matchLiteral (str ''right:'')) R x @ str ''margin-inline-end:''
       @ replaceAllBy (matchLiteral (str ''right:'')) R y"
  by (rule literal_pass_free; rule patterns_not_empty avoid_margin_inline_end)+

lemma textAlign_avoid_margin_inline_end:
  "straddlePoints (str ''text-align:'') (str ''margin-inline-end:'') = []"
  "\<not> startsInside (str ''text-align:'') (str ''margin-inline-end:'')"
  "straddlePoints (str ''left'') (str ''margin-inline-end:'') = []"
  "\<not> prefix (str ''left'') (str ''margin-inline-end:'')"
  "\<not> prefix (str ''margin-inline-end:'') (str ''left'')"
  "straddlePoints (str ''right'') (str ''margin-inline-end:'') = []"
  "\<not> prefix (str ''right'') (str ''margin-inline-end:'')"
  "\<not> prefix (str ''margin-inline-end:'') (str ''right'')"
  by code_simp+

lemma textAlign_avoid_margin_inline_end_head:
  "str ''margin-inline-end:'' \<noteq> []" "\<not> isWhiteSpace (hd (str ''margin-inline-end:''))"
  by (simp_all add: str_def isWhiteSpace_def)

lemma textAlign_pass_margin_inline_end:
  "replaceAllBy (matchTextAlign (str ''left'')) R (x @ str ''margin-inline-end:'' @ y)
     = replaceAllBy (matchTextAlign (str ''left'')) R x @ str ''margin-inline-end:''
       @ replaceAllBy (matchTextAlign (str ''left'')) R y"
  "replaceAllBy (matchTextAlign (str ''right'')) R (x @ str ''margin-inline-end:'' @ y)
     = replaceAllBy (matchTextAlign (str ''right'')) R x @ str ''margin-inline-end:''
       @ replaceAllBy (matchTextAlign (str ''right'')) R y"
  by (rule textAlign_pass; rule patterns_not_empty textAlign_avoid_margin_inline_end textAlign_avoid_margin_inline_end_head)+

lemma rtlSubstitute_margin_right:
  "rtlSubstitute (x @ str ''margin-right:'' @ y)
     = rtlSubstitute x @ str ''margin-inline-end:'' @ rtlSubstitute y"
  by (simp only: rtlSubstitute_def Let_def literals_pass_margin_right hit_margin_right literals_pass_margin_inline_end textAlign_pass_margin_inline_end)

lemma avoid_padding_left:
  "\<not> startsInside (str ''margin-left:'') (str ''padding-left:'')"
  "straddlePoints (str ''margin-left:'') (str ''padding-left:'') = []"
  "\<not> startsInside (str ''margin-right:'') (str ''padding-left:'')"
  "straddlePoints (str ''margin-right:'') (str ''padding-left:'') = []"
  by code_simp+

lemma literals_pass_padding_left:
  "replaceAllBy (matchLiteral (str ''margin-left:'')) R (x @ str ''padding-left:'' @ y)
     = replaceAllBy (matchLiteral (str ''margin-left:'')) R x @ str ''padding-left:''
       @ replaceAllBy (matchLiteral (str ''margin-left:'')) R y"
  "replaceAllBy (matchLiteral (str ''margin-right:'')) R (x @ str ''padding-left:'' @ y)
     = replaceAllBy (matchLiteral (str ''margin-right:'')) R x @ str ''padding-left:''
       @ replaceAllBy (matchLiteral (str ''margin-right:'')) R y"
  by (rule literal_pass_free; rule patterns_not_empty avoid_padding_left)+

lemma hit_padding_left:
  "replaceAllBy (matchLiteral (str ''padding-left:'')) R (x @ str ''padding-left:'' @ y)
     = replaceAllBy (matchLiteral (str ''padding-left:'')) R x @ R
       @ replaceAllBy (matchLiteral (str ''padding-left:'')) R y"
  by (rule literal_hit_free; rule patterns_not_empty patterns_unbordered)

lemma avoid_padding_inline_start:
  "\<not> startsInside (str ''padding-right:'') (str ''padding-inline-start:'')"
  "straddlePoints (str ''padding-right:'') (str ''padding-inline-start:'') = []"
  "\<not> startsInside (str ''border-left:'') (str ''padding-inline-start:'')"
  "straddlePoints (str ''border-left:'') (str ''padding-inline-start:'') = []"
  "\<not> startsInside (str ''border-right:'') (str ''padding-inline-start:'')"
  "straddlePoints (str ''border-right:'') (str ''padding-inline-start:'') = []"
  "\<not> startsInside (str ''left:'') (str ''padding-inline-start:'')"
  "straddlePoints (str ''left:'') (str ''padding-inline-start:'') = []"
  "\<not> startsInside (str ''right:'') (str ''padding-inline-start:'')"
  "straddlePoints (str ''right:'') (str ''padding-inline-start:'') = []"
  by code_simp+

lemma literals_pass_padding_inline_start:
  "replaceAllBy (matchLiteral (str ''padding-right:'')) R (x @ str ''padding-inline-start:'' @ y)
     = replaceAllBy (matchLiteral (str ''padding-right:'')) R x @ str ''padding-inline-start:''
       @ replaceAllBy (matchLiteral (str ''padding-right:'')) R y"
  "replaceAllBy (matchLiteral (str ''border-left:'')) R (x @ str ''padding-inline-start:'' @ y)
     = replaceAllBy (matchLiteral (str ''border-left:'')) R x @ str ''padding-inline-start:''
       @ replaceAllBy (matchLiteral (str ''border-left:'')) R y"
  "replaceAllBy (matchLiteral (str ''border-right:'')) R (x @ str ''padding-inline-start:'' @ y)
     = replaceAllBy (matchLiteral (str ''border-right:'')) R x @ str ''padding-inline-start:''
       @ replaceAllBy (matchLiteral (str ''border-right:'')) R y"
  "replaceAllBy (matchLiteral (str ''left:'')) R (x @ str ''padding-inline-start:'' @ y)
     = replaceAllBy (matchLiteral (str ''left:'')) R x @ str ''padding-inline-start:''
       @ replaceAllBy (matchLiteral (str ''left:'')) R y"
  "replaceAllBy (matchLiteral (str ''right:'')) R (x @ str ''padding-inline-start:'' @ y)
     = replaceAllBy (matchLiteral (str ''right:'')) R x @ str ''padding-inline-start:''
       @ replaceAllBy (matchLiteral (str ''right:'')) R y"
  by (rule literal_pass_free; rule patterns_not_empty avoid_padding_inline_start)+

lemma textAlign_avoid_padding_inline_start:
  "straddlePoints (str ''text-align:'') (str ''padding-inline-start:'') = []"
  "\<not> startsInside (str ''text-align:'') (str ''padding-inline-start:'')"
  "straddlePoints (str ''left'') (str ''padding-inline-start:'') = []"
  "\<not> prefix (str ''left'') (str ''padding-inline-start:'')"
  "\<not> prefix (str ''padding-inline-start:'') (str ''left'')"
  "straddlePoints (str ''right'') (str ''padding-inline-start:'') = []"
  "\<not> prefix (str ''right'') (str ''padding-inline-start:'')"
  "\<not> prefix (str ''padding-inline-start:'') (str ''right'')"
  by code_simp+

lemma textAlign_avoid_padding_inline_start_head:
  "str ''padding-inline-start:'' \<noteq> []" "\<not> isWhiteSpace (hd (str ''padding-inline-start:''))"
  by (simp_all add: str_def isWhiteSpace_def)

lemma textAlign_pass_padding_inline_start:
  "replaceAllBy (matchTextAlign (str ''left'')) R (x @ str ''padding-inline-start:'' @ y)
     = replaceAllBy (matchTextAlign (str ''left'')) R x @ str ''padding-inline-start:''
       @ replaceAllBy (matchTextAlign (str ''left'')) R y"
  "replaceAllBy (matchTextAlign (str ''right'')) R (x @ str ''padding-inline-start:'' @ y)
     = replaceAllBy (matchTextAlign (str ''right'')) R x @ str ''padding-inline-start:''
       @ replaceAllBy (matchTextAlign (str ''right'')) R y"
  by (rule textAlign_pass; rule patterns_not_empty textAlign_avoid_padding_inline_start textAlign_avoid_padding_inline_start_head)+

lemma rtlSubstitute_padding_left:
  "rtlSubstitute (x @ str ''padding-left:'' @ y)
     = rtlSubstitute x @ str ''padding-inline-start:'' @ rtlSubstitute y"
  by (simp only: rtlSubstitute_def Let_def literals_pass_padding_left hit_padding_left literals_pass_padding_inline_start textAlign_pass_padding_inline_start)

lemma avoid_padding_right:
  "\<not> startsInside (str ''margin-left:'') (str ''padding-right:'')"
  "straddlePoints (str ''margin-left:'') (str ''padding-right:'') = []"
  "\<not> startsInside (str ''margin-right:'') (str ''padding-right:'')"
  "straddlePoints (str ''margin-right:'') (str ''padding-right:'') = []"
  "\<not> startsInside (str ''padding-left:'') (str ''padding-right:'')"
  "straddlePoints (str ''padding-left:'') (str ''padding-right:'') = []"
  by code_simp+

lemma literals_pass_padding_right:
  "replaceAllBy (matchLiteral (str ''margin-left:'')) R (x @ str ''padding-right:'' @ y)
     = replaceAllBy (matchLiteral (str ''margin-left:'')) R x @ str ''padding-right:''
       @ replaceAllBy (matchLiteral (str ''margin-left:'')) R y"
  "replaceAllBy (matchLiteral (str ''margin-right:'')) R (x @ str ''padding-right:'' @ y)
     = replaceAllBy (matchLiteral (str ''margin-right:'')) R x @ str ''padding-right:''
       @ replaceAllBy (matchLiteral (str ''margin-right:'')) R y"
  "replaceAllBy (matchLiteral (str ''padding-left:'')) R (x @ str ''padding-right:'' @ y)
     = replaceAllBy (matchLiteral (str ''padding-left:'')) R x @ str ''padding-right:''
       @ replaceAllBy (matchLiteral (str ''padding-left:'')) R y"
  by (rule literal_pass_free; rule patterns_not_empty avoid_padding_right)+

lemma hit_padding_right:
  "replaceAllBy (matchLiteral (str ''padding-right:'')) R (x @ str ''padding-right:'' @ y)
     = replaceAllBy (matchLiteral (str ''padding-right:'')) R x @ R
       @ replaceAllBy (matchLiteral (str ''padding-right:'')) R y"
  by (rule literal_hit_free; rule patterns_not_empty patterns_unbordered)

lemma avoid_padding_inline_end:
  "\<not> startsInside (str ''border-left:'') (str ''padding-inline-end:'')"
  "straddlePoints (str ''border-left:'') (str ''padding-inline-end:'') = []"
  "\<not> startsInside (str ''border-right:'') (str ''padding-inline-end:'')"
  "straddlePoints (str ''border-right:'') (str ''padding-inline-end:'') = []"
  "\<not> startsInside (str ''left:'') (str ''padding-inline-end:'')"
  "straddlePoints (str ''left:'') (str ''padding-inline-end:'') = []"
  "\<not> startsInside (str ''right:'') (str ''padding-inline-end:'')"
  "straddlePoints (str ''right:'') (str ''padding-inline-end:'') = []"
  by code_simp+

lemma literals_pass_padding_inline_end:
  "replaceAllBy (matchLiteral (str ''border-left:'')) R (x @ str ''padding-inline-end:'' @ y)
     = replaceAllBy (matchLiteral (str ''border-left:'')) R x @ str ''padding-inline-end:''
       @ replaceAllBy (matchLiteral (str ''border-left:'')) R y"
  "replaceAllBy (matchLiteral (str ''border-right:'')) R (x @ str ''padding-inline-end:'' @ y)
     = replaceAllBy (matchLiteral (str ''border-right:'')) R x @ str ''padding-inline-end:''
       @ replaceAllBy (matchLiteral (str ''border-right:'')) R y"
  "replaceAllBy (matchLiteral (str ''left:'')) R (x @ str ''padding-inline-end:'' @ y)
     = replaceAllBy (matchLiteral (str ''left:'')) R x @ str ''padding-inline-end:''
       @ replaceAllBy (matchLiteral (str ''left:'')) R y"
  "replaceAllBy (matchLiteral (str ''right:'')) R (x @ str ''padding-inline-end:'' @ y)
     = replaceAllBy (matchLiteral (str ''right:'')) R x @ str ''padding-inline-end:''
       @ replaceAllBy (matchLiteral (str ''right:'')) R y"
  by (rule literal_pass_free; rule patterns_not_empty avoid_padding_inline_end)+

lemma textAlign_avoid_padding_inline_end:
  "straddlePoints (str ''text-align:'') (str ''padding-inline-end:'') = []"
  "\<not> startsInside (str ''text-align:'') (str ''padding-inline-end:'')"
  "straddlePoints (str ''left'') (str ''padding-inline-end:'') = []"
  "\<not> prefix (str ''left'') (str ''padding-inline-end:'')"
  "\<not> prefix (str ''padding-inline-end:'') (str ''left'')"
  "straddlePoints (str ''right'') (str ''padding-inline-end:'') = []"
  "\<not> prefix (str ''right'') (str ''padding-inline-end:'')"
  "\<not> prefix (str ''padding-inline-end:'') (str ''right'')"
  by code_simp+

lemma textAlign_avoid_padding_inline_end_head:
  "str ''padding-inline-end:'' \<noteq> []" "\<not> isWhiteSpace (hd (str ''padding-inline-end:''))"
  by (simp_all add: str_def isWhiteSpace_def)

lemma textAlign_pass_padding_inline_end:
  "replaceAllBy (matchTextAlign (str ''left'')) R (x @ str ''padding-inline-end:'' @ y)
     = replaceAllBy (matchTextAlign (str ''left'')) R x @ str ''padding-inline-end:''
       @ replaceAllBy (matchTextAlign (str ''left'')) R y"
  "replaceAllBy (matchTextAlign (str ''right'')) R (x @ str ''padding-inline-end:'' @ y)
     = replaceAllBy (matchTextAlign (str ''right'')) R x @ str ''padding-inline-end:''
       @ replaceAllBy (matchTextAlign (str ''right'')) R y"
  by (rule textAlign_pass; rule patterns_not_empty textAlign_avoid_padding_inline_end textAlign_avoid_padding_inline_end_head)+

lemma rtlSubstitute_padding_right:
  "rtlSubstitute (x @ str ''padding-right:'' @ y)
     = rtlSubstitute x @ str ''padding-inline-end:'' @ rtlSubstitute y"
  by (simp only: rtlSubstitute_def Let_def literals_pass_padding_right hit_padding_right literals_pass_padding_inline_end textAlign_pass_padding_inline_end)

lemma avoid_border_left:
  "\<not> startsInside (str ''margin-left:'') (str ''border-left:'')"
  "straddlePoints (str ''margin-left:'') (str ''border-left:'') = []"
  "\<not> startsInside (str ''margin-right:'') (str ''border-left:'')"
  "straddlePoints (str ''margin-right:'') (str ''border-left:'') = []"
  "\<not> startsInside (str ''padding-left:'') (str ''border-left:'')"
  "straddlePoints (str ''padding-left:'') (str ''border-left:'') = []"
  "\<not> startsInside (str ''padding-right:'') (str ''border-left:'')"
  "straddlePoints (str ''padding-right:'') (str ''border-left:'') = []"
  by code_simp+

lemma literals_pass_border_left:
  "replaceAllBy (matchLiteral (str ''margin-left:'')) R (x @ str ''border-left:'' @ y)
     = replaceAllBy (matchLiteral (str ''margin-left:'')) R x @ str ''border-left:''
       @ replaceAllBy (matchLiteral (str ''margin-left:'')) R y"
  "replaceAllBy (matchLiteral (str ''margin-right:'')) R (x @ str ''border-left:'' @ y)
     = replaceAllBy (matchLiteral (str ''margin-right:'')) R x @ str ''border-left:''
       @ replaceAllBy (matchLiteral (str ''margin-right:'')) R y"
  "replaceAllBy (matchLiteral (str ''padding-left:'')) R (x @ str ''border-left:'' @ y)
     = replaceAllBy (matchLiteral (str ''padding-left:'')) R x @ str ''border-left:''
       @ replaceAllBy (matchLiteral (str ''padding-left:'')) R y"
  "replaceAllBy (matchLiteral (str ''padding-right:'')) R (x @ str ''border-left:'' @ y)
     = replaceAllBy (matchLiteral (str ''padding-right:'')) R x @ str ''border-left:''
       @ replaceAllBy (matchLiteral (str ''padding-right:'')) R y"
  by (rule literal_pass_free; rule patterns_not_empty avoid_border_left)+

lemma hit_border_left:
  "replaceAllBy (matchLiteral (str ''border-left:'')) R (x @ str ''border-left:'' @ y)
     = replaceAllBy (matchLiteral (str ''border-left:'')) R x @ R
       @ replaceAllBy (matchLiteral (str ''border-left:'')) R y"
  by (rule literal_hit_free; rule patterns_not_empty patterns_unbordered)

lemma avoid_border_inline_start:
  "\<not> startsInside (str ''border-right:'') (str ''border-inline-start:'')"
  "straddlePoints (str ''border-right:'') (str ''border-inline-start:'') = []"
  "\<not> startsInside (str ''left:'') (str ''border-inline-start:'')"
  "straddlePoints (str ''left:'') (str ''border-inline-start:'') = []"
  "\<not> startsInside (str ''right:'') (str ''border-inline-start:'')"
  "straddlePoints (str ''right:'') (str ''border-inline-start:'') = []"
  by code_simp+

lemma literals_pass_border_inline_start:
  "replaceAllBy (matchLiteral (str ''border-right:'')) R (x @ str ''border-inline-start:'' @ y)
     = replaceAllBy (matchLiteral (str ''border-right:'')) R x @ str ''border-inline-start:''
       @ replaceAllBy (matchLiteral (str ''border-right:'')) R y"
  "replaceAllBy (matchLiteral (str ''left:'')) R (x @ str ''border-inline-start:'' @ y)
     = replaceAllBy (matchLiteral (str ''left:'')) R x @ str ''border-inline-start:''
       @ replaceAllBy (matchLiteral (str ''left:'')) R y"
  "replaceAllBy (matchLiteral (str ''right:'')) R (x @ str ''border-inline-start:'' @ y)
     = replaceAllBy (matchLiteral (str ''right:'')) R x @ str ''border-inline-start:''
       @ replaceAllBy (matchLiteral (str ''right:'')) R y"
  by (rule literal_pass_free; rule patterns_not_empty avoid_border_inline_start)+

lemma textAlign_avoid_border_inline_start:
  "straddlePoints (str ''text-align:'') (str ''border-inline-start:'') = []"
  "\<not> startsInside (str ''text-align:'') (str ''border-inline-start:'')"
  "straddlePoints (str ''left'') (str ''border-inline-start:'') = []"
  "\<not> prefix (str ''left'') (str ''border-inline-start:'')"
  "\<not> prefix (str ''border-inline-start:'') (str ''left'')"
  "straddlePoints (str ''right'') (str ''border-inline-start:'') = []"
  "\<not> prefix (str ''right'') (str ''border-inline-start:'')"
  "\<not> prefix (str ''border-inline-start:'') (str ''right'')"
  by code_simp+

lemma textAlign_avoid_border_inline_start_head:
  "str ''border-inline-start:'' \<noteq> []" "\<not> isWhiteSpace (hd (str ''border-inline-start:''))"
  by (simp_all add: str_def isWhiteSpace_def)

lemma textAlign_pass_border_inline_start:
  "replaceAllBy (matchTextAlign (str ''left'')) R (x @ str ''border-inline-start:'' @ y)
     = replaceAllBy (matchTextAlign (str ''left'')) R x @ str ''border-inline-start:''
       @ replaceAllBy (matchTextAlign (str ''left'')) R y"
  "replaceAllBy (matchTextAlign (str ''right'')) R (x @ str ''border-inline-start:'' @ y)
     = replaceAllBy (matchTextAlign (str ''right'')) R x @ str ''border-inline-start:''
       @ replaceAllBy (matchTextAlign (str ''right'')) R y"
  by (rule textAlign_pass; rule patterns_not_empty textAlign_avoid_border_inline_start textAlign_avoid_border_inline_start_head)+

lemma rtlSubstitute_border_left:
  "rtlSubstitute (x @ str ''border-left:'' @ y)
     = rtlSubstitute x @ str ''border-inline-start:'' @ rtlSubstitute y"
  by (simp only: rtlSubstitute_def Let_def literals_pass_border_left hit_border_left literals_pass_border_inline_start textAlign_pass_border_inline_start)

lemma avoid_border_right:
  "\<not> startsInside (str ''margin-left:'') (str ''border-right:'')"
  "straddlePoints (str ''margin-left:'') (str ''border-right:'') = []"
  "\<not> startsInside (str ''margin-right:'') (str ''border-right:'')"
  "straddlePoints (str ''margin-right:'') (str ''border-right:'') = []"
  "\<not> startsInside (str ''padding-left:'') (str ''border-right:'')"
  "straddlePoints (str ''padding-left:'') (str ''border-right:'') = []"
  "\<not> startsInside (str ''padding-right:'') (str ''border-right:'')"
  "straddlePoints (str ''padding-right:'') (str ''border-right:'') = []"
  "\<not> startsInside (str ''border-left:'') (str ''border-right:'')"
  "straddlePoints (str ''border-left:'') (str ''border-right:'') = []"
  by code_simp+

lemma literals_pass_border_right:
  "replaceAllBy (matchLiteral (str ''margin-left:'')) R (x @ str ''border-right:'' @ y)
     = replaceAllBy (matchLiteral (str ''margin-left:'')) R x @ str ''border-right:''
       @ replaceAllBy (matchLiteral (str ''margin-left:'')) R y"
  "replaceAllBy (matchLiteral (str ''margin-right:'')) R (x @ str ''border-right:'' @ y)
     = replaceAllBy (matchLiteral (str ''margin-right:'')) R x @ str ''border-right:''
       @ replaceAllBy (matchLiteral (str ''margin-right:'')) R y"
  "replaceAllBy (matchLiteral (str ''padding-left:'')) R (x @ str ''border-right:'' @ y)
     = replaceAllBy (matchLiteral (str ''padding-left:'')) R x @ str ''border-right:''
       @ replaceAllBy (matchLiteral (str ''padding-left:'')) R y"
  "replaceAllBy (matchLiteral (str ''padding-right:'')) R (x @ str ''border-right:'' @ y)
     = replaceAllBy (matchLiteral (str ''padding-right:'')) R x @ str ''border-right:''
       @ replaceAllBy (matchLiteral (str ''padding-right:'')) R y"
  "replaceAllBy (matchLiteral (str ''border-left:'')) R (x @ str ''border-right:'' @ y)
     = replaceAllBy (matchLiteral (str ''border-left:'')) R x @ str ''border-right:''
       @ replaceAllBy (matchLiteral (str ''border-left:'')) R y"
  by (rule literal_pass_free; rule patterns_not_empty avoid_border_right)+

lemma hit_border_right:
  "replaceAllBy (matchLiteral (str ''border-right:'')) R (x @ str ''border-right:'' @ y)
     = replaceAllBy (matchLiteral (str ''border-right:'')) R x @ R
       @ replaceAllBy (matchLiteral (str ''border-right:'')) R y"
  by (rule literal_hit_free; rule patterns_not_empty patterns_unbordered)

lemma avoid_border_inline_end:
  "\<not> startsInside (str ''left:'') (str ''border-inline-end:'')"
  "straddlePoints (str ''left:'') (str ''border-inline-end:'') = []"
  "\<not> startsInside (str ''right:'') (str ''border-inline-end:'')"
  "straddlePoints (str ''right:'') (str ''border-inline-end:'') = []"
  by code_simp+

lemma literals_pass_border_inline_end:
  "replaceAllBy (matchLiteral (str ''left:'')) R (x @ str ''border-inline-end:'' @ y)
     = replaceAllBy (matchLiteral (str ''left:'')) R x @ str ''border-inline-end:''
       @ replaceAllBy (matchLiteral (str ''left:'')) R y"
  "replaceAllBy (matchLiteral (str ''right:'')) R (x @ str ''border-inline-end:'' @ y)
     = replaceAllBy (matchLiteral (str ''right:'')) R x @ str ''border-inline-end:''
       @ replaceAllBy (matchLiteral (str ''right:'')) R y"
  by (rule literal_pass_free; rule patterns_not_empty avoid_border_inline_end)+

lemma textAlign_avoid_border_inline_end:
  "straddlePoints (str ''text-align:'') (str ''border-inline-end:'') = []"
  "\<not> startsInside (str ''text-align:'') (str ''border-inline-end:'')"
  "straddlePoints (str ''left'') (str ''border-inline-end:'') = []"
  "\<not> prefix (str ''left'') (str ''border-inline-end:'')"
  "\<not> prefix (str ''border-inline-end:'') (str ''left'')"
  "straddlePoints (str ''right'') (str ''border-inline-end:'') = []"
  "\<not> prefix (str ''right'') (str ''border-inline-end:'')"
  "\<not> prefix (str ''border-inline-end:'') (str ''right'')"
  by code_simp+

lemma textAlign_avoid_border_inline_end_head:
  "str ''border-inline-end:'' \<noteq> []" "\<not> isWhiteSpace (hd (str ''border-inline-end:''))"
  by (simp_all add: str_def isWhiteSpace_def)

lemma textAlign_pass_border_inline_end:
  "replaceAllBy (matchTextAlign (str ''left'')) R (x @ str ''border-inline-end:'' @ y)
     = replaceAllBy (matchTextAlign (str ''left'')) R x @ str ''border-inline-end:''
       @ replaceAllBy (matchTextAlign (str ''left'')) R y"
  "replaceAllBy (matchTextAlign (str ''right'')) R (x @ str ''border-inline-end:'' @ y)
     = replaceAllBy (matchTextAlign (str ''right'')) R x @ str ''border-inline-end:''
       @ replaceAllBy (matchTextAlign (str ''right'')) R y"
  by (rule textAlign_pass; rule patterns_not_empty textAlign_avoid_border_inline_end textAlign_avoid_border_inline_end_head)+

lemma rtlSubstitute_border_right:
  "rtlSubstitute (x @ str ''border-right:'' @ y)
     = rtlSubstitute x @ str ''border-inline-end:'' @ rtlSubstitute y"
  by (simp only: rtlSubstitute_def Let_def literals_pass_border_right hit_border_right literals_pass_border_inline_end textAlign_pass_border_inline_end)

lemma avoid_left:
  "\<not> startsInside (str ''margin-right:'') (str ''left:'')"
  "straddlePoints (str ''margin-right:'') (str ''left:'') = []"
  "\<not> startsInside (str ''padding-right:'') (str ''left:'')"
  "straddlePoints (str ''padding-right:'') (str ''left:'') = []"
  "\<not> startsInside (str ''border-right:'') (str ''left:'')"
  "straddlePoints (str ''border-right:'') (str ''left:'') = []"
  by code_simp+

lemma literals_pass_left:
  "replaceAllBy (matchLiteral (str ''margin-right:'')) R (x @ str ''left:'' @ y)
     = replaceAllBy (matchLiteral (str ''margin-right:'')) R x @ str ''left:''
       @ replaceAllBy (matchLiteral (str ''margin-right:'')) R y"
  "replaceAllBy (matchLiteral (str ''padding-right:'')) R (x @ str ''left:'' @ y)
     = replaceAllBy (matchLiteral (str ''padding-right:'')) R x @ str ''left:''
       @ replaceAllBy (matchLiteral (str ''padding-right:'')) R y"
  "replaceAllBy (matchLiteral (str ''border-right:'')) R (x @ str ''left:'' @ y)
     = replaceAllBy (matchLiteral (str ''border-right:'')) R x @ str ''left:''
       @ replaceAllBy (matchLiteral (str ''border-right:'')) R y"
  by (rule literal_pass_free; rule patterns_not_empty avoid_left)+

lemma behind_left:
  "\<not> startsInside (str ''margin-left:'') (str ''left:'')"
  "straddlePoints (str ''margin-left:'') (str ''left:'') = [7]"
  "take 7 (str ''margin-left:'') = str ''margin-''"
  "\<not> startsInside (str ''padding-left:'') (str ''left:'')"
  "straddlePoints (str ''padding-left:'') (str ''left:'') = [8]"
  "take 8 (str ''padding-left:'') = str ''padding-''"
  "\<not> startsInside (str ''border-left:'') (str ''left:'')"
  "straddlePoints (str ''border-left:'') (str ''left:'') = [7]"
  "take 7 (str ''border-left:'') = str ''border-''"
  by code_simp+

lemma literals_pass_behind_left:
  "\<not> suffix (str ''margin-'') x \<Longrightarrow>
   replaceAllBy (matchLiteral (str ''margin-left:'')) R (x @ str ''left:'' @ y)
     = replaceAllBy (matchLiteral (str ''margin-left:'')) R x @ str ''left:''
       @ replaceAllBy (matchLiteral (str ''margin-left:'')) R y"
  "\<not> suffix (str ''padding-'') x \<Longrightarrow>
   replaceAllBy (matchLiteral (str ''padding-left:'')) R (x @ str ''left:'' @ y)
     = replaceAllBy (matchLiteral (str ''padding-left:'')) R x @ str ''left:''
       @ replaceAllBy (matchLiteral (str ''padding-left:'')) R y"
  "\<not> suffix (str ''border-'') x \<Longrightarrow>
   replaceAllBy (matchLiteral (str ''border-left:'')) R (x @ str ''left:'' @ y)
     = replaceAllBy (matchLiteral (str ''border-left:'')) R x @ str ''left:''
       @ replaceAllBy (matchLiteral (str ''border-left:'')) R y"
  by (rule literal_pass_behind; (rule patterns_not_empty behind_left | assumption))+

lemma hit_left:
  "replaceAllBy (matchLiteral (str ''left:'')) R (x @ str ''left:'' @ y)
     = replaceAllBy (matchLiteral (str ''left:'')) R x @ R
       @ replaceAllBy (matchLiteral (str ''left:'')) R y"
  by (rule literal_hit_free; rule patterns_not_empty patterns_unbordered)

lemma avoid_inset_inline_start:
  "\<not> startsInside (str ''right:'') (str ''inset-inline-start:'')"
  "straddlePoints (str ''right:'') (str ''inset-inline-start:'') = []"
  by code_simp+

lemma literals_pass_inset_inline_start:
  "replaceAllBy (matchLiteral (str ''right:'')) R (x @ str ''inset-inline-start:'' @ y)
     = replaceAllBy (matchLiteral (str ''right:'')) R x @ str ''inset-inline-start:''
       @ replaceAllBy (matchLiteral (str ''right:'')) R y"
  by (rule literal_pass_free; rule patterns_not_empty avoid_inset_inline_start)+

lemma textAlign_avoid_inset_inline_start:
  "straddlePoints (str ''text-align:'') (str ''inset-inline-start:'') = []"
  "\<not> startsInside (str ''text-align:'') (str ''inset-inline-start:'')"
  "straddlePoints (str ''left'') (str ''inset-inline-start:'') = []"
  "\<not> prefix (str ''left'') (str ''inset-inline-start:'')"
  "\<not> prefix (str ''inset-inline-start:'') (str ''left'')"
  "straddlePoints (str ''right'') (str ''inset-inline-start:'') = []"
  "\<not> prefix (str ''right'') (str ''inset-inline-start:'')"
  "\<not> prefix (str ''inset-inline-start:'') (str ''right'')"
  by code_simp+

lemma textAlign_avoid_inset_inline_start_head:
  "str ''inset-inline-start:'' \<noteq> []" "\<not> isWhiteSpace (hd (str ''inset-inline-start:''))"
  by (simp_all add: str_def isWhiteSpace_def)

lemma textAlign_pass_inset_inline_start:
  "replaceAllBy (matchTextAlign (str ''left'')) R (x @ str ''inset-inline-start:'' @ y)
     = replaceAllBy (matchTextAlign (str ''left'')) R x @ str ''inset-inline-start:''
       @ replaceAllBy (matchTextAlign (str ''left'')) R y"
  "replaceAllBy (matchTextAlign (str ''right'')) R (x @ str ''inset-inline-start:'' @ y)
     = replaceAllBy (matchTextAlign (str ''right'')) R x @ str ''inset-inline-start:''
       @ replaceAllBy (matchTextAlign (str ''right'')) R y"
  by (rule textAlign_pass; rule patterns_not_empty textAlign_avoid_inset_inline_start textAlign_avoid_inset_inline_start_head)+

lemma rtlSubstitute_left:
  assumes "standalone x"
  shows "rtlSubstitute (x @ str ''left:'' @ y)
     = rtlSubstitute x @ str ''inset-inline-start:'' @ rtlSubstitute y"
proof -
  let ?s1 = "replaceAllBy (matchLiteral (str ''margin-left:'')) (str ''margin-inline-start:'')"
  let ?s2 = "replaceAllBy (matchLiteral (str ''margin-right:'')) (str ''margin-inline-end:'')"
  let ?s3 = "replaceAllBy (matchLiteral (str ''padding-left:'')) (str ''padding-inline-start:'')"
  let ?s4 = "replaceAllBy (matchLiteral (str ''padding-right:'')) (str ''padding-inline-end:'')"
  let ?s5 = "replaceAllBy (matchLiteral (str ''border-left:'')) (str ''border-inline-start:'')"
  let ?s6 = "replaceAllBy (matchLiteral (str ''border-right:'')) (str ''border-inline-end:'')"
  from assms have m0: "\<not> suffix (str ''margin-'') x" and p0: "\<not> suffix (str ''padding-'') x"
    and b0: "\<not> suffix (str ''border-'') x"
    by (simp_all add: standalone_def)
  have m1: "\<not> suffix (str ''margin-'') (?s1 (x))"
    by (rule replaceAllBy_keeps_end [OF m0]; rule prefixes_without_colon replacements_end_with_colon)
  have m2: "\<not> suffix (str ''margin-'') (?s2 (?s1 (x)))"
    by (rule replaceAllBy_keeps_end [OF m1]; rule prefixes_without_colon replacements_end_with_colon)
  have m3: "\<not> suffix (str ''margin-'') (?s3 (?s2 (?s1 (x))))"
    by (rule replaceAllBy_keeps_end [OF m2]; rule prefixes_without_colon replacements_end_with_colon)
  have m4: "\<not> suffix (str ''margin-'') (?s4 (?s3 (?s2 (?s1 (x)))))"
    by (rule replaceAllBy_keeps_end [OF m3]; rule prefixes_without_colon replacements_end_with_colon)
  have m5: "\<not> suffix (str ''margin-'') (?s5 (?s4 (?s3 (?s2 (?s1 (x))))))"
    by (rule replaceAllBy_keeps_end [OF m4]; rule prefixes_without_colon replacements_end_with_colon)
  have p1: "\<not> suffix (str ''padding-'') (?s1 (x))"
    by (rule replaceAllBy_keeps_end [OF p0]; rule prefixes_without_colon replacements_end_with_colon)
  have p2: "\<not> suffix (str ''padding-'') (?s2 (?s1 (x)))"
    by (rule replaceAllBy_keeps_end [OF p1]; rule prefixes_without_colon replacements_end_with_colon)
  have p3: "\<not> suffix (str ''padding-'') (?s3 (?s2 (?s1 (x))))"
    by (rule replaceAllBy_keeps_end [OF p2]; rule prefixes_without_colon replacements_end_with_colon)
  have p4: "\<not> suffix (str ''padding-'') (?s4 (?s3 (?s2 (?s1 (x)))))"
    by (rule replaceAllBy_keeps_end [OF p3]; rule prefixes_without_colon replacements_end_with_colon)
  have p5: "\<not> suffix (str ''padding-'') (?s5 (?s4 (?s3 (?s2 (?s1 (x))))))"
    by (rule replaceAllBy_keeps_end [OF p4]; rule prefixes_without_colon replacements_end_with_colon)
  have b1: "\<not> suffix (str ''border-'') (?s1 (x))"
    by (rule replaceAllBy_keeps_end [OF b0]; rule prefixes_without_colon replacements_end_with_colon)
  have b2: "\<not> suffix (str ''border-'') (?s2 (?s1 (x)))"
    by (rule replaceAllBy_keeps_end [OF b1]; rule prefixes_without_colon replacements_end_with_colon)
  have b3: "\<not> suffix (str ''border-'') (?s3 (?s2 (?s1 (x))))"
    by (rule replaceAllBy_keeps_end [OF b2]; rule prefixes_without_colon replacements_end_with_colon)
  have b4: "\<not> suffix (str ''border-'') (?s4 (?s3 (?s2 (?s1 (x)))))"
    by (rule replaceAllBy_keeps_end [OF b3]; rule prefixes_without_colon replacements_end_with_colon)
  have b5: "\<not> suffix (str ''border-'') (?s5 (?s4 (?s3 (?s2 (?s1 (x))))))"
    by (rule replaceAllBy_keeps_end [OF b4]; rule prefixes_without_colon replacements_end_with_colon)
  have e1: "?s1 (x @ str ''left:'' @ y) = ?s1 (x) @ str ''left:'' @ ?s1 (y)"
    using m0 by (rule literals_pass_behind_left)
  have e2: "?s2 (?s1 (x) @ str ''left:'' @ ?s1 (y)) = ?s2 (?s1 (x)) @ str ''left:'' @ ?s2 (?s1 (y))"
    by (rule literals_pass_left)
  have e3: "?s3 (?s2 (?s1 (x)) @ str ''left:'' @ ?s2 (?s1 (y))) = ?s3 (?s2 (?s1 (x))) @ str ''left:'' @ ?s3 (?s2 (?s1 (y)))"
    using p2 by (rule literals_pass_behind_left)
  have e4: "?s4 (?s3 (?s2 (?s1 (x))) @ str ''left:'' @ ?s3 (?s2 (?s1 (y)))) = ?s4 (?s3 (?s2 (?s1 (x)))) @ str ''left:'' @ ?s4 (?s3 (?s2 (?s1 (y))))"
    by (rule literals_pass_left)
  have e5: "?s5 (?s4 (?s3 (?s2 (?s1 (x)))) @ str ''left:'' @ ?s4 (?s3 (?s2 (?s1 (y))))) = ?s5 (?s4 (?s3 (?s2 (?s1 (x))))) @ str ''left:'' @ ?s5 (?s4 (?s3 (?s2 (?s1 (y)))))"
    using b4 by (rule literals_pass_behind_left)
  have e6: "?s6 (?s5 (?s4 (?s3 (?s2 (?s1 (x))))) @ str ''left:'' @ ?s5 (?s4 (?s3 (?s2 (?s1 (y)))))) = ?s6 (?s5 (?s4 (?s3 (?s2 (?s1 (x)))))) @ str ''left:'' @ ?s6 (?s5 (?s4 (?s3 (?s2 (?s1 (y))))))"
    by (rule literals_pass_left)
  show ?thesis
    by (simp only: rtlSubstitute_def Let_def e1 e2 e3 e4 e5 e6 hit_left textAlign_pass_inset_inline_start literals_pass_left literals_pass_inset_inline_start)
qed

lemma avoid_right:
  "\<not> startsInside (str ''margin-left:'') (str ''right:'')"
  "straddlePoints (str ''margin-left:'') (str ''right:'') = []"
  "\<not> startsInside (str ''padding-left:'') (str ''right:'')"
  "straddlePoints (str ''padding-left:'') (str ''right:'') = []"
  "\<not> startsInside (str ''border-left:'') (str ''right:'')"
  "straddlePoints (str ''border-left:'') (str ''right:'') = []"
  "\<not> startsInside (str ''left:'') (str ''right:'')"
  "straddlePoints (str ''left:'') (str ''right:'') = []"
  by code_simp+

lemma literals_pass_right:
  "replaceAllBy (matchLiteral (str ''margin-left:'')) R (x @ str ''right:'' @ y)
     = replaceAllBy (matchLiteral (str ''margin-left:'')) R x @ str ''right:''
       @ replaceAllBy (matchLiteral (str ''margin-left:'')) R y"
  "replaceAllBy (matchLiteral (str ''padding-left:'')) R (x @ str ''right:'' @ y)
     = replaceAllBy (matchLiteral (str ''padding-left:'')) R x @ str ''right:''
       @ replaceAllBy (matchLiteral (str ''padding-left:'')) R y"
  "replaceAllBy (matchLiteral (str ''border-left:'')) R (x @ str ''right:'' @ y)
     = replaceAllBy (matchLiteral (str ''border-left:'')) R x @ str ''right:''
       @ replaceAllBy (matchLiteral (str ''border-left:'')) R y"
  "replaceAllBy (matchLiteral (str ''left:'')) R (x @ str ''right:'' @ y)
     = replaceAllBy (matchLiteral (str ''left:'')) R x @ str ''right:''
       @ replaceAllBy (matchLiteral (str ''left:'')) R y"
  by (rule literal_pass_free; rule patterns_not_empty avoid_right)+

lemma behind_right:
  "\<not> startsInside (str ''margin-right:'') (str ''right:'')"
  "straddlePoints (str ''margin-right:'') (str ''right:'') = [7]"
  "take 7 (str ''margin-right:'') = str ''margin-''"
  "\<not> startsInside (str ''padding-right:'') (str ''right:'')"
  "straddlePoints (str ''padding-right:'') (str ''right:'') = [8]"
  "take 8 (str ''padding-right:'') = str ''padding-''"
  "\<not> startsInside (str ''border-right:'') (str ''right:'')"
  "straddlePoints (str ''border-right:'') (str ''right:'') = [7]"
  "take 7 (str ''border-right:'') = str ''border-''"
  by code_simp+

lemma literals_pass_behind_right:
  "\<not> suffix (str ''margin-'') x \<Longrightarrow>
   replaceAllBy (matchLiteral (str ''margin-right:'')) R (x @ str ''right:'' @ y)
     = replaceAllBy (matchLiteral (str ''margin-right:'')) R x @ str ''right:''
       @ replaceAllBy (matchLiteral (str ''margin-right:'')) R y"
  "\<not> suffix (str ''padding-'') x \<Longrightarrow>
   replaceAllBy (matchLiteral (str ''padding-right:'')) R (x @ str ''right:'' @ y)
     = replaceAllBy (matchLiteral (str ''padding-right:'')) R x @ str ''right:''
       @ replaceAllBy (matchLiteral (str ''padding-right:'')) R y"
  "\<not> suffix (str ''border-'') x \<Longrightarrow>
   replaceAllBy (matchLiteral (str ''border-right:'')) R (x @ str ''right:'' @ y)
     = replaceAllBy (matchLiteral (str ''border-right:'')) R x @ str ''right:''
       @ replaceAllBy (matchLiteral (str ''border-right:'')) R y"
  by (rule literal_pass_behind; (rule patterns_not_empty behind_right | assumption))+

lemma hit_right:
  "replaceAllBy (matchLiteral (str ''right:'')) R (x @ str ''right:'' @ y)
     = replaceAllBy (matchLiteral (str ''right:'')) R x @ R
       @ replaceAllBy (matchLiteral (str ''right:'')) R y"
  by (rule literal_hit_free; rule patterns_not_empty patterns_unbordered)

lemma textAlign_avoid_inset_inline_end:
  "straddlePoints (str ''text-align:'') (str ''inset-inline-end:'') = []"
  "\<not> startsInside (str ''text-align:'') (str ''inset-inline-end:'')"
  "straddlePoints (str ''left'') (str ''inset-inline-end:'') = []"
  "\<not> prefix (str ''left'') (str ''inset-inline-end:'')"
  "\<not> prefix (str ''inset-inline-end:'') (str ''left'')"
  "straddlePoints (str ''right'') (str ''inset-inline-end:'') = []"
  "\<not> prefix (str ''right'') (str ''inset-inline-end:'')"
  "\<not> prefix (str ''inset-inline-end:'') (str ''right'')"
  by code_simp+

lemma textAlign_avoid_inset_inline_end_head:
  "str ''inset-inline-end:'' \<noteq> []" "\<not> isWhiteSpace (hd (str ''inset-inline-end:''))"
  by (simp_all add: str_def isWhiteSpace_def)

lemma textAlign_pass_inset_inline_end:
  "replaceAllBy (matchTextAlign (str ''left'')) R (x @ str ''inset-inline-end:'' @ y)
     = replaceAllBy (matchTextAlign (str ''left'')) R x @ str ''inset-inline-end:''
       @ replaceAllBy (matchTextAlign (str ''left'')) R y"
  "replaceAllBy (matchTextAlign (str ''right'')) R (x @ str ''inset-inline-end:'' @ y)
     = replaceAllBy (matchTextAlign (str ''right'')) R x @ str ''inset-inline-end:''
       @ replaceAllBy (matchTextAlign (str ''right'')) R y"
  by (rule textAlign_pass; rule patterns_not_empty textAlign_avoid_inset_inline_end textAlign_avoid_inset_inline_end_head)+

lemma rtlSubstitute_right:
  assumes "standalone x"
  shows "rtlSubstitute (x @ str ''right:'' @ y)
     = rtlSubstitute x @ str ''inset-inline-end:'' @ rtlSubstitute y"
proof -
  let ?s1 = "replaceAllBy (matchLiteral (str ''margin-left:'')) (str ''margin-inline-start:'')"
  let ?s2 = "replaceAllBy (matchLiteral (str ''margin-right:'')) (str ''margin-inline-end:'')"
  let ?s3 = "replaceAllBy (matchLiteral (str ''padding-left:'')) (str ''padding-inline-start:'')"
  let ?s4 = "replaceAllBy (matchLiteral (str ''padding-right:'')) (str ''padding-inline-end:'')"
  let ?s5 = "replaceAllBy (matchLiteral (str ''border-left:'')) (str ''border-inline-start:'')"
  let ?s6 = "replaceAllBy (matchLiteral (str ''border-right:'')) (str ''border-inline-end:'')"
  from assms have m0: "\<not> suffix (str ''margin-'') x" and p0: "\<not> suffix (str ''padding-'') x"
    and b0: "\<not> suffix (str ''border-'') x"
    by (simp_all add: standalone_def)
  have m1: "\<not> suffix (str ''margin-'') (?s1 (x))"
    by (rule replaceAllBy_keeps_end [OF m0]; rule prefixes_without_colon replacements_end_with_colon)
  have m2: "\<not> suffix (str ''margin-'') (?s2 (?s1 (x)))"
    by (rule replaceAllBy_keeps_end [OF m1]; rule prefixes_without_colon replacements_end_with_colon)
  have m3: "\<not> suffix (str ''margin-'') (?s3 (?s2 (?s1 (x))))"
    by (rule replaceAllBy_keeps_end [OF m2]; rule prefixes_without_colon replacements_end_with_colon)
  have m4: "\<not> suffix (str ''margin-'') (?s4 (?s3 (?s2 (?s1 (x)))))"
    by (rule replaceAllBy_keeps_end [OF m3]; rule prefixes_without_colon replacements_end_with_colon)
  have m5: "\<not> suffix (str ''margin-'') (?s5 (?s4 (?s3 (?s2 (?s1 (x))))))"
    by (rule replaceAllBy_keeps_end [OF m4]; rule prefixes_without_colon replacements_end_with_colon)
  have p1: "\<not> suffix (str ''padding-'') (?s1 (x))"
    by (rule replaceAllBy_keeps_end [OF p0]; rule prefixes_without_colon replacements_end_with_colon)
  have p2: "\<not> suffix (str ''padding-'') (?s2 (?s1 (x)))"
    by (rule replaceAllBy_keeps_end [OF p1]; rule prefixes_without_colon replacements_end_with_colon)
  have p3: "\<not> suffix (str ''padding-'') (?s3 (?s2 (?s1 (x))))"
    by (rule replaceAllBy_keeps_end [OF p2]; rule prefixes_without_colon replacements_end_with_colon)
  have p4: "\<not> suffix (str ''padding-'') (?s4 (?s3 (?s2 (?s1 (x)))))"
    by (rule replaceAllBy_keeps_end [OF p3]; rule prefixes_without_colon replacements_end_with_colon)
  have p5: "\<not> suffix (str ''padding-'') (?s5 (?s4 (?s3 (?s2 (?s1 (x))))))"
    by (rule replaceAllBy_keeps_end [OF p4]; rule prefixes_without_colon replacements_end_with_colon)
  have b1: "\<not> suffix (str ''border-'') (?s1 (x))"
    by (rule replaceAllBy_keeps_end [OF b0]; rule prefixes_without_colon replacements_end_with_colon)
  have b2: "\<not> suffix (str ''border-'') (?s2 (?s1 (x)))"
    by (rule replaceAllBy_keeps_end [OF b1]; rule prefixes_without_colon replacements_end_with_colon)
  have b3: "\<not> suffix (str ''border-'') (?s3 (?s2 (?s1 (x))))"
    by (rule replaceAllBy_keeps_end [OF b2]; rule prefixes_without_colon replacements_end_with_colon)
  have b4: "\<not> suffix (str ''border-'') (?s4 (?s3 (?s2 (?s1 (x)))))"
    by (rule replaceAllBy_keeps_end [OF b3]; rule prefixes_without_colon replacements_end_with_colon)
  have b5: "\<not> suffix (str ''border-'') (?s5 (?s4 (?s3 (?s2 (?s1 (x))))))"
    by (rule replaceAllBy_keeps_end [OF b4]; rule prefixes_without_colon replacements_end_with_colon)
  have e1: "?s1 (x @ str ''right:'' @ y) = ?s1 (x) @ str ''right:'' @ ?s1 (y)"
    by (rule literals_pass_right)
  have e2: "?s2 (?s1 (x) @ str ''right:'' @ ?s1 (y)) = ?s2 (?s1 (x)) @ str ''right:'' @ ?s2 (?s1 (y))"
    using m1 by (rule literals_pass_behind_right)
  have e3: "?s3 (?s2 (?s1 (x)) @ str ''right:'' @ ?s2 (?s1 (y))) = ?s3 (?s2 (?s1 (x))) @ str ''right:'' @ ?s3 (?s2 (?s1 (y)))"
    by (rule literals_pass_right)
  have e4: "?s4 (?s3 (?s2 (?s1 (x))) @ str ''right:'' @ ?s3 (?s2 (?s1 (y)))) = ?s4 (?s3 (?s2 (?s1 (x)))) @ str ''right:'' @ ?s4 (?s3 (?s2 (?s1 (y))))"
    using p3 by (rule literals_pass_behind_right)
  have e5: "?s5 (?s4 (?s3 (?s2 (?s1 (x)))) @ str ''right:'' @ ?s4 (?s3 (?s2 (?s1 (y))))) = ?s5 (?s4 (?s3 (?s2 (?s1 (x))))) @ str ''right:'' @ ?s5 (?s4 (?s3 (?s2 (?s1 (y)))))"
    by (rule literals_pass_right)
  have e6: "?s6 (?s5 (?s4 (?s3 (?s2 (?s1 (x))))) @ str ''right:'' @ ?s5 (?s4 (?s3 (?s2 (?s1 (y)))))) = ?s6 (?s5 (?s4 (?s3 (?s2 (?s1 (x)))))) @ str ''right:'' @ ?s6 (?s5 (?s4 (?s3 (?s2 (?s1 (y))))))"
    using b5 by (rule literals_pass_behind_right)
  show ?thesis
    by (simp only: rtlSubstitute_def Let_def e1 e2 e3 e4 e5 e6 hit_right textAlign_pass_inset_inline_end literals_pass_right)
qed

lemma includesStr_append: "includesStr (a @ b @ c) b"
proof (induction a)
  case Nil
  have "prefix b (b @ c)" by simp
  then show ?case by (cases "b @ c") auto
next
  case (Cons x a)
  then show ?case by simp
qed

lemma standalone_behind_colon:
  assumes "standalone t" "a \<noteq> []" "last a = 58"
  shows "standalone (a @ t)"
proof -
  have "\<not> suffix u (a @ t)" if "\<not> suffix u t" "58 \<notin> set u" for u
    using that assms(2,3) suffix_behind_colon [of u a t] by blast
  with assms(1) show ?thesis
    by (simp add: standalone_def prefixes_without_colon)
qed

lemma rtlSubstitute_plain:
  "rtlSubstitute (str ''.a{'') = str ''.a{''"
  "rtlSubstitute (str ''1px;'') = str ''1px;''"
  "rtlSubstitute (str ''2px}'') = str ''2px}''"
  by (simp_all add: rtlSubstitute_def matchLiteral_def matchTextAlign_def afterLiteral_def
        str_def Let_def)

section \<open>Lemmas on the directory watcher\<close>

text \<open>
  What the watcher does with one path that passes its two filters, by the state of the
  map of watched directories.
\<close>

lemma handlePath_cases:
  "suffix fx path \<Longrightarrow> \<not> includesStr (name (parse path)) (str ''.min'') \<Longrightarrow>
     (watchedDirectories w (dirKeyOf d fx) = None \<longrightarrow>
        handlePath e w d fx path
          = (Some (fst (processFile e w path True)), snd (processFile e w path True))
        \<and> watchedDirectories (snd (handlePath e w d fx path)) = watchedDirectories w
        \<and> timers (snd (handlePath e w d fx path)) = timers w)
   \<and> (\<forall>members. watchedDirectories w (dirKeyOf d fx) = Some members \<longrightarrow>
        (setHas members path \<longrightarrow> handlePath e w d fx path = (None, w))
        \<and> (\<not> setHas members path \<longrightarrow>
             fst (handlePath e w d fx path) \<noteq> None
             \<and> watchedDirectories (snd (handlePath e w d fx path))
                 = (watchedDirectories w)(dirKeyOf d fx \<mapsto> setAdd members path)
             \<and> timers (snd (handlePath e w d fx path))
                 = timers w @ [(dirKeyOf d fx, path)]))
   \<and> dom (watchedDirectories (snd (handlePath e w d fx path))) = dom (watchedDirectories w)
   \<and> watchedDirectories (snd (registerWatcher w d fx)) (dirKeyOf d fx) \<noteq> None"
  by (auto simp: handlePath_def registerWatcher_def Let_def insert_absorb domI
        split: prod.splits option.splits if_splits dest!: snd_eqD)

text \<open>An event of one path, and two events of two equal paths.\<close>

lemma handleEvent_single:
  "handleEvent e w d fx kind [path]
     = (if kind = Modify \<or> kind = Create
        then ([fst (handlePath e w d fx path)], snd (handlePath e w d fx path))
        else ([], w))"
  by (simp add: handleEvent_def split: prod.splits)

lemma handleEvent_twice:
  "fst (handleEvent plainEnv emptyWorld (str ''./assets/css'') (str ''.css'') Modify
          [str ''assets/css/a.css'', str ''assets/css/a.css''])
      = [Some (Bool False), Some (Bool False)]"
  "fst (handleEvent plainEnv
          (snd (registerWatcher emptyWorld (str ''./assets/css'') (str ''.css'')))
          (str ''./assets/css'') (str ''.css'') Modify
          [str ''assets/css/a.css'', str ''assets/css/a.css''])
      = [Some (Bool False), None]"
  by (simp_all add: handleEvent_def handlePath_def registerWatcher_def dirKeyOf_def
        processFile_def tryBody_def path_defs toLowerCase_def CSS_EXT_def JS_EXT_def
        readTextFile_def emptyWorld_def plainEnv_def notFound_def setHas_def setAdd_def
        setDelete_def say_def suffix_to_prefix Let_def)

section \<open>The claims\<close>

text \<open>
  C1. For every source path, the left-to-right and the right-to-left destination are
  different paths; each lies in the directory of the source (its \<open>dirname\<close> is the
  normalized \<open>dirname\<close> of the source); each is the directory of the source joined with
  the name of the source, the optional \<open>.rtl\<close>, \<open>.min\<close> and the extension of the source,
  and that file name is the last component of the destination, as the name and the
  extension are the last component of the source. \<open>getDestPath\<close> is a function of its
  two arguments alone.
\<close>

theorem getDestPath_in_directory:
  "getDestPath p False \<noteq> getDestPath p True
   \<and> dirname (getDestPath p r) = normalize (dirname p)
   \<and> getDestPath p r
       = join (dir (parse p))
           (name (parse p) @ (if r then str ''.rtl'' else []) @ str ''.min'' @ ext (parse p))
   \<and> base (parse (getDestPath p r))
       = name (parse p) @ (if r then str ''.rtl'' else []) @ str ''.min'' @ ext (parse p)
   \<and> base (parse p)
       = (if p \<noteq> [] \<and> name (parse p) @ ext (parse p) = [] then str ''/''
          else name (parse p) @ ext (parse p))"
proof -
  have c1: "getDestPath p False \<noteq> getDestPath p True"
    using getDestPath_distinct(1) [of p] by simp
  have c2: "dirname (getDestPath p r) = normalize (dirname p)"
    by (rule dirname_getDestPath)
  have c3: "getDestPath p r
       = join (dir (parse p))
           (name (parse p) @ (if r then str ''.rtl'' else []) @ str ''.min'' @ ext (parse p))"
    by (simp add: getDestPath_def RTL_CONFIG_def Let_def)
  have "base (parse (getDestPath p r)) = destFileName p r"
    unfolding getDestPath_eq
    by (rule base_parse_append)
      (simp_all add: destFileName_plain destFileName_noSep destDirPrefix_shape)
  then have c4: "base (parse (getDestPath p r))
       = name (parse p) @ (if r then str ''.rtl'' else []) @ str ''.min'' @ ext (parse p)"
    by (simp add: destFileName_def)
  note c5 = base_parse [of p]
  from c1 c2 c3 c4 c5 show ?thesis by blast
qed

text \<open>
  C2. \<open>isSourceNewer\<close> returns true exactly when the freshness rule of the
  specification says stale: the stat of the source fails, the main destination is
  missing, the right-to-left destination of a style sheet is missing, or the source is
  strictly newer than one of the destinations that are relevant. In particular it
  returns true whenever the stat of the source fails and whenever the main destination
  does not exist, whatever the modification time of the source.
\<close>

theorem isSourceNewer_iff_isStale:
  "fst (isSourceNewer st p) = isStale st p
   \<and> (missing st p \<longrightarrow> fst (isSourceNewer st p))
   \<and> (missing st (getDestPath p False) \<longrightarrow> fst (isSourceNewer st p))"
  by (auto simp: isSourceNewer_def isStale_def missing_def timeAt_def rtlRelevant_def
        RTL_CONFIG_def Let_def split: sum.splits)

theorem isSourceNewer_iff_isStale_witness:
  "missing (stat (files emptyWorld)) (str ''a.css'')
   \<and> missing (stat (files emptyWorld)) (getDestPath (str ''a.css'') False)
   \<and> fst (isSourceNewer (stat (files emptyWorld)) (str ''a.css''))"
proof -
  have m: "missing (stat (files emptyWorld)) (str ''a.css'')"
    by (simp add: missing_def stat_def emptyWorld_def)
  have d: "missing (stat (files emptyWorld)) (getDestPath (str ''a.css'') False)"
    by (simp add: missing_def stat_def emptyWorld_def)
  from m d isSourceNewer_iff_isStale [of "stat (files emptyWorld)" "str ''a.css''"]
  show ?thesis by blast
qed

text \<open>
  C3. After \<open>processFile\<close> returned true for a path, when no failure of the
  right-to-left stage was logged by the call (for a style sheet) and the clock of the
  writes of the call is not behind the time of the source, a call for the same path
  without force returns false, changes nothing and finds the source not newer: the
  first call has left the source as it was and has written each destination, with the
  time of one of its writes.
\<close>

theorem stale_after_success:
  assumes "processFile e w p force = (Bool True, w1)"
    and "rtlRelevant p \<longrightarrow> ErrorRtlFailed p \<notin> set (said w w1)"
    and "\<forall>n. writes w \<le> n \<and> n < writes w1 \<longrightarrow>
           timeAt (stat (files w)) p \<le> timeOf \<lparr>mtime = clock e n\<rparr>"
  shows "processFile e w1 p False = (Bool False, w1)
     \<and> \<not> fst (isSourceNewer (stat (files w1)) p)
     \<and> files w1 p = files w p
     \<and> \<not> missing (stat (files w1)) (getDestPath p False)
     \<and> timeAt (stat (files w1)) p \<le> timeAt (stat (files w1)) (getDestPath p False)
     \<and> (rtlRelevant p \<longrightarrow>
          \<not> missing (stat (files w1)) (getDestPath p True)
          \<and> timeAt (stat (files w1)) p \<le> timeAt (stat (files w1)) (getDestPath p True))"
proof -
  note s = processFile_success [OF assms(1)]
  have "\<not> setHas (processingFiles w) p"
    using assms(1) by (auto simp: processFile_def)
  moreover have "processingFiles w1 = processingFiles w"
    using processFile_processingFiles [of e w p force] assms(1) by simp
  ultimately have a: "\<not> setHas (processingFiles w1) p" by simp
  have src: "stat (files w1) p = stat (files w) p"
    using s(1) by (simp add: stat_def)
  have m: "\<not> missing (stat (files w1)) p"
    using s(2) src by (simp add: missing_def)
  obtain n where n: "writes w \<le> n" "n < writes w1"
    "stat (files w1) (getDestPath p False) = Inr \<lparr>mtime = clock e n\<rparr>"
    using s(3) by blast
  have d1: "\<not> missing (stat (files w1)) (getDestPath p False)"
    using n(3) by (simp add: missing_def)
  have d2: "timeAt (stat (files w1)) p \<le> timeAt (stat (files w1)) (getDestPath p False)"
    using n assms(3) src by (simp add: timeAt_def)
  have d3: "\<not> missing (stat (files w1)) (getDestPath p True)
          \<and> timeAt (stat (files w1)) p \<le> timeAt (stat (files w1)) (getDestPath p True)"
    if "rtlRelevant p"
  proof -
    from that assms(2) have "ErrorRtlFailed p \<notin> set (said w w1)" by simp
    from s(4) [OF that this] obtain k where k: "writes w \<le> k" "k < writes w1"
      "stat (files w1) (getDestPath p True) = Inr \<lparr>mtime = clock e k\<rparr>" by blast
    with assms(3) src show ?thesis by (simp add: missing_def timeAt_def)
  qed
  have "\<not> isStale (stat (files w1)) p"
    using m d1 d2 d3 by (auto simp: isStale_def)
  then have f: "\<not> fst (isSourceNewer (stat (files w1)) p)"
    using isSourceNewer_is_isStale [of "stat (files w1)" p] by simp
  have l: "snd (isSourceNewer (stat (files w1)) p) = []"
    using m by (auto simp: isSourceNewer_def missing_def Let_def split: sum.splits)
  from a f l have "processFile e w1 p False = (Bool False, w1)"
    by (cases "isSourceNewer (stat (files w1)) p") (simp add: processFile_def)
  with f s(1) d1 d2 d3 show ?thesis by blast
qed

theorem stale_after_success_witness:
  "processFile plainEnv styleWorld (str ''a.css'') True
     = (Bool True, snd (processFile plainEnv styleWorld (str ''a.css'') True))
   \<and> rtlRelevant (str ''a.css'')
   \<and> ErrorRtlFailed (str ''a.css'')
         \<notin> set (said styleWorld (snd (processFile plainEnv styleWorld (str ''a.css'') True)))
   \<and> timeAt (stat (files styleWorld)) (str ''a.css'') = 5
   \<and> processFile plainEnv (snd (processFile plainEnv styleWorld (str ''a.css'') True))
         (str ''a.css'') False
       = (Bool False, snd (processFile plainEnv styleWorld (str ''a.css'') True))
   \<and> timeAt (stat (files (snd (processFile plainEnv styleWorld (str ''a.css'') True))))
         (getDestPath (str ''a.css'') True) = 101"
proof -
  let ?p = "str ''a.css''"
  let ?w1 = "snd (processFile plainEnv styleWorld ?p True)"
  have r: "processFile plainEnv styleWorld ?p True = (Bool True, ?w1)"
    by (simp add: plain_run)
  have c: "rtlRelevant ?p"
    by (simp add: rtlRelevant_def path_defs toLowerCase_def CSS_EXT_def)
  have h2: "ErrorRtlFailed ?p \<notin> set (said styleWorld ?w1)"
    unfolding plain_run snd_conv by (simp add: said_def styleWorld_def emptyWorld_def)
  have t: "timeAt (stat (files styleWorld)) ?p = 5"
    by (simp add: timeAt_def timeOf_def stat_def styleWorld_def)
  have h3: "\<forall>n. writes styleWorld \<le> n \<and> n < writes ?w1 \<longrightarrow>
      timeAt (stat (files styleWorld)) ?p \<le> timeOf \<lparr>mtime = clock plainEnv n\<rparr>"
    unfolding t by (simp add: timeOf_def plainEnv_def)
  have f: "timeAt (stat (files ?w1)) (getDestPath ?p True) = 101"
    unfolding plain_run snd_conv dest_a_css
    by (simp add: timeAt_def timeOf_def stat_def str_def)
  from h2 have h2': "rtlRelevant ?p \<longrightarrow> ErrorRtlFailed ?p \<notin> set (said styleWorld ?w1)"
    by simp
  from stale_after_success [OF r h2' h3] r c h2 t f show ?thesis by blast
qed

text \<open>
  C4. When the removal of the definitions succeeds, the output is to start at the first
  rule of the input, and no output is to be corrupted. With the definitions
  \<open>:root{--gap:1.5rem}\<close> and the input \<open>.a{margin:0}\<close>, the minifier gives
  \<open>:root{--gap:1.5rem}.a{margin:0}\<close>; the text matched at the first rule start of the
  input is the dot; it is searched from the position where the first line of the
  definitions starts, not from where it ends, and is found inside the definitions. The
  code returned is \<open>.5rem}.a{margin:0}\<close>, and no warning is logged.
\<close>

theorem minifyCss_cuts_inside_definitions:
  "minifyCss squeezingEnv (files (definitionsWorld (str '':root{--gap:1.5rem}'' @ [10])))
     (str ''.a{margin:0}'') (str ''a.css'') False
     = (Inr \<lparr>code = str ''.5rem}.a{margin:0}'', sourceMap = None\<rparr>, [])
   \<and> transform squeezingEnv (str ''a.css'')
         (str '':root{--gap:1.5rem}'' @ [10] @ str ''.a{margin:0}'')
       = Inr (str '':root{--gap:1.5rem}.a{margin:0}'', None)
   \<and> firstRuleMatch (str ''.a{margin:0}'') = Some (str ''.'')
   \<and> indexOf (str '':root{--gap:1.5rem}.a{margin:0}'') (str '':root{--gap:1.5rem}'') 0 = Some 0
   \<and> indexOf (str '':root{--gap:1.5rem}.a{margin:0}'') (str ''.'') 0 = Some 13"
  by (simp add: minifyCss_def loadDefinitions_def readTextFile_def definitionsWorld_def
        squeezingEnv_def plainEnv_def emptyWorld_def join_def normalize_def normalizeString_def
        pushSegment_def isPosixPathSeparator_def str_def stripImports_def matchImport_def
        afterLiteral_def removeDefinitions_def trim_def isWhiteSpace_def firstLine_def
        indexOf_def firstRuleMatch_def matchRuleStart_def isLineTerminator_def Let_def
        suffix_to_prefix)




text \<open>
  C6. In a text with \<open>margin-left:\<close> and a \<open>left:\<close> that stands alone, in either
  order, \<open>generateRtlCss\<close> rewrites the first to \<open>margin-inline-start:\<close> and the second
  to \<open>inset-inline-start:\<close>, each in its place, and the texts around them are rewritten
  on their own: what a substitution has written is not read again by a later one. The
  same holds for every occurrence of the six properties with a prefix and for every
  \<open>left:\<close> and \<open>right:\<close> that stands alone.
\<close>

theorem rtlSubstitute_once:
  "standalone t \<Longrightarrow>
     rtlSubstitute (lead @ str ''margin-left:'' @ t @ str ''left:'' @ rest)
       = rtlSubstitute lead @ str ''margin-inline-start:'' @ rtlSubstitute t
         @ str ''inset-inline-start:'' @ rtlSubstitute rest
   \<and> rtlSubstitute (t @ str ''left:'' @ mid @ str ''margin-left:'' @ rest)
       = rtlSubstitute t @ str ''inset-inline-start:'' @ rtlSubstitute mid
         @ str ''margin-inline-start:'' @ rtlSubstitute rest
   \<and> includesStr (rtlSubstitute (lead @ str ''margin-left:'' @ t @ str ''left:'' @ rest))
         (str ''margin-inline-start:'')
   \<and> includesStr (rtlSubstitute (lead @ str ''margin-left:'' @ t @ str ''left:'' @ rest))
         (str ''inset-inline-start:'')
   \<and> (\<forall>(K, L) \<in> set prefixedProperties.
         rtlSubstitute (x @ K @ y) = rtlSubstitute x @ L @ rtlSubstitute y)
   \<and> rtlSubstitute (t @ str ''left:'' @ y)
       = rtlSubstitute t @ str ''inset-inline-start:'' @ rtlSubstitute y
   \<and> rtlSubstitute (t @ str ''right:'' @ y)
       = rtlSubstitute t @ str ''inset-inline-end:'' @ rtlSubstitute y"
proof -
  assume s: "standalone t"
  have "standalone ((lead @ str ''margin-left:'') @ t)"
    using s by (rule standalone_behind_colon) (simp_all add: str_def)
  then have "rtlSubstitute ((lead @ str ''margin-left:'' @ t) @ str ''left:'' @ rest)
       = rtlSubstitute (lead @ str ''margin-left:'' @ t) @ str ''inset-inline-start:''
         @ rtlSubstitute rest"
    by (intro rtlSubstitute_left) simp
  then have 1: "rtlSubstitute (lead @ str ''margin-left:'' @ t @ str ''left:'' @ rest)
       = rtlSubstitute lead @ str ''margin-inline-start:'' @ rtlSubstitute t
         @ str ''inset-inline-start:'' @ rtlSubstitute rest"
    by (simp add: rtlSubstitute_margin_left)
  have 2: "rtlSubstitute (t @ str ''left:'' @ mid @ str ''margin-left:'' @ rest)
       = rtlSubstitute t @ str ''inset-inline-start:'' @ rtlSubstitute mid
         @ str ''margin-inline-start:'' @ rtlSubstitute rest"
    by (simp add: rtlSubstitute_left [OF s] rtlSubstitute_margin_left)
  have 3: "includesStr (rtlSubstitute (lead @ str ''margin-left:'' @ t @ str ''left:'' @ rest))
         (str ''margin-inline-start:'')"
    unfolding 1 by (rule includesStr_append)
  have 4: "includesStr (rtlSubstitute (lead @ str ''margin-left:'' @ t @ str ''left:'' @ rest))
         (str ''inset-inline-start:'')"
    unfolding 1
    using includesStr_append [of "rtlSubstitute lead @ str ''margin-inline-start:'' @ rtlSubstitute t"
            "str ''inset-inline-start:''" "rtlSubstitute rest"]
    by simp
  have 5: "\<forall>(K, L) \<in> set prefixedProperties.
         rtlSubstitute (x @ K @ y) = rtlSubstitute x @ L @ rtlSubstitute y"
    by (simp add: prefixedProperties_def rtlSubstitute_margin_left rtlSubstitute_margin_right
          rtlSubstitute_padding_left rtlSubstitute_padding_right rtlSubstitute_border_left
          rtlSubstitute_border_right)
  note 6 = rtlSubstitute_left [OF s, of y] and 7 = rtlSubstitute_right [OF s, of y]
  from 1 2 3 4 5 6 7 show ?thesis by blast
qed

theorem rtlSubstitute_once_witness:
  "standalone (str ''1px;'')
   \<and> rtlSubstitute (str ''.a{margin-left:1px;left:2px}'')
       = str ''.a{margin-inline-start:1px;inset-inline-start:2px}''
   \<and> (str ''padding-right:'', str ''padding-inline-end:'') \<in> set prefixedProperties
   \<and> rtlSubstitute (str ''.a{'' @ str ''padding-right:'' @ str ''2px}'')
       = str ''.a{'' @ str ''padding-inline-end:'' @ str ''2px}''"
proof -
  have s: "standalone (str ''1px;'')"
    by (simp add: standalone_def str_def suffix_to_prefix)
  have i: "str ''.a{margin-left:1px;left:2px}''
             = str ''.a{'' @ str ''margin-left:'' @ str ''1px;'' @ str ''left:'' @ str ''2px}''"
    by (simp add: str_def)
  have o: "str ''.a{'' @ str ''margin-inline-start:'' @ str ''1px;'' @ str ''inset-inline-start:''
             @ str ''2px}'' = str ''.a{margin-inline-start:1px;inset-inline-start:2px}''"
    by (simp add: str_def)
  have m: "(str ''padding-right:'', str ''padding-inline-end:'') \<in> set prefixedProperties"
    by (simp add: prefixedProperties_def)
  note w = rtlSubstitute_once [OF s, where lead = "str ''.a{''" and rest = "str ''2px}''"
                and x = "str ''.a{''" and y = "str ''2px}''"]
  from w have 1: "rtlSubstitute (str ''.a{margin-left:1px;left:2px}'')
       = str ''.a{margin-inline-start:1px;inset-inline-start:2px}''"
    unfolding i by (simp add: rtlSubstitute_plain o)
  from w m have 2: "rtlSubstitute (str ''.a{'' @ str ''padding-right:'' @ str ''2px}'')
       = str ''.a{'' @ str ''padding-inline-end:'' @ str ''2px}''"
    by (auto simp: rtlSubstitute_plain)
  from s 1 m 2 show ?thesis by blast
qed

text \<open>
  C7. For a style sheet that passes the entry guards, when the source is read, the
  directory is ensured, the left-to-right minification succeeds and its writes succeed,
  \<open>processFile\<close> returns true whatever the right-to-left stage does, and after the call
  the left-to-right destination and its source map are what the left-to-right stage
  wrote.
\<close>

theorem rtl_failure_keeps_ltr:
  assumes "\<not> setHas (processingFiles w) p"
    and "\<not> includesStr (name (parse p)) (str ''.min'')"
    and "force \<or> fst (isSourceNewer (stat (files w)) p)"
    and "toLowerCase (extname p) = CSS_EXT"
    and "readTextFile (files w) p = Inr input"
    and "ensureDirFails e (dirname (getDestPath p False)) = None"
    and "minifyCss e (files w) input p False = (Inr ltr, logs)"
    and "writeFails e (writes w) (getDestPath p False) = None"
    and "hasMap (sourceMap ltr) \<longrightarrow>
           writeFails e (Suc (writes w)) (getDestPath p False @ str ''.map'') = None"
  shows "fst (processFile e w p force) = Bool True
     \<and> files (snd (processFile e w p force)) (getDestPath p False)
         = Inr \<lparr>info = \<lparr>mtime = clock e (writes w)\<rparr>,
                contents = Inr (code ltr @ cssMapComment (getDestPath p False @ str ''.map''))\<rparr>
     \<and> (\<forall>m. sourceMap ltr = Some m \<and> m \<noteq> [] \<longrightarrow>
           files (snd (processFile e w p force)) (getDestPath p False @ str ''.map'')
             = Inr \<lparr>info = \<lparr>mtime = clock e (Suc (writes w))\<rparr>, contents = Inr m\<rparr>)"
proof -
  let ?out = "getDestPath p False"
  have "\<exists>logs0. (if \<not> force then isSourceNewer (stat (files w)) p else (True, []))
            = (True, logs0)"
    using assms(3) by (cases "isSourceNewer (stat (files w)) p"; cases force) auto
  then obtain logs0 where
    g: "(if \<not> force then isSourceNewer (stat (files w)) p else (True, [])) = (True, logs0)"
    by blast
  define w1 where "w1 = (say logs0 w)\<lparr>processingFiles := setAdd (processingFiles w) p\<rparr>"
  have f1: "files w1 = files w" "writes w1 = writes w" by (simp_all add: w1_def)
  have body: "tryBody e w1 p = processCss e w1 input p"
    using assms(4,5,6) by (simp add: tryBody_def Let_def f1)
  have d: "?out \<noteq> getDestPath p True" "?out \<noteq> getDestPath p True @ str ''.map''"
    "?out @ str ''.map'' \<noteq> getDestPath p True"
    "?out @ str ''.map'' \<noteq> getDestPath p True @ str ''.map''"
    using getDestPath_distinct [of p] by simp_all
  have m: "str ''.map'' \<noteq> []" by (simp add: str_def)
  have css: "fst (processCss e w1 input p) = Inr (Bool True)
     \<and> files (snd (processCss e w1 input p)) ?out
         = Inr \<lparr>info = \<lparr>mtime = clock e (writes w)\<rparr>,
                contents = Inr (code ltr @ cssMapComment (?out @ str ''.map''))\<rparr>
     \<and> (\<forall>m. sourceMap ltr = Some m \<and> m \<noteq> [] \<longrightarrow>
           files (snd (processCss e w1 input p)) (?out @ str ''.map'')
             = Inr \<lparr>info = \<lparr>mtime = clock e (Suc (writes w))\<rparr>, contents = Inr m\<rparr>)"
    using assms(7,8,9) d m
    by (auto simp: processCss_def Let_def writeTextFile_def writeMap_def hasMap_def
          rtlStage_files RTL_CONFIG_def f1 split: option.splits)
  obtain w2 where t: "tryBody e w1 p = (Inr (Bool True), w2)"
    using css body by (cases "processCss e w1 input p") auto
  have "processFile e w p force
          = (Bool True, w2\<lparr>processingFiles := setDelete (processingFiles w2) p\<rparr>)"
    using assms(1,2) g t unfolding w1_def by (rule processFile_run)
  moreover have "snd (processCss e w1 input p) = w2"
    using t body by simp
  ultimately show ?thesis
    using css by simp
qed

theorem rtl_failure_keeps_ltr_witness:
  "fst (processFile rtlFailingEnv styleWorld (str ''a.css'') True) = Bool True
   \<and> fst (generateRtlCss rtlFailingEnv (files styleWorld) (str ''.a{left:0}'') (str ''a.css''))
       = Inl syntaxError
   \<and> files (snd (processFile rtlFailingEnv styleWorld (str ''a.css'') True))
         (getDestPath (str ''a.css'') False)
       = Inr \<lparr>info = \<lparr>mtime = Some 100\<rparr>,
               contents = Inr (str ''.a{left:0}''
                 @ cssMapComment (getDestPath (str ''a.css'') False @ str ''.map''))\<rparr>
   \<and> missing (stat (files (snd (processFile rtlFailingEnv styleWorld (str ''a.css'') True))))
         (getDestPath (str ''a.css'') True)"
proof -
  let ?p = "str ''a.css''" and ?e = rtlFailingEnv and ?w = styleWorld
  let ?ltr = "\<lparr>code = str ''.a{left:0}'', sourceMap = None\<rparr>"
  have h1: "\<not> setHas (processingFiles ?w) ?p"
    by (simp add: styleWorld_def emptyWorld_def setHas_def)
  have h2: "\<not> includesStr (name (parse ?p)) (str ''.min'')"
    by (simp add: path_defs)
  have h3: "True \<or> fst (isSourceNewer (stat (files ?w)) ?p)"
    by simp
  have h4: "toLowerCase (extname ?p) = CSS_EXT"
    by (simp add: path_defs toLowerCase_def CSS_EXT_def)
  have h5: "readTextFile (files ?w) ?p = Inr (str ''.a{left:0}'')"
    by (simp add: styleWorld_def readTextFile_def)
  have h6: "ensureDirFails ?e (dirname (getDestPath ?p False)) = None"
    by (simp add: rtlFailingEnv_def plainEnv_def)
  have h7: "minifyCss ?e (files ?w) (str ''.a{left:0}'') ?p False
              = (Inr ?ltr, [ErrorDefinitionsRead (str ''/srv/assets/css/definitions.css'')])"
    by (simp add: run_defs path_defs styleWorld_def rtlFailingEnv_def syntaxError_def)
  have h8: "writeFails ?e (writes ?w) (getDestPath ?p False) = None"
    by (simp add: rtlFailingEnv_def plainEnv_def)
  have h9: "hasMap (sourceMap ?ltr) \<longrightarrow>
              writeFails ?e (Suc (writes ?w)) (getDestPath ?p False @ str ''.map'') = None"
    by (simp add: hasMap_def)
  have g: "fst (generateRtlCss ?e (files ?w) (str ''.a{left:0}'') ?p) = Inl syntaxError"
    by (simp add: run_defs path_defs styleWorld_def rtlFailingEnv_def syntaxError_def)
  have c: "clock ?e (writes ?w) = Some 100"
    by (simp add: rtlFailingEnv_def plainEnv_def styleWorld_def emptyWorld_def)
  have "files (snd (processFile ?e ?w ?p True)) (str ''a.rtl.min.css'') = Inl notFound"
    unfolding rtlFailing_run snd_conv by (simp add: styleWorld_def emptyWorld_def str_def)
  then have n: "missing (stat (files (snd (processFile ?e ?w ?p True)))) (getDestPath ?p True)"
    by (simp add: missing_def stat_def dest_a_css)
  from rtl_failure_keeps_ltr [OF h1 h2 h3 h4 h5 h6 h7 h8 h9] g c n show ?thesis
    by simp
qed

text \<open>
  C8. \<open>processFile\<close> is declared to return a boolean, false for an unsupported
  extension. For the path \<open>assets/css/.css\<close>, whose extension is empty, a forced call
  that is not stopped by the in-flight guard leaves the \<open>try\<close> through the bare
  \<open>return\<close> of line 303 and resolves to \<open>undefined\<close>, whatever the environment and the
  rest of the state.
\<close>

theorem processFile_unsupported_undefined:
  "fst (processFile e (w\<lparr>processingFiles := []\<rparr>) (str ''assets/css/.css'') True) = Undefined"
  by (simp add: processFile_def setHas_def path_defs tryBody_def toLowerCase_def
        CSS_EXT_def JS_EXT_def Let_def)




text \<open>
  C10. For a path that ends with the extension of the watcher and whose name is not
  that of a minified file: when the key of the directory and the extension is not in
  the map of watched directories, \<open>processFile\<close> is called with force, and neither the
  map nor the timers change; when the key is there, an event for a path in its set is
  dropped, and an event for any other path adds the path to the set, sets the timer and
  calls \<open>processFile\<close>. No key is ever added by the watcher; \<open>startWatcher\<close> is what
  registers it. An event of that one path is handled so when its kind is \<open>modify\<close> or
  \<open>create\<close>, and does nothing otherwise.
\<close>

theorem handlePath_suppression:
  "suffix fx path \<Longrightarrow> \<not> includesStr (name (parse path)) (str ''.min'') \<Longrightarrow>
     (watchedDirectories w (dirKeyOf d fx) = None \<longrightarrow>
        handlePath e w d fx path
          = (Some (fst (processFile e w path True)), snd (processFile e w path True))
        \<and> watchedDirectories (snd (handlePath e w d fx path)) = watchedDirectories w
        \<and> timers (snd (handlePath e w d fx path)) = timers w)
   \<and> (\<forall>members. watchedDirectories w (dirKeyOf d fx) = Some members \<longrightarrow>
        (setHas members path \<longrightarrow> handlePath e w d fx path = (None, w))
        \<and> (\<not> setHas members path \<longrightarrow>
             fst (handlePath e w d fx path) \<noteq> None
             \<and> watchedDirectories (snd (handlePath e w d fx path))
                 = (watchedDirectories w)(dirKeyOf d fx \<mapsto> setAdd members path)
             \<and> timers (snd (handlePath e w d fx path))
                 = timers w @ [(dirKeyOf d fx, path)]))
   \<and> dom (watchedDirectories (snd (handlePath e w d fx path))) = dom (watchedDirectories w)
   \<and> watchedDirectories (snd (registerWatcher w d fx)) (dirKeyOf d fx) \<noteq> None
   \<and> handleEvent e w d fx kind [path]
       = (if kind = Modify \<or> kind = Create
          then ([fst (handlePath e w d fx path)], snd (handlePath e w d fx path))
          else ([], w))"
proof -
  assume a: "suffix fx path" "\<not> includesStr (name (parse path)) (str ''.min'')"
  note handlePath_cases [OF a, of w d e]
  moreover note handleEvent_single [of e w d fx kind path]
  ultimately show ?thesis by blast
qed

theorem handlePath_suppression_witness:
  "suffix (str ''.css'') (str ''assets/css/a.css'')
   \<and> \<not> includesStr (name (parse (str ''assets/css/a.css''))) (str ''.min'')
   \<and> watchedDirectories emptyWorld (dirKeyOf (str ''./assets/css'') (str ''.css'')) = None
   \<and> fst (handlePath plainEnv emptyWorld (str ''./assets/css'') (str ''.css'')
            (str ''assets/css/a.css'')) \<noteq> None
   \<and> timers (snd (handlePath plainEnv emptyWorld (str ''./assets/css'') (str ''.css'')
            (str ''assets/css/a.css''))) = []
   \<and> timers (snd (handlePath plainEnv
         (snd (registerWatcher emptyWorld (str ''./assets/css'') (str ''.css'')))
         (str ''./assets/css'') (str ''.css'') (str ''assets/css/a.css'')))
       = [(dirKeyOf (str ''./assets/css'') (str ''.css''), str ''assets/css/a.css'')]
   \<and> fst (handleEvent plainEnv emptyWorld (str ''./assets/css'') (str ''.css'') Remove
            [str ''assets/css/a.css'']) = []
   \<and> fst (handleEvent plainEnv emptyWorld (str ''./assets/css'') (str ''.css'') Modify
            [str ''assets/css/a.css'', str ''assets/css/a.css''])
       = [Some (Bool False), Some (Bool False)]
   \<and> fst (handleEvent plainEnv
            (snd (registerWatcher emptyWorld (str ''./assets/css'') (str ''.css'')))
            (str ''./assets/css'') (str ''.css'') Modify
            [str ''assets/css/a.css'', str ''assets/css/a.css''])
       = [Some (Bool False), None]"
proof -
  let ?p = "str ''assets/css/a.css''" and ?d = "str ''./assets/css''" and ?x = "str ''.css''"
  let ?w = "snd (registerWatcher emptyWorld ?d ?x)"
  have s: "suffix ?x ?p"
    by (simp add: str_def suffix_to_prefix)
  have n: "\<not> includesStr (name (parse ?p)) (str ''.min'')"
    by (simp add: path_defs)
  have k: "watchedDirectories emptyWorld (dirKeyOf ?d ?x) = None"
    by (simp add: emptyWorld_def)
  have r: "watchedDirectories ?w (dirKeyOf ?d ?x) = Some []" "timers ?w = []"
    by (simp_all add: registerWatcher_def emptyWorld_def)
  have m: "\<not> setHas [] ?p"
    by (simp add: setHas_def)
  from handlePath_suppression [OF s n, of emptyWorld ?d plainEnv] k
  have a: "fst (handlePath plainEnv emptyWorld ?d ?x ?p) \<noteq> None"
    "timers (snd (handlePath plainEnv emptyWorld ?d ?x ?p)) = []"
    by (simp_all add: emptyWorld_def)
  from handlePath_suppression [OF s n, of ?w ?d plainEnv] r m
  have b: "timers (snd (handlePath plainEnv ?w ?d ?x ?p)) = [(dirKeyOf ?d ?x, ?p)]"
    by simp
  from handlePath_suppression [OF s n, of emptyWorld ?d plainEnv Remove]
  have c: "fst (handleEvent plainEnv emptyWorld ?d ?x Remove [?p]) = []"
    by simp
  note t = handleEvent_twice
  from s n k a b c t show ?thesis by blast
qed

end
